(* ===== verification/Go_Prelude.thy ===== *)
theory Go_Prelude
  imports Main "HOL-Library.Word"
begin

text \<open>
  Shared ground of the development: the Go types the sources use, Go's \<open>error\<close> values with
  \<open>errors.Is\<close>, \<open>errors.As\<close> and \<open>errors.Join\<close>, Go maps with the zero value of a missing key and
  the unspecified order of \<open>range\<close>, and the generic lemmas on maps and words that the component
  theories use.

  A Go \<open>string\<close> and a Go \<open>[]byte\<close> are byte sequences and become \<^typ>\<open>string\<close> (a HOL \<^typ>\<open>char\<close> is
  a byte). An \<open>int64\<close> is a \<^typ>\<open>64 word\<close> read with \<^const>\<open>sint\<close>, so \<open>+\<close> wraps around as in Go. A
  \<open>float64\<close> is the \<^typ>\<open>64 word\<close> of its IEEE 754 bits: the program only stores, copies and
  classifies gauge values, it never computes with them.
\<close>

named_theorems go_map \<open>rules for Go maps and their iteration\<close>
named_theorems go_err \<open>rules for Go error values\<close>

section \<open>Types\<close>

type_synonym int64 = "64 word"
type_synonym float64 = "64 word"
type_synonym bytes = string
type_synonym 'v gomap = "string \<rightharpoonup> 'v"

section \<open>float64 classification\<close>

text \<open>\<open>math.IsNaN(f)\<close> and \<open>math.IsInf(f, 0)\<close> on the bits: exponent all ones, fraction non-zero or
  zero.\<close>

definition math_IsNaN :: "float64 \<Rightarrow> bool" where
  "math_IsNaN f \<longleftrightarrow> take_bit 11 (drop_bit 52 f) = 2047 \<and> take_bit 52 f \<noteq> 0"

definition math_IsInf :: "float64 \<Rightarrow> bool" where
  "math_IsInf f \<longleftrightarrow> take_bit 11 (drop_bit 52 f) = 2047 \<and> take_bit 52 f = 0"

abbreviation f64_finite :: "float64 \<Rightarrow> bool" where
  "f64_finite f \<equiv> \<not> math_IsNaN f \<and> \<not> math_IsInf f"

text \<open>\<open>0\<close>, \<open>1.0\<close>, \<open>+Inf\<close> and the quiet NaN as bit patterns.\<close>

lemma f64_finite_zero [simp]: "\<not> math_IsNaN 0" "\<not> math_IsInf 0"
  by (simp_all add: math_IsNaN_def math_IsInf_def)

lemma f64_examples:
  "f64_finite 0x3FF0000000000000" "math_IsInf 0x7FF0000000000000" "math_IsNaN 0x7FF8000000000001"
  by (simp_all add: math_IsNaN_def math_IsInf_def take_bit_eq_mask mask_eq_exp_minus_1)

section \<open>Errors\<close>

text \<open>
  A Go \<open>error\<close> is an optional \<open>goerror\<close>; \<^const>\<open>None\<close> is \<open>nil\<close>. \<open>ErrorString\<close> is an error made on
  the spot by \<open>errors.New\<close> or a \<open>fmt.Errorf\<close> without \<open>%w\<close>; \<open>Sentinel\<close> is a package-level error
  variable, compared by identity; \<open>WrapError\<close> is \<open>fmt.Errorf\<close> with one or more \<open>%w\<close>; \<open>JoinError\<close>
  is what \<open>errors.Join\<close> builds. \<open>PqError\<close> is a \<open>*pq.Error\<close> with its SQLSTATE code, \<open>StatusError\<close> a
  gRPC status with its code and message.
\<close>

datatype goerror =
    ErrorString string
  | Sentinel string
  | WrapError string "goerror list"
  | JoinError "goerror list"
  | PqError string
  | StatusError nat string

type_synonym gerr = "goerror option"

text \<open>\<open>errors.Is(err, target)\<close> for a sentinel target: the tree of wrapped errors is searched.\<close>

fun errors_Is :: "goerror \<Rightarrow> string \<Rightarrow> bool" where
  "errors_Is (Sentinel s) t = (s = t)"
| "errors_Is (WrapError m es) t = (\<exists>e \<in> set es. errors_Is e t)"
| "errors_Is (JoinError es) t = (\<exists>e \<in> set es. errors_Is e t)"
| "errors_Is _ t = False"

text \<open>\<open>errors.As\<close> for the target type \<open>*pq.Error\<close>: the first match in depth-first order.\<close>

fun first_some :: "'a option list \<Rightarrow> 'a option" where
  "first_some [] = None"
| "first_some (Some x # _) = Some x"
| "first_some (None # xs) = first_some xs"

fun errors_As_pq :: "goerror \<Rightarrow> string option" where
  "errors_As_pq (PqError c) = Some c"
| "errors_As_pq (WrapError m es) = first_some (map errors_As_pq es)"
| "errors_As_pq (JoinError es) = first_some (map errors_As_pq es)"
| "errors_As_pq _ = None"

text \<open>\<open>errors.Join\<close>: \<open>nil\<close> values are discarded, and the result is \<open>nil\<close> if all were.\<close>

definition errors_Join :: "gerr list \<Rightarrow> gerr" where
  "errors_Join es = (case List.map_filter (\<lambda>e. e) es of [] \<Rightarrow> None | xs \<Rightarrow> Some (JoinError xs))"

lemma map_filter_id_Nil: "(List.map_filter (\<lambda>e. e) es = []) = (\<forall>e \<in> set es. e = None)"
  by (induction es) (auto simp: List.map_filter_def)

lemma set_map_filter_id: "set (List.map_filter (\<lambda>e. e) es) = {x. Some x \<in> set es}"
  by (induction es) (auto simp: List.map_filter_def)

lemma errors_Join_None_iff [go_err]: "(errors_Join es = None) = (\<forall>e \<in> set es. e = None)"
proof -
  have "(errors_Join es = None) = (List.map_filter (\<lambda>e. e) es = [])"
    by (simp add: errors_Join_def split: list.split)
  then show ?thesis by (simp only: map_filter_id_Nil)
qed

lemma errors_Is_Join [go_err]:
  "errors_Join es = Some e \<Longrightarrow> errors_Is e t = (\<exists>x. Some x \<in> set es \<and> errors_Is x t)"
  using set_map_filter_id [of es] by (auto simp: errors_Join_def split: list.splits)

section \<open>Maps\<close>

text \<open>\<open>m[k]\<close> of a map with integer values: the zero value when the key is missing.\<close>

definition map_get0 :: "'v :: zero gomap \<Rightarrow> string \<Rightarrow> 'v" where
  "map_get0 m k = (case m k of None \<Rightarrow> 0 | Some v \<Rightarrow> v)"

text \<open>\<open>m[k] += v\<close>.\<close>

definition map_inc :: "int64 gomap \<Rightarrow> string \<Rightarrow> int64 \<Rightarrow> int64 gomap" where
  "map_inc m k v = m(k \<mapsto> map_get0 m k + v)"

lemma map_get0_simps [simp]:
  "map_get0 Map.empty k = 0" "map_get0 (m(k \<mapsto> v)) k' = (if k' = k then v else map_get0 m k')"
  by (simp_all add: map_get0_def)

lemma map_get0_inc [go_map]: "map_get0 (map_inc m k v) k' = map_get0 m k' + (if k' = k then v else 0)"
  by (simp add: map_inc_def)

lemma dom_map_inc [simp]: "dom (map_inc m k v) = insert k (dom m)"
  by (simp add: map_inc_def)

lemma map_inc_comm [go_map]: "map_inc (map_inc m k v) k' v' = map_inc (map_inc m k' v') k v"
  by (simp add: map_inc_def fun_upd_twist add.assoc add.commute [of v v'])

text \<open>
  \<open>for k, v := range m\<close> visits every key of \<open>m\<close> exactly once, in an order the language leaves open.
  The model takes the order as an argument: \<open>range_order m ks\<close> says that \<open>ks\<close> is such an order.
\<close>

definition range_order :: "'v gomap \<Rightarrow> string list \<Rightarrow> bool" where
  "range_order m ks \<longleftrightarrow> distinct ks \<and> set ks = dom m"

lemma range_order_exists [go_map]: "finite (dom m) \<Longrightarrow> \<exists>ks. range_order m ks"
  unfolding range_order_def using finite_distinct_list [of "dom m"] by blast

lemma range_order_finite [go_map]: "range_order m ks \<Longrightarrow> finite (dom m)"
  unfolding range_order_def by (metis finite_set)

lemma range_order_Nil [simp]: "range_order m [] = (m = Map.empty)"
  by (auto simp: range_order_def)

text \<open>The copy loop \<open>for k, v := range m { copyMap[k] = v }\<close>.\<close>

fun copy_loop :: "'v gomap \<Rightarrow> string list \<Rightarrow> 'v gomap \<Rightarrow> 'v gomap" where
  "copy_loop m [] c = c"
| "copy_loop m (k # ks) c = copy_loop m ks (case m k of None \<Rightarrow> c | Some v \<Rightarrow> c(k \<mapsto> v))"

lemma copy_loop_apply: "copy_loop m ks c x = (if x \<in> set ks \<and> m x \<noteq> None then m x else c x)"
  by (induction ks arbitrary: c) (auto split: option.splits)

lemma copy_loop_range [go_map]: "range_order m ks \<Longrightarrow> copy_loop m ks Map.empty = m"
  by (rule ext) (auto simp: copy_loop_apply range_order_def)

section \<open>Signed arithmetic in range\<close>

lemma sint_add_in_range:
  fixes a b :: int64
  assumes "- (2 ^ 63) \<le> sint a + sint b" "sint a + sint b < 2 ^ 63"
  shows "sint (a + b) = sint a + sint b"
  using assms by (simp add: sint_word_ariths(1) signed_take_bit_int_eq_self)

end
