(* ===== verification/Models.thy ===== *)
theory Models
  imports Go_Prelude
begin

text \<open>
  \<open>internal/model\<close> (the \<open>Metrics\<close> struct and its generated \<open>Reset\<close>) and \<open>internal/pool\<close> (typed reuse
  of objects that can be reset). A Go pointer field is an optional value: the program never writes
  through \<open>Delta\<close> or \<open>Value\<close> after it built a metric, except in \<open>Reset\<close>, which owns its object.
\<close>

section \<open>The Metrics struct\<close>

definition Counter :: string where "Counter = ''counter''"
definition Gauge :: string where "Gauge = ''gauge''"

record Metrics =
  ID :: string
  MType :: string
  Delta :: "int64 option"
  Value :: "float64 option"
  Hash :: string

lemma Gauge_neq_Counter [simp]: "Gauge \<noteq> Counter" "Counter \<noteq> Gauge"
  by (simp_all add: Gauge_def Counter_def)

text \<open>The composite literals the program builds: the fields that are not named are zero.\<close>

definition gauge_metric :: "string \<Rightarrow> float64 \<Rightarrow> Metrics" where
  "gauge_metric name v = \<lparr>ID = name, MType = Gauge, Delta = None, Value = Some v, Hash = []\<rparr>"

definition counter_metric :: "string \<Rightarrow> int64 \<Rightarrow> Metrics" where
  "counter_metric name d = \<lparr>ID = name, MType = Counter, Delta = Some d, Value = None, Hash = []\<rparr>"

lemma gauge_metric_sel [simp]:
  "ID (gauge_metric n v) = n" "MType (gauge_metric n v) = Gauge" "Delta (gauge_metric n v) = None"
  "Value (gauge_metric n v) = Some v" "Hash (gauge_metric n v) = []"
  by (simp_all add: gauge_metric_def)

lemma counter_metric_sel [simp]:
  "ID (counter_metric n d) = n" "MType (counter_metric n d) = Counter"
  "Delta (counter_metric n d) = Some d" "Value (counter_metric n d) = None" "Hash (counter_metric n d) = []"
  by (simp_all add: counter_metric_def)

text \<open>\<open>(*Metrics).Reset\<close>: a nil receiver is left alone, allocated pointers are kept and zeroed.\<close>

definition Reset :: "Metrics option \<Rightarrow> Metrics option" where
  "Reset rs = map_option (\<lambda>m. m\<lparr>ID := [], MType := [], Delta := map_option (\<lambda>_. 0) (Delta m),
       Value := map_option (\<lambda>_. 0) (Value m), Hash := []\<rparr>) rs"

lemma zero_ptr_iff: "map_option (\<lambda>_. 0 :: 'a :: zero) x = x \<longleftrightarrow> x = None \<or> x = Some 0"
  by (cases x) auto

definition reset_state :: "Metrics \<Rightarrow> bool" where
  "reset_state m \<longleftrightarrow> ID m = [] \<and> MType m = [] \<and> Hash m = []
     \<and> (Delta m = None \<or> Delta m = Some 0) \<and> (Value m = None \<or> Value m = Some 0)"

lemma Reset_reset_state: "Reset (Some m) = Some m' \<Longrightarrow> reset_state m'"
  by (auto simp: Reset_def reset_state_def)

lemma Reset_fixed_iff: "Reset (Some m) = Some m \<longleftrightarrow> reset_state m"
  by (cases m) (auto simp: Reset_def reset_state_def zero_ptr_iff)

section \<open>The object pool\<close>

text \<open>
  A \<open>Pool[T]\<close> wraps a \<open>sync.Pool\<close>: stored objects may be taken in any order and may disappear at any
  time. \<open>items\<close> holds the stored objects, \<open>factory\<close> the object a non-nil \<open>newObject\<close> returns.
\<close>

record 'a pool =
  items :: "'a list"
  factory :: "'a option"

definition Pool_New :: "'a option \<Rightarrow> 'a pool" where
  "Pool_New newObject = \<lparr>items = [], factory = newObject\<rparr>"

text \<open>\<open>Get\<close>: \<open>sync.Pool\<close> hands out some stored object (\<open>Some i\<close>) or finds none (\<open>None\<close>, always
  possible); then the factory makes one, and without a factory the zero value of \<open>T\<close> is returned.\<close>

definition Pool_Get :: "'a \<Rightarrow> nat option \<Rightarrow> 'a pool \<Rightarrow> 'a \<times> 'a pool" where
  "Pool_Get zero choice p =
     (case choice of
        Some i \<Rightarrow> if i < length (items p)
                  then (items p ! i, p\<lparr>items := take i (items p) @ drop (Suc i) (items p)\<rparr>)
                  else (case factory p of Some x \<Rightarrow> (x, p) | None \<Rightarrow> (zero, p))
      | None \<Rightarrow> (case factory p of Some x \<Rightarrow> (x, p) | None \<Rightarrow> (zero, p)))"

definition Pool_Put :: "('a \<Rightarrow> 'a) \<Rightarrow> 'a \<Rightarrow> 'a pool \<Rightarrow> 'a pool" where
  "Pool_Put reset x p = p\<lparr>items := reset x # items p\<rparr>"

text \<open>Everything that can happen to a pool: \<open>Get\<close>, \<open>Put\<close>, and the collector dropping objects.\<close>

inductive pool_reach :: "('a \<Rightarrow> 'a) \<Rightarrow> 'a \<Rightarrow> 'a option \<Rightarrow> 'a pool \<Rightarrow> bool" for reset zero newObject where
  new: "pool_reach reset zero newObject (Pool_New newObject)"
| get: "pool_reach reset zero newObject p \<Longrightarrow> pool_reach reset zero newObject (snd (Pool_Get zero c p))"
| put: "pool_reach reset zero newObject p \<Longrightarrow> pool_reach reset zero newObject (Pool_Put reset x p)"
| drop: "pool_reach reset zero newObject p \<Longrightarrow> pool_reach reset zero newObject (p\<lparr>items := filter keep (items p)\<rparr>)"

inductive_cases pool_reach_newE: "pool_reach reset zero newObject (Pool_New f)"

text \<open>The contract \<open>interface{ Reset() }\<close> is used under: resetting twice is resetting once.\<close>

locale resettable =
  fixes reset :: "'a \<Rightarrow> 'a"
  assumes reset_idem: "reset (reset x) = reset x"
begin

lemma pool_items_reset:
  "pool_reach reset zero newObject p \<Longrightarrow> (\<forall>x \<in> set (items p). reset x = x) \<and> factory p = newObject"
proof (induction rule: pool_reach.induct)
  case (get p c)
  then show ?case
    by (auto simp: Pool_Get_def split: option.splits dest: in_set_takeD in_set_dropD)
qed (auto simp: Pool_New_def Pool_Put_def reset_idem)

lemma pool_get_reset:
  assumes "pool_reach reset zero newObject p"
  shows "let x = fst (Pool_Get zero c p) in reset x = x \<or> Some x = newObject \<or> newObject = None \<and> x = zero"
  using pool_items_reset [OF assms] by (auto simp: Pool_Get_def Let_def split: option.splits)

end

interpretation metrics_reset: resettable Reset
proof unfold_locales
  fix x show "Reset (Reset x) = Reset x"
    by (cases x) (simp_all add: Reset_def option.map_comp comp_def)
qed

text \<open>
  Whatever sequence of \<open>Get\<close>, \<open>Put\<close> and garbage collections led to a pool of \<open>*Metrics\<close>, an
  object taken from it carries nothing of its previous use: it is in the reset state, or it is the
  factory's fresh object, or (without a factory) the nil pointer.
\<close>

theorem pool_get_clean:
  assumes "pool_reach Reset None newObject p"
  shows "case fst (Pool_Get None c p) of
           None \<Rightarrow> True
         | Some m \<Rightarrow> reset_state m \<or> newObject = Some (Some m)"
  using metrics_reset.pool_get_reset [OF assms, of c]
  by (auto simp: Let_def Reset_fixed_iff split: option.splits)

lemma pool_get_clean_witness:
  "case fst (Pool_Get None (Some 0) (Pool_Put Reset (Some (counter_metric ''a'' 5)) (Pool_New None))) of
     None \<Rightarrow> True | Some m \<Rightarrow> reset_state m \<or> None = Some (Some m)"
proof -
  have "pool_reach Reset None None (Pool_Put Reset (Some (counter_metric ''a'' 5)) (Pool_New None))"
    by (intro pool_reach.put pool_reach.new)
  from pool_get_clean [OF this, of "Some 0"] show ?thesis .
qed

end
