(* ===== verification/Json_Text.thy ===== *)
theory Json_Text
  imports Go_Strings
begin

text \<open>
  Strings and numbers of JSON text as \<open>encoding/json\<close> writes and reads them: the runes of \<open>unicode/utf8\<close>,
  strings with HTML-safe escapes and U+FFFD in place of invalid bytes, and number literals. What is written as a
  string reads back as the string with its invalid bytes replaced.
\<close>

section \<open>UTF-8\<close>

abbreviation ordc :: "char \<Rightarrow> nat" where
  "ordc c \<equiv> of_char c"

abbreviation chrc :: "nat \<Rightarrow> char" where
  "chrc n \<equiv> char_of n"

definition tail_byte :: "nat \<Rightarrow> bool" where
  "tail_byte b \<longleftrightarrow> 128 \<le> b \<and> b \<le> 191"

text \<open>
  The table of \<open>utf8\<close>: how many bytes follow a first byte, and the range of the first of them; 0 for
  ASCII and for bytes that start no rune.
\<close>

definition lead :: "nat \<Rightarrow> nat \<times> nat \<times> nat" where
  "lead a =
     (if 194 \<le> a \<and> a \<le> 223 then (1, 128, 191)
      else if a = 224 then (2, 160, 191)
      else if a = 237 then (2, 128, 159)
      else if 225 \<le> a \<and> a \<le> 239 then (2, 128, 191)
      else if a = 240 then (3, 144, 191)
      else if 241 \<le> a \<and> a \<le> 243 then (3, 128, 191)
      else if a = 244 then (3, 128, 143)
      else (0, 0, 0))"

text \<open>The length of the rune at the front, \<^const>\<open>None\<close> where \<open>utf8.DecodeRune\<close> returns \<open>RuneError\<close> of width 1.\<close>

definition rune_size :: "string \<Rightarrow> nat option" where
  "rune_size s =
     (case s of
        [] \<Rightarrow> None
      | c # cs \<Rightarrow>
        if ordc c < 128 then Some 1
        else case lead (ordc c) of (k, lo, hi) \<Rightarrow>
          if 0 < k \<and> k \<le> length cs \<and> lo \<le> ordc (hd cs) \<and> ordc (hd cs) \<le> hi
             \<and> list_all (\<lambda>b. tail_byte (ordc b)) (take (k - 1) (tl cs))
          then Some (Suc k) else None)"

text \<open>\<open>utf8.AppendRune\<close>; surrogates and values out of range become \<open>RuneError\<close>.\<close>

definition encode_rune :: "nat \<Rightarrow> string" where
  "encode_rune r =
     (if r < 128 then [chrc r]
      else if r < 2048 then [chrc (192 + r div 64), chrc (128 + r mod 64)]
      else if 55296 \<le> r \<and> r \<le> 57343 \<or> r > 1114111 then [chrc 239, chrc 191, chrc 189]
      else if r < 65536 then [chrc (224 + r div 4096), chrc (128 + r div 64 mod 64), chrc (128 + r mod 64)]
      else [chrc (240 + r div 262144), chrc (128 + r div 4096 mod 64), chrc (128 + r div 64 mod 64), chrc (128 + r mod 64)])"

definition RuneError :: string where
  "RuneError = encode_rune 65533"

lemma rune_size_bounds: "rune_size s = Some n \<Longrightarrow> 0 < n \<and> n \<le> length s"
  by (auto simp: rune_size_def split: list.splits if_splits prod.splits)

lemma rune_size_take:
  assumes "rune_size s = Some n"
  shows "rune_size (take n s @ t) = Some n"
proof -
  from assms obtain c cs where s: "s = c # cs" by (auto simp: rune_size_def split: list.splits)
  show ?thesis
  proof (cases "ordc c < 128")
    case False
    obtain k lo hi where l: "lead (ordc c) = (k, lo, hi)" by (cases "lead (ordc c)") auto
    with assms s False have k: "0 < k" "k \<le> length cs" "n = Suc k" by (auto simp: rune_size_def split: if_splits)
    then obtain b bs where cs: "cs = b # bs" by (cases cs) auto
    with k have "take (k - 1) (take (k - 1) bs @ t) = take (k - 1) bs" "take k cs = b # take (k - 1) bs"
      by (auto simp: take_Cons')
    with assms s False l k cs show ?thesis by (auto simp: rune_size_def split: if_splits)
  qed (use assms s in \<open>auto simp: rune_size_def\<close>)
qed

function valid_utf8 :: "string \<Rightarrow> bool" where
  "valid_utf8 s = (s = [] \<or> (case rune_size s of None \<Rightarrow> False | Some n \<Rightarrow> valid_utf8 (drop n s)))"
  by pat_completeness auto
termination valid_utf8
  by (relation "measure length") (auto dest: rune_size_bounds)

declare valid_utf8.simps [simp del]

section \<open>Strings\<close>

text \<open>\<open>appendString\<close> with \<open>escapeHTML\<close>, without the quotes.\<close>

definition escape_ascii :: "char \<Rightarrow> string" where
  "escape_ascii c =
     (if c = CHR 0x22 \<or> c = CHR 0x5C then [CHR 0x5C, c]
      else if c = CHR 0x08 then [CHR 0x5C, CHR ''b'']
      else if c = CHR 0x0C then [CHR 0x5C, CHR ''f'']
      else if c = CHR 0x0A then [CHR 0x5C, CHR ''n'']
      else if c = CHR 0x0D then [CHR 0x5C, CHR ''r'']
      else if c = CHR 0x09 then [CHR 0x5C, CHR ''t'']
      else if ordc c < 32 \<or> c = CHR ''<'' \<or> c = CHR ''>'' \<or> c = CHR ''&''
      then CHR 0x5C # ''u00'' @ [hex_char (ordc c div 16), hex_char (ordc c mod 16)]
      else [c])"

text \<open>U+2028 and U+2029 are escaped as well; other runes are copied.\<close>

definition escape_rune :: "string \<Rightarrow> string" where
  "escape_rune r =
     (if r = [CHR 0xE2, CHR 0x80, CHR 0xA8] then CHR 0x5C # ''u2028''
      else if r = [CHR 0xE2, CHR 0x80, CHR 0xA9] then CHR 0x5C # ''u2029''
      else r)"

function escape :: "string \<Rightarrow> string" where
  "escape s =
     (case s of
        [] \<Rightarrow> []
      | c # cs \<Rightarrow>
        if ordc c < 128 then escape_ascii c @ escape cs
        else case rune_size s of
          None \<Rightarrow> CHR 0x5C # ''ufffd'' @ escape cs
        | Some n \<Rightarrow> escape_rune (take n s) @ escape (drop n s))"
  by pat_completeness auto
termination escape
  by (relation "measure length") (auto dest: rune_size_bounds)

declare escape.simps [simp del]

definition string_text :: "string \<Rightarrow> string" where
  "string_text s = CHR 0x22 # escape s @ [CHR 0x22]"

text \<open>\<open>getu4\<close>: four hexadecimal digits.\<close>

definition getu4 :: "string \<Rightarrow> (nat \<times> string) option" where
  "getu4 s =
     (case s of
        a # b # c # d # r \<Rightarrow>
          (case (hex_val a, hex_val b, hex_val c, hex_val d) of
             (Some i, Some j, Some k, Some l) \<Rightarrow> Some (((i * 16 + j) * 16 + k) * 16 + l, r)
           | _ \<Rightarrow> None)
      | _ \<Rightarrow> None)"

definition surrogate :: "nat \<Rightarrow> bool" where
  "surrogate u \<longleftrightarrow> 55296 \<le> u \<and> u \<le> 57343"

text \<open>The second half of a surrogate pair: the rune and what follows it.\<close>

definition low_surrogate :: "nat \<Rightarrow> string \<Rightarrow> (nat \<times> string) option" where
  "low_surrogate u s =
     (case s of
        a # b # r \<Rightarrow>
          if a = CHR 0x5C \<and> b = CHR ''u'' then
            (case getu4 r of
               None \<Rightarrow> None
             | Some (v, r') \<Rightarrow>
                 if u \<le> 56319 \<and> 56320 \<le> v \<and> v \<le> 57343 then Some ((u - 55296) * 1024 + (v - 56320) + 65536, r') else None)
          else None
      | _ \<Rightarrow> None)"

definition unescape :: "char \<Rightarrow> char option" where
  "unescape e =
     (if e = CHR 0x22 \<or> e = CHR 0x5C \<or> e = CHR ''/'' then Some e
      else if e = CHR ''b'' then Some (CHR 0x08)
      else if e = CHR ''f'' then Some (CHR 0x0C)
      else if e = CHR ''n'' then Some (CHR 0x0A)
      else if e = CHR ''r'' then Some (CHR 0x0D)
      else if e = CHR ''t'' then Some (CHR 0x09)
      else None)"

lemma getu4_length: "getu4 s = Some (u, r) \<Longrightarrow> length r < length s"
  by (auto simp: getu4_def split: list.splits option.splits)

lemma low_surrogate_length: "low_surrogate u s = Some (v, r) \<Longrightarrow> length r < length s"
  by (auto simp: low_surrogate_def split: list.splits option.splits if_splits dest: getu4_length)

text \<open>A string after its opening quote, and what follows the closing one.\<close>

function read_string :: "string \<Rightarrow> (string \<times> string) option" where
  "read_string s =
     (case s of
        [] \<Rightarrow> None
      | c # cs \<Rightarrow>
        if c = CHR 0x22 then Some ([], cs)
        else if c = CHR 0x5C then
          (case cs of
             [] \<Rightarrow> None
           | e # es \<Rightarrow>
             if e = CHR ''u'' then
               (case getu4 es of
                  None \<Rightarrow> None
                | Some (u, r) \<Rightarrow>
                  if surrogate u then
                    (case low_surrogate u r of
                       Some (v, r') \<Rightarrow> map_option (apfst ((@) (encode_rune v))) (read_string r')
                     | None \<Rightarrow> map_option (apfst ((@) RuneError)) (read_string r))
                  else map_option (apfst ((@) (encode_rune u))) (read_string r))
             else (case unescape e of None \<Rightarrow> None | Some x \<Rightarrow> map_option (apfst ((#) x)) (read_string es)))
        else if ordc c < 32 then None
        else if ordc c < 128 then map_option (apfst ((#) c)) (read_string cs)
        else (case rune_size s of
                None \<Rightarrow> map_option (apfst ((@) RuneError)) (read_string cs)
              | Some n \<Rightarrow> map_option (apfst ((@) (take n s))) (read_string (drop n s))))"
  by pat_completeness auto
termination read_string
  by (relation "measure length") (auto dest!: rune_size_bounds getu4_length low_surrogate_length)

declare read_string.simps [simp del]

text \<open>What comes back of a Go string that is written and read: every invalid byte is replaced by U+FFFD.\<close>

function sanitize :: "string \<Rightarrow> string" where
  "sanitize s =
     (case s of
        [] \<Rightarrow> []
      | c # cs \<Rightarrow>
        (case rune_size s of None \<Rightarrow> RuneError @ sanitize cs | Some n \<Rightarrow> take n s @ sanitize (drop n s)))"
  by pat_completeness auto
termination sanitize
  by (relation "measure length") (auto dest: rune_size_bounds)

declare sanitize.simps [simp del]

lemma sanitize_Nil [simp]: "sanitize [] = []"
  by (simp add: sanitize.simps)

lemma encode_rune_not_Nil [simp]: "encode_rune r \<noteq> []"
  by (simp add: encode_rune_def)

lemma sanitize_Nil_iff [simp]: "sanitize s = [] \<longleftrightarrow> s = []"
proof (cases s)
  case (Cons c cs)
  show ?thesis
  proof (cases "rune_size s")
    case (Some n)
    with rune_size_bounds [OF Some] Cons show ?thesis by (simp add: sanitize.simps [of "c # cs"])
  qed (simp add: sanitize.simps [of "c # cs"] Cons RuneError_def)
qed simp

lemma sanitize_valid: "valid_utf8 s \<Longrightarrow> sanitize s = s"
proof (induction s rule: valid_utf8.induct)
  case (1 s)
  show ?case
  proof (cases "rune_size s")
    case None
    with 1(2) show ?thesis by (subst (asm) valid_utf8.simps) simp
  next
    case (Some n)
    with 1(2) have "s = [] \<or> valid_utf8 (drop n s)" by (subst (asm) valid_utf8.simps) simp
    with 1(1) Some have "s = [] \<or> sanitize (drop n s) = drop n s" by blast
    with Some show ?thesis by (subst sanitize.simps) (auto split: list.split)
  qed
qed

lemma sanitize_ascii:
  assumes "ordc c < 128"
  shows "sanitize (c # cs) = c # sanitize cs"
  using assms by (subst sanitize.simps) (simp add: rune_size_def)

lemma valid_utf8_Nil [simp]: "valid_utf8 []"
  by (simp add: valid_utf8.simps)

lemma valid_utf8_rune:
  assumes "rune_size r = Some (length r)"
  shows "valid_utf8 (r @ t) = valid_utf8 t"
proof -
  have "rune_size (r @ t) = Some (length r)" using rune_size_take [OF assms, of t] by simp
  then show ?thesis using rune_size_bounds [OF assms] by (subst valid_utf8.simps) auto
qed

lemma rune_size_RuneError: "rune_size RuneError = Some (length RuneError)"
  by (simp add: RuneError_def encode_rune_def rune_size_def lead_def tail_byte_def)

text \<open>What comes back is always UTF-8.\<close>

lemma valid_sanitize: "valid_utf8 (sanitize s)"
proof (induction s rule: sanitize.induct)
  case (1 s)
  show ?case
  proof (cases s)
    case (Cons c cs)
    show ?thesis
    proof (cases "rune_size s")
      case None
      with 1 Cons show ?thesis
        by (simp add: sanitize.simps [of "c # cs"] valid_utf8_rune rune_size_RuneError)
    next
      case (Some n)
      then have "rune_size (take n s) = Some (length (take n s))"
        using rune_size_take [OF Some, of "[]"] rune_size_bounds [OF Some] by simp
      with 1 Cons Some valid_utf8_rune [OF this] show ?thesis by (simp add: sanitize.simps [of "c # cs"])
    qed
  qed simp
qed

lemma getu4_ascii: "b < 128 \<Longrightarrow> getu4 (''00'' @ hex_char (b div 16) # hex_char (b mod 16) # r) = Some (b, r)"
proof -
  have "hex_val CHR ''0'' = Some 0" by (simp add: hex_val_def)
  moreover assume "b < 128"
  moreover from this have "hex_val (hex_char (b div 16)) = Some (b div 16)" by (intro hex_val_char) simp
  moreover have "hex_val (hex_char (b mod 16)) = Some (b mod 16)" by (intro hex_val_char) simp
  ultimately show ?thesis by (simp add: getu4_def)
qed

lemma read_u_escape:
  assumes "getu4 t = Some (u, r)" "\<not> surrogate u"
  shows "read_string (CHR 0x5C # CHR ''u'' # t) = map_option (apfst ((@) (encode_rune u))) (read_string r)"
  using assms by (subst read_string.simps) simp

lemma escape_ascii_cases:
  obtains (u) "escape_ascii c = CHR 0x5C # ''u00'' @ [hex_char (ordc c div 16), hex_char (ordc c mod 16)]"
    | (e) e where "escape_ascii c = [CHR 0x5C, e]" "unescape e = Some c" "e \<noteq> CHR ''u''" "32 \<le> ordc e"
    | (p) "escape_ascii c = [c]" "c \<noteq> CHR 0x22" "c \<noteq> CHR 0x5C" "\<not> ordc c < 32"
proof -
  let ?special = "{CHR 0x22, CHR 0x5C, CHR 0x08, CHR 0x0C, CHR 0x0A, CHR 0x0D, CHR 0x09}"
  have "c \<in> ?special \<Longrightarrow> \<exists>e. escape_ascii c = [CHR 0x5C, e] \<and> unescape e = Some c \<and> e \<noteq> CHR ''u'' \<and> 32 \<le> ordc e"
    by (auto simp: escape_ascii_def unescape_def)
  moreover have "c \<notin> ?special \<Longrightarrow> escape_ascii c = (if ordc c < 32 \<or> c = CHR ''<'' \<or> c = CHR ''>'' \<or> c = CHR ''&''
      then CHR 0x5C # ''u00'' @ [hex_char (ordc c div 16), hex_char (ordc c mod 16)] else [c])"
    unfolding escape_ascii_def by (simp del: append.simps)
  ultimately show thesis
    using that by (cases "c \<in> ?special"; cases "ordc c < 32 \<or> c = CHR ''<'' \<or> c = CHR ''>'' \<or> c = CHR ''&''") auto
qed

lemma read_escape_ascii:
  assumes "ordc c < 128"
  shows "read_string (escape_ascii c @ r) = map_option (apfst ((#) c)) (read_string r)"
proof -
  consider (u) "escape_ascii c = CHR 0x5C # ''u00'' @ [hex_char (ordc c div 16), hex_char (ordc c mod 16)]"
    | (e) e where "escape_ascii c = [CHR 0x5C, e]" "unescape e = Some c" "e \<noteq> CHR ''u''"
    | (p) "escape_ascii c = [c]" "c \<noteq> CHR 0x22" "c \<noteq> CHR 0x5C" "\<not> ordc c < 32"
    by (rule escape_ascii_cases)
  then show ?thesis
  proof cases
    case u
    have "\<not> surrogate (ordc c)" "encode_rune (ordc c) = [c]" using assms by (simp_all add: surrogate_def encode_rune_def)
    moreover have "(@) [c] = (#) c" by (simp add: fun_eq_iff)
    ultimately show ?thesis using u read_u_escape [OF getu4_ascii [OF assms]] by simp
  next
    case e
    then show ?thesis by (subst read_string.simps) simp
  next
    case p
    with assms show ?thesis by (subst read_string.simps) simp
  qed
qed

lemma read_rune:
  assumes "rune_size s = Some n" "s = c # cs" "\<not> ordc c < 128"
  shows "read_string (take n s @ r) = map_option (apfst ((@) (take n s))) (read_string r)"
proof -
  obtain k where n: "n = Suc k" using rune_size_bounds [OF assms(1)] by (cases n) auto
  have "rune_size (take n s @ r) = Some n" "length (take n s) = n"
    using rune_size_take [OF assms(1)] rune_size_bounds [OF assms(1)] by simp_all
  moreover have "c \<noteq> CHR 0x22" "c \<noteq> CHR 0x5C" using assms(3) by auto
  ultimately show ?thesis using assms n by (subst read_string.simps) simp
qed

lemma read_escape_rune:
  assumes "rune_size s = Some n" "s = c # cs" "\<not> ordc c < 128"
  shows "read_string (escape_rune (take n s) @ r) = map_option (apfst ((@) (take n s))) (read_string r)"
proof -
  have u: "getu4 (''2028'' @ r) = Some (8232, r)" "getu4 (''2029'' @ r) = Some (8233, r)"
    by (simp_all add: getu4_def hex_val_def)
  have e: "encode_rune 8232 = [CHR 0xE2, CHR 0x80, CHR 0xA8]" "encode_rune 8233 = [CHR 0xE2, CHR 0x80, CHR 0xA9]"
    by (simp_all add: encode_rune_def char_of_eq_iff)
  show ?thesis
    using read_rune [OF assms, of r] read_u_escape [OF u(1)] read_u_escape [OF u(2)]
    by (simp add: surrogate_def escape_rune_def e)
qed

theorem read_string_escape:
  "read_string (escape s @ CHR 0x22 # rest) = Some (sanitize s, rest)"
proof (induction s rule: escape.induct)
  case (1 s)
  show ?case
  proof (cases s)
    case Nil
    then show ?thesis by (simp add: escape.simps) (simp add: read_string.simps)
  next
    case (Cons c cs)
    show ?thesis
    proof (cases "ordc c < 128")
      case True
      with Cons 1(1) have "read_string (escape cs @ CHR 0x22 # rest) = Some (sanitize cs, rest)" by simp
      with Cons True show ?thesis
        by (simp add: escape.simps [of "c # cs"] sanitize_ascii read_escape_ascii)
    next
      case False
      show ?thesis
      proof (cases "rune_size s")
        case None
        with Cons False 1(2) have IH: "read_string (escape cs @ CHR 0x22 # rest) = Some (sanitize cs, rest)" by simp
        have "getu4 (''fffd'' @ r) = Some (65533, r)" for r by (simp add: getu4_def hex_val_def)
        then have "read_string (CHR 0x5C # ''ufffd'' @ escape cs @ CHR 0x22 # rest)
                     = map_option (apfst ((@) RuneError)) (read_string (escape cs @ CHR 0x22 # rest))"
          using read_u_escape [of "''fffd'' @ escape cs @ CHR 0x22 # rest" 65533] by (simp add: surrogate_def RuneError_def)
        with None Cons False IH show ?thesis by (simp add: escape.simps [of "c # cs"] sanitize.simps [of "c # cs"])
      next
        case (Some n)
        let ?r = "escape (drop n s) @ CHR 0x22 # rest"
        from Some Cons False 1(3) have IH: "read_string ?r = Some (sanitize (drop n s), rest)" by simp
        have "read_string (escape_rune (take n s) @ ?r) = map_option (apfst ((@) (take n s))) (read_string ?r)"
          using Some Cons False by (rule read_escape_rune)
        with Some Cons False IH show ?thesis
          by (simp add: escape.simps [of "c # cs"] sanitize.simps [of "c # cs"])
      qed
    qed
  qed
qed

text \<open>A written string has no control characters.\<close>

lemma rune_bytes:
  assumes "rune_size (c # cs) = Some n" "\<not> ordc c < 128" "b \<in> set (take n (c # cs))"
  shows "128 \<le> ordc b"
proof -
  obtain k lo hi where l: "lead (ordc c) = (k, lo, hi)" by (cases "lead (ordc c)") auto
  with assms(1,2) have k: "0 < k" "n = Suc k" "k \<le> length cs" "lo \<le> ordc (hd cs)"
    and t: "list_all (\<lambda>b. tail_byte (ordc b)) (take (k - 1) (tl cs))"
    by (auto simp: rune_size_def split: if_splits)
  have "128 \<le> lo" using l k(1) by (auto simp: lead_def split: if_splits)
  moreover obtain d ds where "cs = d # ds" using k(1,3) by (cases cs) auto
  ultimately show ?thesis
    using assms(2,3) k t by (cases k) (auto simp: list_all_iff tail_byte_def)
qed

lemma escape_ascii_printable:
  assumes "ordc c < 128" "b \<in> set (escape_ascii c)"
  shows "32 \<le> ordc b"
proof -
  have "32 \<le> ordc (hex_char n)" if "n < 16" for n using that by (simp add: hex_char_def)
  moreover have "ordc c div 16 < 16" using assms(1) by (intro less_mult_imp_div_less) simp
  ultimately show ?thesis using assms(2) by (cases c rule: escape_ascii_cases) auto
qed

lemma escape_printable: "b \<in> set (escape s) \<Longrightarrow> 32 \<le> ordc b"
proof (induction s rule: escape.induct)
  case (1 s)
  show ?case
  proof (cases s)
    case Nil
    with 1 show ?thesis by (simp add: escape.simps)
  next
    case (Cons c cs)
    show ?thesis
    proof (cases "ordc c < 128")
      case True
      with 1 Cons show ?thesis by (auto simp: escape.simps [of "c # cs"] dest: escape_ascii_printable)
    next
      case False
      show ?thesis
      proof (cases "rune_size s")
        case None
        with 1 Cons False show ?thesis by (auto simp: escape.simps [of "c # cs"])
      next
        case (Some n)
        have "b \<in> set (escape_rune (take n s)) \<Longrightarrow> 32 \<le> ordc b"
          using rune_bytes [of c cs n b] Some Cons False by (auto simp: escape_rune_def split: if_splits)
        with 1 Cons False Some show ?thesis by (auto simp: escape.simps [of "c # cs"])
      qed
    qed
  qed
qed

text \<open>Whatever is read as a string is UTF-8.\<close>

lemma rune_size_encode: "rune_size (encode_rune r) = Some (length (encode_rune r))"
proof -
  have "x mod 64 \<le> 63" for x :: nat using mod_less_divisor [of 64 x] by linarith
  then have m: "r mod 64 \<le> 63" "r div 64 mod 64 \<le> 63" "r div 4096 mod 64 \<le> 63" by blast+
  consider (one) "r < 128" | (two) "128 \<le> r" "r < 2048"
    | (bad) "2048 \<le> r" "55296 \<le> r \<and> r \<le> 57343 \<or> r > 1114111"
    | (three) "2048 \<le> r" "r < 65536" "r < 55296 \<or> 57343 < r"
    | (four) "65536 \<le> r" "r \<le> 1114111" by linarith
  then show ?thesis
  proof cases
    case one
    then show ?thesis by (simp add: encode_rune_def rune_size_def)
  next
    case two
    then have "2 \<le> r div 64" "r div 64 \<le> 31" by simp_all
    with two m show ?thesis by (simp add: encode_rune_def rune_size_def lead_def)
  next
    case bad
    then show ?thesis by (auto simp: encode_rune_def rune_size_def lead_def tail_byte_def)
  next
    case three
    let ?a = "r div 4096" and ?b = "r div 64 mod 64"
    have "?a = r div 64 div 64" using div_mult2_eq [of r 64 64] by simp
    then have r: "r div 64 = 64 * ?a + ?b" by simp
    have "?a \<le> 15" using three by simp
    moreover have "?a = 0 \<Longrightarrow> 32 \<le> ?b" using r three by simp
    moreover have "?a = 0 \<Longrightarrow> r div 64 \<le> 63" using r m(2) by linarith
    moreover have "?a = 13 \<Longrightarrow> ?b \<le> 31" using r three by linarith
    ultimately show ?thesis using three m
      by (simp add: encode_rune_def rune_size_def lead_def tail_byte_def)
  next
    case four
    let ?a = "r div 262144" and ?b = "r div 4096 mod 64"
    have "?a = r div 4096 div 64" using div_mult2_eq [of r 4096 64] by simp
    then have r: "r div 4096 = 64 * ?a + ?b" by simp
    have "16 \<le> r div 4096" "r div 4096 \<le> 271" using four by simp_all
    with r m(3) have "?a \<le> 4" "?a = 0 \<Longrightarrow> 16 \<le> r div 4096 \<and> r div 4096 \<le> 63" "?a = 4 \<Longrightarrow> ?b \<le> 15 \<and> \<not> r div 4096 \<le> 63"
      "?a \<noteq> 0 \<Longrightarrow> \<not> r div 4096 \<le> 63"
      by linarith+
    with four m show ?thesis
      by (cases "?a = 0"; cases "?a = 4") (simp_all add: encode_rune_def rune_size_def lead_def tail_byte_def)
  qed
qed

text \<open>A successful \<^const>\<open>read_string\<close> ends at the quote or reads one rune and goes on behind it.\<close>

lemma unescape_ascii: "unescape e = Some x \<Longrightarrow> rune_size [x] = Some 1"
  by (auto simp: unescape_def rune_size_def split: if_splits)

lemma read_string_inv:
  assumes "read_string s = Some (x, r)"
  shows "x = [] \<and> length r < length s
    \<or> (\<exists>p y t. x = p @ y \<and> rune_size p = Some (length p) \<and> read_string t = Some (y, r) \<and> length t < length s)"
proof -
  obtain c cs where s: "s = c # cs" using assms by (cases s) (auto simp: read_string.simps [of "[]"])
  have go: ?thesis if "map_option (apfst ((@) p)) (read_string t) = Some (x, r)" "rune_size p = Some (length p)" "length t < length s" for p t
    using that by (cases "read_string t") auto
  have go1: ?thesis if "map_option (apfst ((#) b)) (read_string t) = Some (x, r)" "rune_size [b] = Some 1" "length t < length s" for b t
  proof -
    have "(#) b = (@) [b]" by (simp add: fun_eq_iff)
    with that go [of "[b]" t] show ?thesis by simp
  qed
  note eq = assms [unfolded s read_string.simps [of "c # cs"] list.case]
  consider "c = CHR 0x22" | "c = CHR 0x5C" | (plain) "c \<noteq> CHR 0x22" "c \<noteq> CHR 0x5C" "ordc c < 128"
    | (rune) "c \<noteq> CHR 0x22" "c \<noteq> CHR 0x5C" "\<not> ordc c < 128" by blast
  then show ?thesis
  proof cases
    case 1
    with eq s show ?thesis by simp
  next
    case 2
    with eq obtain e es where cs: "cs = e # es" by (cases cs) auto
    show ?thesis
    proof (cases "e = CHR ''u''")
      case True
      with eq 2 cs obtain u r1 where u: "getu4 es = Some (u, r1)" by (auto split: option.splits)
      note len = getu4_length [OF u]
      show ?thesis
      proof (cases "low_surrogate u r1")
        case None
        with eq 2 cs True u len s go [of "RuneError" r1] go [of "encode_rune u" r1] show ?thesis
          by (auto simp: rune_size_RuneError rune_size_encode split: if_splits)
      next
        case (Some vr)
        then obtain v r2 where v: "low_surrogate u r1 = Some (v, r2)" by (cases vr) auto
        with eq 2 cs True u len s low_surrogate_length [OF v] go [of "encode_rune v" r2] go [of "encode_rune u" r1]
        show ?thesis by (auto simp: rune_size_encode split: if_splits)
      qed
    next
      case False
      with eq 2 cs s go1 [of _ es] show ?thesis by (auto dest: unescape_ascii split: option.splits)
    qed
  next
    case plain
    with eq s go1 [of c cs] show ?thesis by (auto simp: rune_size_def split: if_splits)
  next
    case rune
    show ?thesis
    proof (cases "rune_size s")
      case None
      with eq rune s go [of RuneError cs] show ?thesis by (auto simp: rune_size_RuneError split: if_splits)
    next
      case (Some n)
      have "rune_size (take n s) = Some (length (take n s))"
        using rune_size_take [OF Some, of "[]"] rune_size_bounds [OF Some] by simp
      moreover have "length (drop n s) < length s" using rune_size_bounds [OF Some] s by simp
      moreover note eq
      ultimately show ?thesis
        using rune s Some go [of "take n s" "drop n s"] by (auto split: if_splits)
    qed
  qed
qed

lemma read_string_facts: "read_string s = Some (x, r) \<Longrightarrow> length r < length s \<and> valid_utf8 x"
proof (induction s arbitrary: x rule: length_induct)
  case (1 s)
  from read_string_inv [OF 1(2)] show ?case
  proof (elim disjE exE conjE)
    fix p y t
    assume p: "x = p @ y" "rune_size p = Some (length p)" "read_string t = Some (y, r)" "length t < length s"
    with 1(1) have "length r < length t \<and> valid_utf8 y" by blast
    with p valid_utf8_rune [OF p(2), of y] show ?thesis by simp
  qed simp
qed

section \<open>Numbers\<close>

text \<open>The states of the scanner from \<open>stateNeg\<close> to \<open>stateE0\<close>: the number at the front and what follows it.\<close>

definition digits_at :: "string \<Rightarrow> (string \<times> string) option" where
  "digits_at s = (if s \<noteq> [] \<and> is_digit (hd s) then Some (takeWhile is_digit s, dropWhile is_digit s) else None)"

definition scan_sign :: "string \<Rightarrow> string \<times> string" where
  "scan_sign s = (if s \<noteq> [] \<and> hd s = CHR ''-'' then ([CHR ''-''], tl s) else ([], s))"

definition scan_int :: "string \<Rightarrow> (string \<times> string) option" where
  "scan_int s = (if s \<noteq> [] \<and> hd s = CHR ''0'' then Some (''0'', tl s) else digits_at s)"

definition scan_frac :: "string \<Rightarrow> (string \<times> string) option" where
  "scan_frac s = (if s \<noteq> [] \<and> hd s = CHR ''.'' then map_option (apfst ((#) CHR ''.'')) (digits_at (tl s)) else Some ([], s))"

definition scan_exp :: "string \<Rightarrow> (string \<times> string) option" where
  "scan_exp s =
     (if s \<noteq> [] \<and> hd s \<in> {CHR ''e'', CHR ''E''}
      then (if tl s \<noteq> [] \<and> hd (tl s) \<in> {CHR ''+'', CHR ''-''}
            then map_option (apfst (\<lambda>d. hd s # hd (tl s) # d)) (digits_at (tl (tl s)))
            else map_option (apfst ((#) (hd s))) (digits_at (tl s)))
      else Some ([], s))"

definition scan_number :: "string \<Rightarrow> (string \<times> string) option" where
  "scan_number s =
     (case scan_sign s of (n, r0) \<Rightarrow>
      Option.bind (scan_int r0) (\<lambda>(i, r1).
      Option.bind (scan_frac r1) (\<lambda>(f, r2).
      map_option (\<lambda>(e, r3). (n @ i @ f @ e, r3)) (scan_exp r2))))"

definition number_text :: "string \<Rightarrow> bool" where
  "number_text t \<longleftrightarrow> scan_number t = Some (t, [])"

text \<open>A text that cannot go on with a number.\<close>

definition ends_number :: "string \<Rightarrow> bool" where
  "ends_number r \<longleftrightarrow> r = [] \<or> \<not> is_digit (hd r) \<and> hd r \<notin> set ''.eE''"

lemma takeWhile_all: "\<forall>x \<in> set s. P x \<Longrightarrow> takeWhile P s = s"
  by (simp add: takeWhile_eq_all_conv)

lemma digits_at_append:
  "digits_at s = Some (d, r) \<Longrightarrow> ends_number t \<Longrightarrow> digits_at (s @ t) = Some (d, r @ t)"
  by (cases t)
     (auto simp: digits_at_def ends_number_def takeWhile_append dropWhile_append takeWhile_all split: if_splits)

lemma digits_at_Nil [simp]: "digits_at [] = None"
  by (simp add: digits_at_def)

lemma digits_map_append:
  assumes "map_option (apfst f) (digits_at s) = Some (d, r)" "ends_number t"
  shows "map_option (apfst f) (digits_at (s @ t)) = Some (d, r @ t)"
proof -
  from assms(1) obtain d' where "digits_at s = Some (d', r)" "d = f d'" by (auto simp: apfst_def map_prod_def split: prod.splits)
  with digits_at_append [OF this(1) assms(2)] show ?thesis by simp
qed

lemma scan_int_append:
  "scan_int s = Some (d, r) \<Longrightarrow> ends_number t \<Longrightarrow> scan_int (s @ t) = Some (d, r @ t)"
  by (cases s) (simp_all add: scan_int_def digits_at_append [of "_ # _", simplified] split: if_splits)

lemma scan_frac_append:
  assumes "scan_frac s = Some (d, r)" "ends_number t"
  shows "scan_frac (s @ t) = Some (d, r @ t)"
proof (cases s)
  case Nil
  with assms show ?thesis by (auto simp: scan_frac_def ends_number_def)
next
  case (Cons c cs)
  with assms show ?thesis
    using digits_map_append [OF _ assms(2), of "(#) CHR ''.''" cs] by (cases "c = CHR ''.''") (auto simp: scan_frac_def)
qed

lemma scan_exp_append:
  assumes "scan_exp s = Some (d, r)" "ends_number t"
  shows "scan_exp (s @ t) = Some (d, r @ t)"
proof (cases s)
  case Nil
  with assms show ?thesis by (auto simp: scan_exp_def ends_number_def)
next
  case s: (Cons c cs)
  show ?thesis
  proof (cases cs)
    case Nil
    with s assms show ?thesis by (simp add: scan_exp_def split: if_splits)
  next
    case (Cons c' cs')
    with s assms(1) digits_map_append [OF _ assms(2), of "(#) c" cs]
      digits_map_append [OF _ assms(2), of "\<lambda>d. c # c' # d" cs'] show ?thesis
      by (cases "c \<in> {CHR ''e'', CHR ''E''}"; cases "c' \<in> {CHR ''+'', CHR ''-''}") (auto simp: scan_exp_def)
  qed
qed

lemma scan_sign_append: "s \<noteq> [] \<Longrightarrow> scan_sign (s @ t) = apsnd (\<lambda>r. r @ t) (scan_sign s)"
  by (simp add: scan_sign_def)

lemma scan_number_append:
  assumes "scan_number s = Some (d, r)" "ends_number t"
  shows "scan_number (s @ t) = Some (d, r @ t)"
proof -
  obtain n r0 where 0: "scan_sign s = (n, r0)" by (cases "scan_sign s")
  with assms(1) obtain i r1 f r2 e where
    "scan_int r0 = Some (i, r1)" "scan_frac r1 = Some (f, r2)" "scan_exp r2 = Some (e, r)" "d = n @ i @ f @ e"
    by (auto simp: scan_number_def bind_eq_Some_conv)
  moreover from this 0 have "s \<noteq> []" by (auto simp: scan_sign_def scan_int_def)
  ultimately show ?thesis using 0 assms(2)
    by (simp add: scan_number_def scan_sign_append scan_int_append scan_frac_append scan_exp_append)
qed

lemma digits_at_length: "digits_at s = Some (d, r) \<Longrightarrow> length r < length s"
  by (cases s) (auto simp: digits_at_def intro: le_imp_less_Suc length_dropWhile_le split: if_splits)

lemma scan_parts_length:
  "scan_int s = Some (d, r) \<Longrightarrow> length r < length s"
  "scan_frac s = Some (d, r) \<Longrightarrow> length r \<le> length s"
  "scan_exp s = Some (d, r) \<Longrightarrow> length r \<le> length s"
  by (cases s; cases "tl s"; force simp: scan_int_def scan_frac_def scan_exp_def split: if_splits dest!: digits_at_length)+

lemma scan_number_length: "scan_number s = Some (d, r) \<Longrightarrow> length r < length s"
  by (fastforce simp: scan_number_def scan_sign_def bind_eq_Some_conv split: if_splits dest!: scan_parts_length)

lemma scan_number_chars:
  assumes "scan_number s = Some (t, r)" "b \<in> set t"
  shows "32 \<le> ordc b"
proof -
  have d: "digits_at x = Some (y, z) \<Longrightarrow> b \<in> set y \<Longrightarrow> 32 \<le> ordc b" for x y z
    by (auto simp: digits_at_def is_digit_def split: if_splits dest!: set_takeWhileD)
  have "scan_int x = Some (y, z) \<Longrightarrow> b \<in> set y \<Longrightarrow> 32 \<le> ordc b"
    "scan_frac x = Some (y, z) \<Longrightarrow> b \<in> set y \<Longrightarrow> 32 \<le> ordc b"
    "scan_exp x = Some (y, z) \<Longrightarrow> b \<in> set y \<Longrightarrow> 32 \<le> ordc b" for x y z
    by (auto simp: scan_int_def scan_frac_def scan_exp_def split: if_splits dest: d)
  with assms show ?thesis
    by (auto simp: scan_number_def scan_sign_def bind_eq_Some_conv split: if_splits)
qed

end
