(* ===== verification/Json_Document.thy ===== *)
theory Json_Document
  imports Json_Text
begin

text \<open>
  Whole JSON documents as \<open>encoding/json\<close> writes and reads them: the compact text of a value, and the
  scanner as the machine it is in Go, a mode (its step function) and a stack of open containers
  (\<open>parseState\<close>) driven by the tokens of the text, with the limit of 10000 nested values. A document that
  is written reads back to itself up to the replacement of invalid UTF-8.
\<close>

section \<open>JSON values\<close>

datatype json =
    JNull
  | JBool bool
  | JNum string
  | JStr string
  | JArr "json list"
  | JObj "(string \<times> json) list"

section \<open>Writing\<close>

fun json_print :: "json \<Rightarrow> string"
  and print_elems :: "json list \<Rightarrow> string"
  and print_members :: "(string \<times> json) list \<Rightarrow> string" where
  "json_print JNull = ''null''"
| "json_print (JBool b) = (if b then ''true'' else ''false'')"
| "json_print (JNum t) = t"
| "json_print (JStr s) = string_text s"
| "json_print (JArr js) = CHR ''['' # print_elems js @ '']''"
| "json_print (JObj kvs) = CHR ''{'' # print_members kvs @ ''}''"
| "print_elems [] = []"
| "print_elems (j # js) = json_print j @ (if js = [] then [] else CHR '','' # print_elems js)"
| "print_members [] = []"
| "print_members ((k, j) # kvs) =
     string_text k @ CHR '':'' # json_print j @ (if kvs = [] then [] else CHR '','' # print_members kvs)"

section \<open>Tokens\<close>

datatype token =
    Scalar json
  | Begin_array
  | End_array
  | Begin_object
  | End_object
  | Colon
  | Comma

definition json_space :: "char \<Rightarrow> bool" where
  "json_space c \<longleftrightarrow> c \<in> {CHR '' '', CHR 0x09, CHR 0x0D, CHR 0x0A}"

definition punctuation :: "char \<Rightarrow> token option" where
  "punctuation c = map_of
     [(CHR ''['', Begin_array), (CHR '']'', End_array), (CHR ''{'', Begin_object), (CHR ''}'', End_object),
      (CHR '':'', Colon), (CHR '','', Comma)] c"

definition token_at :: "string \<Rightarrow> (token \<times> string) option" where
  "token_at s =
     (case s of
        [] \<Rightarrow> None
      | c # cs \<Rightarrow>
        (case punctuation c of
           Some t \<Rightarrow> Some (t, cs)
         | None \<Rightarrow>
           if c = CHR 0x22 then map_option (apfst (\<lambda>x. Scalar (JStr x))) (read_string cs)
           else if HasPrefix s ''null'' then Some (Scalar JNull, drop 4 s)
           else if HasPrefix s ''true'' then Some (Scalar (JBool True), drop 4 s)
           else if HasPrefix s ''false'' then Some (Scalar (JBool False), drop 5 s)
           else map_option (apfst (\<lambda>x. Scalar (JNum x))) (scan_number s)))"

definition next_token :: "string \<Rightarrow> (token \<times> string) option" where
  "next_token s = token_at (dropWhile json_space s)"

lemma next_token_length:
  assumes "next_token s = Some (t, r)"
  shows "length r < length s"
proof -
  let ?s = "dropWhile json_space s"
  have "length r < length ?s"
    using assms
    by (auto simp: next_token_def token_at_def split: list.splits option.splits if_splits
          dest: read_string_facts scan_number_length)
  then show ?thesis using length_dropWhile_le [of json_space s] by linarith
qed

section \<open>The scanner\<close>

text \<open>An open array with its elements, an open object with its members (both last first), and one that waits for the value of a key.\<close>

datatype frame =
    In_array "json list"
  | In_object "(string \<times> json) list"
  | In_member "(string \<times> json) list" string

datatype mode = Begin_value | Begin_value_or_empty | Begin_string | Begin_string_or_empty | After_key | After_value

definition max_depth :: nat where
  "max_depth = 10000"

type_synonym config = "mode \<times> frame list"

fun complete :: "frame list \<Rightarrow> json \<Rightarrow> (json + config) option" where
  "complete [] j = Some (Inl j)"
| "complete (In_array js # fs) j = Some (Inr (After_value, In_array (j # js) # fs))"
| "complete (In_member kvs k # fs) j = Some (Inr (After_value, In_object ((k, j) # kvs) # fs))"
| "complete (In_object kvs # fs) j = None"

definition push :: "frame \<Rightarrow> mode \<Rightarrow> frame list \<Rightarrow> (json + config) option" where
  "push f m fs = (if length fs < max_depth then Some (Inr (m, f # fs)) else None)"

fun begin_value :: "frame list \<Rightarrow> token \<Rightarrow> (json + config) option" where
  "begin_value fs (Scalar j) = complete fs j"
| "begin_value fs Begin_array = push (In_array []) Begin_value_or_empty fs"
| "begin_value fs Begin_object = push (In_object []) Begin_string_or_empty fs"
| "begin_value fs _ = None"

definition begin_string :: "frame list \<Rightarrow> token \<Rightarrow> (json + config) option" where
  "begin_string fs t =
     (case (fs, t) of (In_object kvs # fs', Scalar (JStr k)) \<Rightarrow> Some (Inr (After_key, In_member kvs k # fs')) | _ \<Rightarrow> None)"

definition end_container :: "frame list \<Rightarrow> token \<Rightarrow> (json + config) option" where
  "end_container fs t =
     (case (fs, t) of
        (In_array js # fs', End_array) \<Rightarrow> complete fs' (JArr (rev js))
      | (In_object kvs # fs', End_object) \<Rightarrow> complete fs' (JObj (rev kvs))
      | _ \<Rightarrow> None)"

definition after_value :: "frame list \<Rightarrow> token \<Rightarrow> (json + config) option" where
  "after_value fs t =
     (case (fs, t) of
        (In_array js # fs', Comma) \<Rightarrow> Some (Inr (Begin_value, fs))
      | (In_object kvs # fs', Comma) \<Rightarrow> Some (Inr (Begin_string, fs))
      | _ \<Rightarrow> end_container fs t)"

fun scan_step :: "mode \<Rightarrow> frame list \<Rightarrow> token \<Rightarrow> (json + config) option" where
  "scan_step Begin_value fs t = begin_value fs t"
| "scan_step Begin_value_or_empty fs t = (if t = End_array then end_container fs t else begin_value fs t)"
| "scan_step Begin_string fs t = begin_string fs t"
| "scan_step Begin_string_or_empty fs t = (if t = End_object then end_container fs t else begin_string fs t)"
| "scan_step After_key fs t = (if t = Colon then Some (Inr (Begin_value, fs)) else None)"
| "scan_step After_value fs t = after_value fs t"

function scan :: "mode \<Rightarrow> frame list \<Rightarrow> string \<Rightarrow> (json \<times> string) option" where
  "scan m fs s =
     (case next_token s of
        None \<Rightarrow> None
      | Some (t, r) \<Rightarrow>
        (case scan_step m fs t of
           None \<Rightarrow> None
         | Some (Inl j) \<Rightarrow> Some (j, r)
         | Some (Inr (m', fs')) \<Rightarrow> scan m' fs' r))"
  by pat_completeness auto
termination scan
  by (relation "measure (\<lambda>(m, fs, s). length s)") (auto dest: next_token_length)

declare scan.simps [simp del]

text \<open>
  \<open>json.Unmarshal\<close> reads a whole text; \<open>json.Decoder\<close> the first value, for which the end of the stream
  counts as a space. When the stream fails after the text instead, the decoder has the value only if its
  last byte closed a container or another byte follows it.
\<close>

definition json_read :: "string \<Rightarrow> json option" where
  "json_read s =
     (case scan Begin_value [] s of Some (j, r) \<Rightarrow> if list_all json_space r then Some j else None | None \<Rightarrow> None)"

definition json_read_first :: "string \<Rightarrow> json option" where
  "json_read_first s = map_option fst (scan Begin_value [] s)"

definition container :: "json \<Rightarrow> bool" where
  "container j = (case j of JArr _ \<Rightarrow> True | JObj _ \<Rightarrow> True | _ \<Rightarrow> False)"

definition json_read_broken :: "string \<Rightarrow> json option" where
  "json_read_broken s =
     (case scan Begin_value [] s of Some (j, r) \<Rightarrow> if container j \<or> r \<noteq> [] then Some j else None | None \<Rightarrow> None)"

section \<open>Reading what was written\<close>

primrec sanitize_json :: "json \<Rightarrow> json" where
  "sanitize_json JNull = JNull"
| "sanitize_json (JBool b) = JBool b"
| "sanitize_json (JNum t) = JNum t"
| "sanitize_json (JStr s) = JStr (sanitize s)"
| "sanitize_json (JArr js) = JArr (map sanitize_json js)"
| "sanitize_json (JObj kvs) = JObj (map (apfst sanitize) (map (map_prod id sanitize_json) kvs))"

lemma sanitize_object [simp]: "sanitize_json (JObj kvs) = JObj (map (map_prod sanitize sanitize_json) kvs)"
  by auto

declare sanitize_json.simps(6) [simp del]

text \<open>Number literals are numbers, and at most so many values are nested.\<close>

fun well_formed :: "nat \<Rightarrow> json \<Rightarrow> bool" where
  "well_formed n (JNum t) = number_text t"
| "well_formed n (JArr js) = (case n of 0 \<Rightarrow> False | Suc n' \<Rightarrow> list_all (well_formed n') js)"
| "well_formed n (JObj kvs) = (case n of 0 \<Rightarrow> False | Suc n' \<Rightarrow> list_all (\<lambda>kv. well_formed n' (snd kv)) kvs)"
| "well_formed n _ = True"


definition resume_scan :: "(json + config) option \<Rightarrow> string \<Rightarrow> (json \<times> string) option" where
  "resume_scan x r =
     (case x of None \<Rightarrow> None | Some (Inl j) \<Rightarrow> Some (j, r) | Some (Inr (m, fs)) \<Rightarrow> scan m fs r)"

lemma resume_scan_simps [simp]:
  "resume_scan None r = None" "resume_scan (Some (Inl j)) r = Some (j, r)" "resume_scan (Some (Inr (m, fs))) r = scan m fs r"
  by (simp_all add: resume_scan_def)

lemma scan_token: "next_token s = Some (t, r) \<Longrightarrow> scan m fs s = resume_scan (scan_step m fs t) r"
  by (subst scan.simps) (simp add: resume_scan_def)

lemma next_token_punctuation [simp]:
  "next_token (CHR ''['' # r) = Some (Begin_array, r)" "next_token (CHR '']'' # r) = Some (End_array, r)"
  "next_token (CHR ''{'' # r) = Some (Begin_object, r)" "next_token (CHR ''}'' # r) = Some (End_object, r)"
  "next_token (CHR '':'' # r) = Some (Colon, r)" "next_token (CHR '','' # r) = Some (Comma, r)"
  by (simp_all add: next_token_def token_at_def json_space_def punctuation_def)

lemma next_token_literal [simp]:
  "next_token (''null'' @ r) = Some (Scalar JNull, r)"
  "next_token ((if b then ''true'' else ''false'') @ r) = Some (Scalar (JBool b), r)"
  by (simp_all add: next_token_def token_at_def json_space_def punctuation_def HasPrefix_def)

lemma next_token_string [simp]: "next_token (string_text x @ r) = Some (Scalar (JStr (sanitize x)), r)"
  using read_string_escape [of x r]
  by (simp add: string_text_def next_token_def token_at_def json_space_def punctuation_def)

lemma number_text_start:
  assumes "number_text t"
  obtains c cs where "t = c # cs" "c = CHR ''-'' \<or> is_digit c"
proof -
  obtain n r where s: "scan_sign t = (n, r)" by (cases "scan_sign t")
  with assms have "scan_int r \<noteq> None" by (cases "scan_int r") (auto simp: number_text_def scan_number_def)
  with s have "t \<noteq> []" "hd t = CHR ''-'' \<or> is_digit (hd t)"
    by (auto simp: scan_sign_def scan_int_def digits_at_def is_digit_def split: if_splits)
  with that show ?thesis by (cases t) auto
qed

lemma next_token_number:
  assumes "number_text t" "ends_number r"
  shows "next_token (t @ r) = Some (Scalar (JNum t), r)"
proof -
  obtain c cs where t: "t = c # cs" "c = CHR ''-'' \<or> is_digit c" using assms(1) by (rule number_text_start)
  have "punctuation c = None" "\<not> json_space c" "c \<noteq> CHR 0x22" "c \<noteq> CHR ''n''" "c \<noteq> CHR ''t''" "c \<noteq> CHR ''f''"
    using t(2) by (auto simp: punctuation_def json_space_def is_digit_def)
  moreover have "scan_number (t @ r) = Some (t, r)"
    using scan_number_append [OF _ assms(2), of t t "[]"] assms(1) by (simp add: number_text_def)
  ultimately show ?thesis using t(1) by (simp add: next_token_def token_at_def HasPrefix_def)
qed

lemma ends_number_punctuation [simp]:
  "ends_number (CHR '']'' # r)" "ends_number (CHR ''}'' # r)" "ends_number (CHR '','' # r)"
  by (simp_all add: ends_number_def is_digit_def)

definition value_mode :: "mode \<Rightarrow> bool" where
  "value_mode m \<longleftrightarrow> m = Begin_value \<or> m = Begin_value_or_empty"

definition key_mode :: "mode \<Rightarrow> bool" where
  "key_mode m \<longleftrightarrow> m = Begin_string \<or> m = Begin_string_or_empty"

lemma mode_simps [simp]:
  "value_mode Begin_value" "value_mode Begin_value_or_empty" "key_mode Begin_string" "key_mode Begin_string_or_empty"
  by (simp_all add: value_mode_def key_mode_def)

lemma step_value: "value_mode m \<Longrightarrow> t \<noteq> End_array \<Longrightarrow> scan_step m fs t = begin_value fs t"
  by (auto simp: value_mode_def)

lemma step_key: "key_mode m \<Longrightarrow> t \<noteq> End_object \<Longrightarrow> scan_step m fs t = begin_string fs t"
  by (auto simp: key_mode_def)

lemma scan_printed:
  fixes j :: json and js :: "json list" and kvs :: "(string \<times> json) list"
  shows "well_formed n j \<Longrightarrow> length fs + n \<le> max_depth \<Longrightarrow> ends_number r \<Longrightarrow> value_mode m \<Longrightarrow>
      scan m fs (json_print j @ r) = resume_scan (complete fs (sanitize_json j)) r"
    and "list_all (well_formed n) js \<Longrightarrow> length fs + n < max_depth \<Longrightarrow> js \<noteq> [] \<Longrightarrow> value_mode m \<Longrightarrow>
      scan m (In_array acc # fs) (print_elems js @ CHR '']'' # r)
        = resume_scan (complete fs (JArr (rev acc @ map sanitize_json js))) r"
    and "list_all (\<lambda>kv. well_formed n (snd kv)) kvs \<Longrightarrow> length fs + n < max_depth \<Longrightarrow> kvs \<noteq> [] \<Longrightarrow> key_mode m \<Longrightarrow>
      scan m (In_object ms # fs) (print_members kvs @ CHR ''}'' # r)
        = resume_scan (complete fs (JObj (rev ms @ map (map_prod sanitize sanitize_json) kvs))) r"
proof (induction j and js and kvs arbitrary: n fs r m and n fs r m acc and n fs r m ms
       rule: json_print_print_elems_print_members.induct)
  case 1
  then show ?case using scan_token [OF next_token_literal(1)] by (simp add: step_value)
next
  case (2 b)
  then show ?case using scan_token [OF next_token_literal(2)] by (simp add: step_value)
next
  case (3 t)
  then show ?case using scan_token [OF next_token_number] by (simp add: step_value)
next
  case (4 s)
  then show ?case using scan_token [OF next_token_string] by (simp add: step_value)
next
  case (5 js)
  then obtain n' where n: "n = Suc n'" "list_all (well_formed n') js" by (cases n) auto
  have "scan m fs (json_print (JArr js) @ r) = scan Begin_value_or_empty (In_array [] # fs) (print_elems js @ CHR '']'' # r)"
    using 5 n by (simp add: scan_token step_value push_def)
  also have "\<dots> = resume_scan (complete fs (JArr (map sanitize_json js))) r"
  proof (cases "js = []")
    case True
    then show ?thesis by (simp add: scan_token end_container_def)
  next
    case False
    with 5 n show ?thesis by simp
  qed
  finally show ?case by simp
next
  case (6 kvs)
  then obtain n' where n: "n = Suc n'" "list_all (\<lambda>kv. well_formed n' (snd kv)) kvs" by (cases n) auto
  have "scan m fs (json_print (JObj kvs) @ r) = scan Begin_string_or_empty (In_object [] # fs) (print_members kvs @ CHR ''}'' # r)"
    using 6 n by (simp add: scan_token step_value push_def)
  also have "\<dots> = resume_scan (complete fs (sanitize_json (JObj kvs))) r"
  proof (cases "kvs = []")
    case True
    then show ?thesis by (simp add: scan_token end_container_def)
  next
    case False
    with 6 n show ?thesis by simp
  qed
  finally show ?case .
next
  case 7
  then show ?case by simp
next
  case (8 j js)
  let ?r = "(if js = [] then [] else CHR '','' # print_elems js) @ CHR '']'' # r"
  have "scan m (In_array acc # fs) (json_print j @ ?r) = scan After_value (In_array (sanitize_json j # acc) # fs) ?r"
    using 8 by (subst "8.IH"(1) [of n]) auto
  also have "\<dots> = resume_scan (complete fs (JArr (rev acc @ map sanitize_json (j # js)))) r"
  proof (cases "js = []")
    case True
    then show ?thesis by (simp add: scan_token after_value_def end_container_def)
  next
    case False
    with 8 show ?thesis by (simp add: scan_token after_value_def "8.IH"(2) [of n])
  qed
  finally show ?case by simp
next
  case 9
  then show ?case by simp
next
  case (10 k j kvs)
  let ?r = "(if kvs = [] then [] else CHR '','' # print_members kvs) @ CHR ''}'' # r"
  have "scan m (In_object ms # fs) (string_text k @ CHR '':'' # json_print j @ ?r)
          = scan Begin_value (In_member ms (sanitize k) # fs) (json_print j @ ?r)"
    using 10 scan_token [OF next_token_string] by (simp add: step_key begin_string_def scan_token [of "CHR '':'' # _"])
  also have "\<dots> = scan After_value (In_object ((sanitize k, sanitize_json j) # ms) # fs) ?r"
    using 10 by (subst "10.IH"(1) [of n]) auto
  also have "\<dots> = resume_scan (complete fs
      (JObj (rev ms @ map (map_prod sanitize sanitize_json) ((k, j) # kvs)))) r"
  proof (cases "kvs = []")
    case True
    then show ?thesis by (simp add: scan_token after_value_def end_container_def)
  next
    case False
    with 10 show ?thesis by (simp add: scan_token after_value_def "10.IH"(2) [of n])
  qed
  finally show ?case by simp
qed


lemma scan_print:
  "well_formed max_depth j \<Longrightarrow> ends_number r \<Longrightarrow> scan Begin_value [] (json_print j @ r) = Some (sanitize_json j, r)"
  using scan_printed(1) [of max_depth j "[]" r Begin_value] by simp

lemma spaces_end_number: "list_all json_space r \<Longrightarrow> ends_number r"
  by (cases r) (auto simp: ends_number_def json_space_def is_digit_def)

theorem json_read_print:
  assumes "well_formed max_depth j"
  shows "list_all json_space r \<Longrightarrow> json_read (json_print j @ r) = Some (sanitize_json j)"
    and "ends_number r \<Longrightarrow> json_read_first (json_print j @ r) = Some (sanitize_json j)"
    and "ends_number r \<Longrightarrow> container j \<Longrightarrow> json_read_broken (json_print j @ r) = Some (sanitize_json j)"
  using scan_print [OF assms, of r] spaces_end_number [of r]
  by (auto simp: json_read_def json_read_first_def json_read_broken_def container_def split: json.splits)

text \<open>A document is written without control characters, in particular on one line.\<close>

lemma print_printable:
  fixes j :: json and js :: "json list" and kvs :: "(string \<times> json) list"
  shows "well_formed n j \<Longrightarrow> list_all (\<lambda>c. 32 \<le> ordc c) (json_print j)"
    and "list_all (well_formed n) js \<Longrightarrow> list_all (\<lambda>c. 32 \<le> ordc c) (print_elems js)"
    and "list_all (\<lambda>kv. well_formed n (snd kv)) kvs \<Longrightarrow> list_all (\<lambda>c. 32 \<le> ordc c) (print_members kvs)"
proof (induction j and js and kvs arbitrary: n and n and n rule: json_print_print_elems_print_members.induct)
  case (3 t)
  then show ?case by (auto simp: list_all_iff number_text_def dest: scan_number_chars)
next
  case (4 s)
  then show ?case by (auto simp: string_text_def list_all_iff dest: escape_printable)
next
  case (5 js)
  then show ?case by (cases n) auto
next
  case (6 kvs)
  then show ?case by (cases n) auto
next
  case (10 k j kvs)
  then show ?case by (auto simp: string_text_def list_all_iff dest: escape_printable)
qed auto

lemmas json_print_printable = print_printable(1)

text \<open>Documents without invalid UTF-8.\<close>

fun valid_json :: "json \<Rightarrow> bool" where
  "valid_json (JStr s) = valid_utf8 s"
| "valid_json (JArr js) = list_all valid_json js"
| "valid_json (JObj kvs) = list_all (\<lambda>kv. valid_utf8 (fst kv) \<and> valid_json (snd kv)) kvs"
| "valid_json _ = True"

lemma sanitize_valid_json: "valid_json j \<Longrightarrow> sanitize_json j = j"
proof (induction j rule: valid_json.induct)
  case (2 js)
  then show ?case by (simp add: list_all_iff map_idI)
next
  case (3 kvs)
  then show ?case by (auto simp: list_all_iff sanitize_valid intro!: map_idI)
qed (simp_all add: sanitize_valid)

text \<open>Every document that is read consists of UTF-8 strings.\<close>

fun valid_frame :: "frame \<Rightarrow> bool" where
  "valid_frame (In_array js) = list_all valid_json js"
| "valid_frame (In_object kvs) = valid_json (JObj kvs)"
| "valid_frame (In_member kvs k) = (valid_json (JObj kvs) \<and> valid_utf8 k)"

definition valid_outcome :: "(json + config) option \<Rightarrow> bool" where
  "valid_outcome x =
     (case x of None \<Rightarrow> True | Some (Inl j) \<Rightarrow> valid_json j | Some (Inr (m, fs)) \<Rightarrow> list_all valid_frame fs)"

lemma valid_outcome_simps [simp]:
  "valid_outcome None" "valid_outcome (Some (Inl j)) = valid_json j"
  "valid_outcome (Some (Inr (m, fs))) = list_all valid_frame fs"
  by (simp_all add: valid_outcome_def)

lemma next_token_valid: "next_token s = Some (Scalar j, r) \<Longrightarrow> valid_json j"
  by (auto simp: next_token_def token_at_def punctuation_def split: list.splits option.splits if_splits dest: read_string_facts)

lemma complete_valid: "list_all valid_frame fs \<Longrightarrow> valid_json j \<Longrightarrow> valid_outcome (complete fs j)"
  by (cases "(fs, j)" rule: complete.cases) auto

lemma end_container_valid: "list_all valid_frame fs \<Longrightarrow> valid_outcome (end_container fs t)"
  by (auto simp: end_container_def list_all_iff intro!: complete_valid split: list.split frame.split token.split)

lemma scan_step_valid:
  assumes "list_all valid_frame fs" "\<And>j. t = Scalar j \<Longrightarrow> valid_json j"
  shows "valid_outcome (scan_step m fs t)"
proof -
  have v: "valid_outcome (begin_value fs t)"
    using assms by (cases t) (auto simp: push_def complete_valid)
  have s: "valid_outcome (begin_string fs t)"
    using assms by (auto simp: begin_string_def split: list.split frame.split token.split json.split)
  have e: "valid_outcome (after_value fs t)"
    using assms(1) end_container_valid [OF assms(1), of t]
    by (auto simp: after_value_def split: list.split frame.split token.split)
  show ?thesis using v s e end_container_valid [OF assms(1), of t] assms(1) by (cases m) auto
qed

lemma scan_valid: "list_all valid_frame fs \<Longrightarrow> scan m fs s = Some (j, r) \<Longrightarrow> valid_json j"
proof (induction m fs s rule: scan.induct)
  case (1 m fs s)
  from 1(3) obtain t r1 where t: "next_token s = Some (t, r1)" by (subst (asm) scan.simps) (auto split: option.splits)
  then have eq: "resume_scan (scan_step m fs t) r1 = Some (j, r)" using 1(3) by (simp add: scan_token)
  have "valid_outcome (scan_step m fs t)"
    using 1(2) next_token_valid t by (intro scan_step_valid) auto
  with eq 1(1) [OF t refl] show ?case
    by (auto simp: resume_scan_def split: option.splits sum.splits)
qed

lemma json_read_valid:
  "json_read s = Some j \<Longrightarrow> valid_json j" "json_read_first s = Some j \<Longrightarrow> valid_json j"
  "json_read_broken s = Some j \<Longrightarrow> valid_json j"
  by (auto simp: json_read_def json_read_first_def json_read_broken_def split: option.splits if_splits dest!: scan_valid [rotated])

section \<open>The text of integers\<close>

lemma hd_format_nat_zero: "hd (format_nat n) = CHR ''0'' \<longleftrightarrow> n = 0"
proof (induction n rule: format_nat.induct)
  case (1 n)
  show ?case
  proof (cases "n < 10")
    case True
    then show ?thesis by (simp add: format_nat.simps [of n] digit_char_def char_of_eq_iff take_bit_eq_mod)
  next
    case False
    with 1 show ?thesis by (simp add: format_nat.simps [of n])
  qed
qed

lemma scan_int_format_nat: "scan_int (format_nat n) = Some (format_nat n, [])"
proof (cases "n = 0")
  case True
  then show ?thesis using hd_format_nat_zero [of 0] by (simp add: scan_int_def format_nat.simps [of 0])
next
  case False
  have "\<forall>c \<in> set (format_nat n). is_digit c" by (blast intro: format_nat_digits)
  then show ?thesis using False
    by (simp add: scan_int_def digits_at_def hd_format_nat_zero takeWhile_all dropWhile_eq_Nil_conv)
qed

lemma format_nat_number: "number_text (format_nat n)" "number_text (CHR ''-'' # format_nat n)"
  by (simp_all add: number_text_def scan_number_def scan_sign_def hd_format_nat scan_int_format_nat
        scan_frac_def scan_exp_def)

lemma FormatInt_number [simp]: "number_text (FormatInt w)"
  by (simp add: FormatInt_def format_nat_number)

end
