(* ===== verification/Metrics_Json.thy ===== *)
theory Metrics_Json
  imports Models Json_Document "HOL-Library.List_Lexorder" "HOL-Library.Char_ord"
begin

text \<open>
  How \<open>encoding/json\<close> maps the program's structs to JSON values and back, following the struct tags
  of \<open>models.Metrics\<close> and \<open>repository.snapshotRecord\<close>: field names, \<open>omitempty\<close>, nil pointers, the
  promoted fields of an embedded struct, \<open>null\<close>, unknown and repeated fields, type errors, and the
  refusal to encode a NaN or an infinity.

  The decimal form of floats and the hash functions are parameters, the fields of \<open>golib\<close>. Theorems that need
  something of them state it as a hypothesis; the documented fact used of floats is \<open>float_text_ok\<close> (\<open>strconv\<close>: a
  finite float printed with precision -1 is a number literal and parses back to itself).
\<close>

section \<open>Parameters\<close>

record golib =
  fmt_float :: "float64 \<Rightarrow> string"
  parse_float :: "string \<Rightarrow> float64 option"
  sha256_sum :: "bytes \<Rightarrow> bytes"
  hmac_sha256 :: "string \<Rightarrow> bytes \<Rightarrow> bytes"

definition float_text_ok :: "golib \<Rightarrow> bool" where
  "float_text_ok lib \<longleftrightarrow>
     (\<forall>v. f64_finite v \<longrightarrow> parse_float lib (fmt_float lib v) = Some v \<and> number_text (fmt_float lib v))"

fun traverse :: "('a \<Rightarrow> 'b option) \<Rightarrow> 'a list \<Rightarrow> 'b list option" where
  "traverse f [] = Some []"
| "traverse f (x # xs) =
     (case f x of None \<Rightarrow> None | Some y \<Rightarrow> (case traverse f xs of None \<Rightarrow> None | Some ys \<Rightarrow> Some (y # ys)))"

lemma traverse_None_iff: "(traverse f xs = None) = (\<exists>x \<in> set xs. f x = None)"
  by (induction xs) (auto split: option.splits)

lemma traverse_roundtrip:
  assumes "traverse f xs = Some ys" and "\<And>x y. x \<in> set xs \<Longrightarrow> f x = Some y \<Longrightarrow> g y = Some x"
  shows "traverse g ys = Some xs"
  using assms
proof (induction xs arbitrary: ys)
  case (Cons x xs)
  then obtain y ys' where y: "f x = Some y" "traverse f xs = Some ys'" "ys = y # ys'"
    by (auto split: option.splits)
  with Cons have "traverse g ys' = Some xs" "g y = Some x" by auto
  with y show ?case by simp
qed simp

lemma traverse_map: "traverse f (map h xs) = traverse (\<lambda>x. f (h x)) xs"
  by (induction xs) (auto split: option.splits)

lemma traverse_total: "(\<And>x. x \<in> set xs \<Longrightarrow> f x = Some (h x)) \<Longrightarrow> traverse f xs = Some (map h xs)"
  by (induction xs) auto

section \<open>Encoding\<close>

text \<open>\<open>json.Marshal\<close> refuses NaN and infinities; a nil pointer with \<open>omitempty\<close> is left out.\<close>

definition encodable :: "Metrics \<Rightarrow> bool" where
  "encodable m = (case Value m of None \<Rightarrow> True | Some v \<Rightarrow> f64_finite v)"

definition fields_of_Metrics :: "golib \<Rightarrow> Metrics \<Rightarrow> (string \<times> json) list" where
  "fields_of_Metrics lib m =
     [(''id'', JStr (ID m)), (''type'', JStr (MType m))]
     @ (case Delta m of None \<Rightarrow> [] | Some d \<Rightarrow> [(''delta'', JNum (FormatInt d))])
     @ (case Value m of None \<Rightarrow> [] | Some v \<Rightarrow> [(''value'', JNum (fmt_float lib v))])
     @ (if Hash m = [] then [] else [(''hash'', JStr (Hash m))])"

definition json_of_Metrics :: "golib \<Rightarrow> Metrics \<Rightarrow> json option" where
  "json_of_Metrics lib m = (if encodable m then Some (JObj (fields_of_Metrics lib m)) else None)"

definition json_of_batch :: "golib \<Rightarrow> Metrics list \<Rightarrow> json option" where
  "json_of_batch lib ms = map_option JArr (traverse (json_of_Metrics lib) ms)"

lemma json_of_batch_cong: "fmt_float lib = fmt_float lib' \<Longrightarrow> json_of_batch lib = json_of_batch lib'"
proof -
  assume "fmt_float lib = fmt_float lib'"
  then have "json_of_Metrics lib = json_of_Metrics lib'"
    by (auto simp: fun_eq_iff json_of_Metrics_def fields_of_Metrics_def split: option.split)
  then show ?thesis by (intro ext) (simp only: json_of_batch_def)
qed

section \<open>Decoding\<close>

text \<open>Field names match without regard to (ASCII) case; a later field overrides an earlier one.\<close>

definition lower_char :: "char \<Rightarrow> char" where
  "lower_char c = (if 65 \<le> (of_char c :: nat) \<and> (of_char c :: nat) \<le> 90 then char_of (of_char c + 32 :: nat) else c)"

definition fold_name :: "string \<Rightarrow> string" where
  "fold_name = map lower_char"

text \<open>A JSON value stored into a \<open>string\<close> field (\<open>null\<close> leaves it as it is) or a pointer field.\<close>

definition into_string :: "json \<Rightarrow> string \<Rightarrow> string option" where
  "into_string j old = (case j of JStr s \<Rightarrow> Some s | JNull \<Rightarrow> Some old | _ \<Rightarrow> None)"

definition into_ptr :: "(string \<Rightarrow> 'a option) \<Rightarrow> json \<Rightarrow> 'a option option" where
  "into_ptr parse j = (case j of JNull \<Rightarrow> Some None | JNum t \<Rightarrow> map_option Some (parse t) | _ \<Rightarrow> None)"

definition set_field :: "golib \<Rightarrow> string \<times> json \<Rightarrow> Metrics \<Rightarrow> Metrics option" where
  "set_field lib f m =
     (let k = fold_name (fst f); j = snd f in
      if k = ''id'' then map_option (\<lambda>s. m\<lparr>ID := s\<rparr>) (into_string j (ID m))
      else if k = ''type'' then map_option (\<lambda>s. m\<lparr>MType := s\<rparr>) (into_string j (MType m))
      else if k = ''delta'' then map_option (\<lambda>d. m\<lparr>Delta := d\<rparr>) (into_ptr ParseInt j)
      else if k = ''value'' then map_option (\<lambda>v. m\<lparr>Value := v\<rparr>) (into_ptr (parse_float lib) j)
      else if k = ''hash'' then map_option (\<lambda>s. m\<lparr>Hash := s\<rparr>) (into_string j (Hash m))
      else Some m)"

fun set_fields :: "golib \<Rightarrow> (string \<times> json) list \<Rightarrow> Metrics \<Rightarrow> Metrics option" where
  "set_fields lib [] m = Some m"
| "set_fields lib (f # fs) m = (case set_field lib f m of None \<Rightarrow> None | Some m' \<Rightarrow> set_fields lib fs m')"

definition zero_Metrics :: Metrics where
  "zero_Metrics = \<lparr>ID = [], MType = [], Delta = None, Value = None, Hash = []\<rparr>"

definition Metrics_of_json :: "golib \<Rightarrow> json \<Rightarrow> Metrics option" where
  "Metrics_of_json lib j =
     (case j of JObj fs \<Rightarrow> set_fields lib fs zero_Metrics | JNull \<Rightarrow> Some zero_Metrics | _ \<Rightarrow> None)"

definition batch_of_json :: "golib \<Rightarrow> json \<Rightarrow> Metrics list option" where
  "batch_of_json lib j =
     (case j of JArr js \<Rightarrow> traverse (Metrics_of_json lib) js | JNull \<Rightarrow> Some [] | _ \<Rightarrow> None)"

lemma set_fields_append:
  "set_fields lib (xs @ ys) m = (case set_fields lib xs m of None \<Rightarrow> None | Some m' \<Rightarrow> set_fields lib ys m')"
  by (induction xs arbitrary: m) (auto split: option.splits)

lemma fold_name_known [simp]:
  "fold_name ''id'' = ''id''" "fold_name ''type'' = ''type''" "fold_name ''delta'' = ''delta''"
  "fold_name ''value'' = ''value''" "fold_name ''hash'' = ''hash''"
  "fold_name ''_request_receipts'' = ''_request_receipts''"
  by (simp_all add: fold_name_def lower_char_def)

section \<open>Round trips\<close>

lemma set_fields_of_Metrics:
  assumes "float_text_ok lib" and "encodable m"
  shows "set_fields lib (fields_of_Metrics lib m) zero_Metrics = Some m"
  using assms
  by (cases m)
     (auto simp: fields_of_Metrics_def set_field_def into_string_def into_ptr_def zero_Metrics_def
        float_text_ok_def encodable_def split: option.splits)

lemma Metrics_json_roundtrip:
  "float_text_ok lib \<Longrightarrow> json_of_Metrics lib m = Some j \<Longrightarrow> Metrics_of_json lib j = Some m"
  by (auto simp: json_of_Metrics_def Metrics_of_json_def set_fields_of_Metrics split: if_splits)

lemma batch_roundtrip:
  assumes "float_text_ok lib" and "json_of_batch lib ms = Some j"
  shows "batch_of_json lib j = Some ms"
  using assms traverse_roundtrip [OF _ Metrics_json_roundtrip [OF assms(1)]]
  by (auto simp: json_of_batch_def batch_of_json_def)

lemma json_of_batch_None_iff: "json_of_batch lib ms = None \<longleftrightarrow> (\<exists>m \<in> set ms. \<not> encodable m)"
  by (auto simp: json_of_batch_def traverse_None_iff json_of_Metrics_def)

section \<open>Round trips through text\<close>

text \<open>The text of a batch keeps everything but invalid UTF-8 in its strings.\<close>

definition sanitize_metric :: "Metrics \<Rightarrow> Metrics" where
  "sanitize_metric m = m\<lparr>ID := sanitize (ID m), MType := sanitize (MType m), Hash := sanitize (Hash m)\<rparr>"

definition utf8_metric :: "Metrics \<Rightarrow> bool" where
  "utf8_metric m \<longleftrightarrow> valid_utf8 (ID m) \<and> valid_utf8 (MType m) \<and> valid_utf8 (Hash m)"

lemma sanitize_utf8_metric: "utf8_metric m \<Longrightarrow> sanitize_metric m = m"
  by (simp add: utf8_metric_def sanitize_metric_def sanitize_valid)

lemma sanitize_utf8_batch: "list_all utf8_metric ms \<Longrightarrow> map sanitize_metric ms = ms"
  by (auto simp: list_all_iff sanitize_utf8_metric intro: map_idI)

lemma sanitize_known [simp]:
  "sanitize ''id'' = ''id''" "sanitize ''type'' = ''type''" "sanitize ''delta'' = ''delta''"
  "sanitize ''value'' = ''value''" "sanitize ''hash'' = ''hash''"
  "sanitize ''_request_receipts'' = ''_request_receipts''"
  by (simp_all add: sanitize_ascii)

lemma fields_sanitized:
  "map (map_prod sanitize sanitize_json) (fields_of_Metrics lib m) = fields_of_Metrics lib (sanitize_metric m)"
  by (auto simp: fields_of_Metrics_def sanitize_metric_def split: option.splits)

lemma Metrics_sanitized:
  "json_of_Metrics lib m = Some j \<Longrightarrow> json_of_Metrics lib (sanitize_metric m) = Some (sanitize_json j)"
  by (auto simp: json_of_Metrics_def fields_sanitized split: if_splits) (auto simp: encodable_def sanitize_metric_def)

lemma traverse_natural:
  assumes "traverse f xs = Some ys" and "\<And>x y. x \<in> set xs \<Longrightarrow> f x = Some y \<Longrightarrow> g (h x) = Some (k y)"
  shows "traverse g (map h xs) = Some (map k ys)"
  using assms
proof (induction xs arbitrary: ys)
  case (Cons x xs)
  then obtain y ys' where y: "f x = Some y" "traverse f xs = Some ys'" "ys = y # ys'"
    by (auto split: option.splits)
  with Cons have "traverse g (map h xs) = Some (map k ys')" "g (h x) = Some (k y)" by auto
  with y show ?case by simp
qed simp

lemma traverse_all:
  assumes "traverse f xs = Some ys" and "\<And>x y. x \<in> set xs \<Longrightarrow> f x = Some y \<Longrightarrow> P y"
  shows "list_all P ys"
  using assms
proof (induction xs arbitrary: ys)
  case (Cons x xs)
  then obtain y ys' where "f x = Some y" "traverse f xs = Some ys'" "ys = y # ys'" by (auto split: option.splits)
  with Cons show ?case by (simp, blast)
qed simp

lemma batch_sanitized:
  assumes "json_of_batch lib ms = Some j"
  shows "json_of_batch lib (map sanitize_metric ms) = Some (sanitize_json j)"
proof -
  from assms obtain js where js: "traverse (json_of_Metrics lib) ms = Some js" "j = JArr js"
    by (auto simp: json_of_batch_def)
  from js(1) have "traverse (json_of_Metrics lib) (map sanitize_metric ms) = Some (map sanitize_json js)"
    by (rule traverse_natural) (rule Metrics_sanitized)
  with js(2) show ?thesis by (simp add: json_of_batch_def)
qed

lemma max_depth_Suc: "max_depth = Suc (Suc (Suc 9997))"
  by (simp add: max_depth_def)

lemma well_formed_fields:
  assumes "float_text_ok lib" "encodable m"
  shows "list_all (\<lambda>kv. well_formed n (snd kv)) (fields_of_Metrics lib m)"
  using assms by (auto simp: fields_of_Metrics_def float_text_ok_def encodable_def split: option.splits)

lemma well_formed_batch:
  assumes "float_text_ok lib" "json_of_batch lib ms = Some j"
  shows "well_formed max_depth j"
proof -
  from assms(2) obtain js where js: "traverse (json_of_Metrics lib) ms = Some js" "j = JArr js"
    by (auto simp: json_of_batch_def)
  from js(1) have "list_all (well_formed (Suc (Suc 9997))) js"
    by (rule traverse_all) (auto simp: json_of_Metrics_def well_formed_fields [OF assms(1)] split: if_splits)
  with js(2) show ?thesis by (simp add: max_depth_Suc)
qed

lemma batch_text:
  assumes "float_text_ok lib" "json_of_batch lib ms = Some j"
  shows "json_read (json_print j) = Some (sanitize_json j)" "json_read_first (json_print j) = Some (sanitize_json j)"
    "batch_of_json lib (sanitize_json j) = Some (map sanitize_metric ms)"
  using json_read_print [OF well_formed_batch [OF assms], of "[]"] batch_roundtrip [OF assms(1) batch_sanitized [OF assms(2)]]
  by (simp_all add: ends_number_def)

text \<open>
  C34. \<open>json.Marshal\<close> refuses a batch exactly when it holds a gauge that is NaN or infinite. The text of a batch it
  accepts is read back by \<open>json.Unmarshal\<close> as the same batch, in which only bytes that are not UTF-8 are replaced by
  U+FFFD: names with quotes, control characters and HTML, nil pointers, zero values behind pointers and empty hashes
  are kept.
\<close>

theorem batch_json_roundtrip:
  assumes "float_text_ok lib"
  shows "case json_of_batch lib ms of
           None \<Rightarrow> (\<exists>m \<in> set ms. \<not> encodable m)
         | Some j \<Rightarrow> list_all encodable ms
             \<and> Option.bind (json_read (json_print j)) (batch_of_json lib) = Some (map sanitize_metric ms)
             \<and> (list_all utf8_metric ms \<longrightarrow> map sanitize_metric ms = ms)"
  using json_of_batch_None_iff [of lib ms] batch_text [OF assms, of ms]
  by (auto simp: list_all_iff sanitize_utf8_batch split: option.splits)

text \<open>A library instance used by the witnesses: floats are written as the decimal form of their bits.\<close>

definition demo_lib :: golib where
  "demo_lib = \<lparr>fmt_float = FormatInt, parse_float = ParseInt, sha256_sum = (\<lambda>b. b), hmac_sha256 = (\<lambda>k b. k @ b)\<rparr>"

lemma demo_lib_float [simp]: "float_text_ok demo_lib"
  by (simp add: demo_lib_def float_text_ok_def)

lemma valid_utf8_ascii: "(\<And>c. c \<in> set s \<Longrightarrow> ordc c < 128) \<Longrightarrow> valid_utf8 s"
proof (induction s)
  case (Cons c s)
  then show ?case by (simp add: valid_utf8.simps [of "c # s"] rune_size_def)
qed (simp add: valid_utf8.simps)

lemma batch_json_roundtrip_witness:
  "let ms = [counter_metric ''Poll<Count'' 3, gauge_metric ''Alloc'' 0]
   in \<exists>j. json_of_batch demo_lib ms = Some j \<and> Option.bind (json_read (json_print j)) (batch_of_json demo_lib) = Some ms"
proof -
  let ?ms = "[counter_metric ''Poll<Count'' 3, gauge_metric ''Alloc'' 0]"
  have "json_of_batch demo_lib ?ms \<noteq> None"
    by (simp add: json_of_batch_None_iff encodable_def)
  moreover have "list_all utf8_metric ?ms"
    by (auto simp: utf8_metric_def Counter_def Gauge_def counter_metric_def gauge_metric_def intro!: valid_utf8_ascii)
  ultimately show ?thesis using batch_json_roundtrip [OF demo_lib_float, of ?ms]
    by (auto split: option.splits)
qed

text \<open>A batch that is decoded from text has UTF-8 names, whatever the text was.\<close>

lemma set_fields_utf8:
  "set_fields lib fs m = Some m' \<Longrightarrow> valid_json (JObj fs) \<Longrightarrow> utf8_metric m \<Longrightarrow> utf8_metric m'"
proof (induction fs arbitrary: m)
  case (Cons f fs)
  obtain k j where f: "f = (k, j)" by fastforce
  from Cons.prems obtain m1 where m1: "set_field lib f m = Some m1" "set_fields lib fs m1 = Some m'"
    by (auto split: option.splits)
  have "utf8_metric m1"
    using m1(1) Cons.prems(2,3) f
    by (auto simp: set_field_def Let_def utf8_metric_def into_string_def split: if_splits json.splits)
  with Cons m1(2) show ?case by simp
qed simp

lemma decoded_batch_utf8:
  assumes "batch_of_json lib j = Some ms" "valid_json j"
  shows "list_all utf8_metric ms"
proof -
  have z: "utf8_metric zero_Metrics" by (simp add: zero_Metrics_def utf8_metric_def)
  show ?thesis
  proof (cases j)
    case (JArr js)
    then have t: "traverse (Metrics_of_json lib) js = Some ms" using assms(1) by (simp add: batch_of_json_def)
    show ?thesis
      using t assms(2) JArr z
      by (intro traverse_all [OF t])
         (auto simp: Metrics_of_json_def list_all_iff split: json.splits intro: set_fields_utf8)
  qed (use assms(1) in \<open>auto simp: batch_of_json_def\<close>)
qed

section \<open>Snapshot records\<close>

text \<open>\<open>snapshotRecord\<close> embeds \<open>Metrics\<close>, whose fields are promoted, and adds the receipts.\<close>

record snapshotRecord =
  rec_Metrics :: Metrics
  rec_Receipts :: "string gomap"

text \<open>A map is encoded as an object with its keys in order.\<close>

definition json_of_map :: "string gomap \<Rightarrow> json" where
  "json_of_map r = JObj (map (\<lambda>k. (k, JStr (the (r k)))) (sorted_list_of_set (dom r)))"

definition json_of_record :: "golib \<Rightarrow> snapshotRecord \<Rightarrow> json option" where
  "json_of_record lib r =
     (if encodable (rec_Metrics r)
      then Some (JObj (fields_of_Metrics lib (rec_Metrics r)
                  @ (if rec_Receipts r = Map.empty then [] else [(''_request_receipts'', json_of_map (rec_Receipts r))])))
      else None)"

definition json_of_records :: "golib \<Rightarrow> snapshotRecord list \<Rightarrow> json option" where
  "json_of_records lib rs = map_option JArr (traverse (json_of_record lib) rs)"

text \<open>Decoding into a map adds to what the map holds; a \<open>null\<close> element is the zero value.\<close>

fun into_map :: "(string \<times> json) list \<Rightarrow> string gomap \<Rightarrow> string gomap option" where
  "into_map [] m = Some m"
| "into_map ((k, j) # es) m =
     (case j of JStr s \<Rightarrow> into_map es (m(k \<mapsto> s)) | JNull \<Rightarrow> into_map es (m(k \<mapsto> [])) | _ \<Rightarrow> None)"

definition set_rec_field :: "golib \<Rightarrow> string \<times> json \<Rightarrow> snapshotRecord \<Rightarrow> snapshotRecord option" where
  "set_rec_field lib f r =
     (if fold_name (fst f) = ''_request_receipts''
      then (case snd f of
              JObj es \<Rightarrow> map_option (\<lambda>m. r\<lparr>rec_Receipts := m\<rparr>) (into_map es (rec_Receipts r))
            | JNull \<Rightarrow> Some (r\<lparr>rec_Receipts := Map.empty\<rparr>)
            | _ \<Rightarrow> None)
      else map_option (\<lambda>m. r\<lparr>rec_Metrics := m\<rparr>) (set_field lib f (rec_Metrics r)))"

fun set_rec_fields :: "golib \<Rightarrow> (string \<times> json) list \<Rightarrow> snapshotRecord \<Rightarrow> snapshotRecord option" where
  "set_rec_fields lib [] r = Some r"
| "set_rec_fields lib (f # fs) r =
     (case set_rec_field lib f r of None \<Rightarrow> None | Some r' \<Rightarrow> set_rec_fields lib fs r')"

definition zero_record :: snapshotRecord where
  "zero_record = \<lparr>rec_Metrics = zero_Metrics, rec_Receipts = Map.empty\<rparr>"

definition record_of_json :: "golib \<Rightarrow> json \<Rightarrow> snapshotRecord option" where
  "record_of_json lib j =
     (case j of JObj fs \<Rightarrow> set_rec_fields lib fs zero_record | JNull \<Rightarrow> Some zero_record | _ \<Rightarrow> None)"

definition records_of_json :: "golib \<Rightarrow> json \<Rightarrow> snapshotRecord list option" where
  "records_of_json lib j =
     (case j of JArr js \<Rightarrow> traverse (record_of_json lib) js | JNull \<Rightarrow> Some [] | _ \<Rightarrow> None)"

lemma into_map_strings:
  "into_map (map (\<lambda>k. (k, JStr (f k))) ks) m = Some (\<lambda>k. if k \<in> set ks then Some (f k) else m k)"
  by (induction ks arbitrary: m) (auto simp: fun_eq_iff)

lemma into_map_json_of_map:
  assumes "finite (dom r)" and "json_of_map r = JObj es"
  shows "into_map es Map.empty = Some r"
  using assms by (auto simp: json_of_map_def into_map_strings fun_eq_iff domIff)

lemma set_rec_fields_append:
  "set_rec_fields lib (xs @ ys) r =
     (case set_rec_fields lib xs r of None \<Rightarrow> None | Some r' \<Rightarrow> set_rec_fields lib ys r')"
  by (induction xs arbitrary: r) (auto split: option.splits)

lemma set_rec_fields_metrics:
  assumes "\<And>f. f \<in> set fs \<Longrightarrow> fold_name (fst f) \<noteq> ''_request_receipts''"
  shows "set_rec_fields lib fs r = map_option (\<lambda>m. r\<lparr>rec_Metrics := m\<rparr>) (set_fields lib fs (rec_Metrics r))"
  using assms by (induction fs arbitrary: r) (auto simp: set_rec_field_def split: option.splits)

lemma fields_of_Metrics_names:
  "f \<in> set (fields_of_Metrics lib m) \<Longrightarrow> fold_name (fst f) \<noteq> ''_request_receipts''"
  by (auto simp: fields_of_Metrics_def split: option.splits if_splits)

lemma record_json_roundtrip:
  assumes "float_text_ok lib" "finite (dom (rec_Receipts r))" "json_of_record lib r = Some j"
  shows "record_of_json lib j = Some r"
proof -
  let ?m = "zero_record\<lparr>rec_Metrics := rec_Metrics r\<rparr>"
  have enc: "encodable (rec_Metrics r)" using assms(3) by (simp add: json_of_record_def split: if_splits)
  have "set_rec_fields lib (fields_of_Metrics lib (rec_Metrics r)) zero_record = Some ?m"
    using set_fields_of_Metrics [OF assms(1) enc]
    by (simp add: set_rec_fields_metrics fields_of_Metrics_names zero_record_def)
  moreover have "set_rec_field lib (''_request_receipts'', json_of_map (rec_Receipts r)) ?m = Some r"
    using assms(2) into_map_json_of_map [OF assms(2)]
    by (cases r) (simp add: set_rec_field_def json_of_map_def zero_record_def)
  ultimately show ?thesis using assms(3) enc
    by (cases r) (auto simp: json_of_record_def record_of_json_def set_rec_fields_append zero_record_def split: if_splits)
qed

lemma records_json_roundtrip:
  assumes "float_text_ok lib" "\<And>r. r \<in> set rs \<Longrightarrow> finite (dom (rec_Receipts r))" "json_of_records lib rs = Some j"
  shows "records_of_json lib j = Some rs"
proof -
  from assms(3) obtain js where js: "traverse (json_of_record lib) rs = Some js" "j = JArr js"
    by (auto simp: json_of_records_def)
  have "traverse (record_of_json lib) js = Some rs"
    using js(1) by (rule traverse_roundtrip) (auto intro: record_json_roundtrip assms)
  with js show ?thesis by (simp add: records_of_json_def)
qed

lemma json_of_records_None_iff:
  "json_of_records lib rs = None \<longleftrightarrow> (\<exists>r \<in> set rs. \<not> encodable (rec_Metrics r))"
  by (auto simp: json_of_records_def traverse_None_iff json_of_record_def)

lemma json_of_records_cong: "fmt_float lib = fmt_float lib' \<Longrightarrow> json_of_records lib = json_of_records lib'"
proof -
  assume "fmt_float lib = fmt_float lib'"
  then have "fields_of_Metrics lib = fields_of_Metrics lib'"
    by (auto simp: fun_eq_iff fields_of_Metrics_def split: option.split)
  then have "json_of_record lib = json_of_record lib'"
    by (intro ext) (simp add: json_of_record_def)
  then show ?thesis by (intro ext) (simp only: json_of_records_def)
qed

text \<open>The text of a storage file keeps everything but invalid UTF-8 in the names, when the receipts are valid.\<close>

definition utf8_map :: "string gomap \<Rightarrow> bool" where
  "utf8_map m \<longleftrightarrow> (\<forall>k v. m k = Some v \<longrightarrow> valid_utf8 k \<and> valid_utf8 v)"

definition sanitize_record :: "snapshotRecord \<Rightarrow> snapshotRecord" where
  "sanitize_record r = r\<lparr>rec_Metrics := sanitize_metric (rec_Metrics r)\<rparr>"

lemma sanitize_json_of_map:
  assumes "finite (dom m)" "utf8_map m"
  shows "sanitize_json (json_of_map m) = json_of_map m"
  using assms by (intro sanitize_valid_json) (auto simp: json_of_map_def list_all_iff utf8_map_def domIff)

lemma record_sanitized:
  assumes "finite (dom (rec_Receipts r))" "utf8_map (rec_Receipts r)" "json_of_record lib r = Some j"
  shows "json_of_record lib (sanitize_record r) = Some (sanitize_json j)"
proof -
  have "encodable (sanitize_metric (rec_Metrics r)) = encodable (rec_Metrics r)"
    by (simp add: encodable_def sanitize_metric_def)
  with assms(3) sanitize_json_of_map [OF assms(1,2)] show ?thesis
    by (auto simp: json_of_record_def sanitize_record_def fields_sanitized split: if_splits)
qed

lemma well_formed_record:
  assumes "float_text_ok lib" "json_of_record lib r = Some j"
  shows "well_formed (Suc (Suc n)) j"
proof -
  have "well_formed (Suc n) (json_of_map m)" for m by (simp add: json_of_map_def list_all_iff)
  with assms(2) well_formed_fields [OF assms(1), of "rec_Metrics r" "Suc n"] show ?thesis
    by (auto simp: json_of_record_def split: if_splits)
qed

lemma records_text:
  assumes "float_text_ok lib" "json_of_records lib rs = Some j" "list_all json_space sp"
    and "\<And>r. r \<in> set rs \<Longrightarrow> finite (dom (rec_Receipts r)) \<and> utf8_map (rec_Receipts r)"
  shows "json_read (json_print j @ sp) = Some (sanitize_json j)"
    "records_of_json lib (sanitize_json j) = Some (map sanitize_record rs)"
proof -
  from assms(2) obtain js where js: "traverse (json_of_record lib) rs = Some js" "j = JArr js"
    by (auto simp: json_of_records_def)
  from js(1) have "list_all (well_formed (Suc (Suc 9997))) js"
    by (rule traverse_all) (rule well_formed_record [OF assms(1)])
  with js(2) have "well_formed max_depth j" by (simp add: max_depth_Suc)
  from json_read_print(1) [OF this assms(3)] show "json_read (json_print j @ sp) = Some (sanitize_json j)" .
  from js(1) have "traverse (json_of_record lib) (map sanitize_record rs) = Some (map sanitize_json js)"
    by (rule traverse_natural) (auto intro: record_sanitized dest: assms(4))
  then have "json_of_records lib (map sanitize_record rs) = Some (sanitize_json j)"
    using js(2) by (simp add: json_of_records_def)
  moreover have "finite (dom (rec_Receipts r))" if "r \<in> set (map sanitize_record rs)" for r
    using that assms(4) by (auto simp: sanitize_record_def)
  ultimately show "records_of_json lib (sanitize_json j) = Some (map sanitize_record rs)"
    by (intro records_json_roundtrip [OF assms(1)])
qed

end
