(* ===== verification/Http.thy ===== *)
theory Http
  imports Metrics_Json
begin

text \<open>
  The part of \<open>net/http\<close> the program uses: headers with canonical keys and repeated values, requests,
  and responses as a handler leaves them. Reading the body of a request yields \<open>hr_Body\<close> and then the
  end of the stream, or an error when \<open>hr_BodyErr\<close> is set. A response without a status has not been written to; the
  server then sends status 200 with an empty body.
\<close>

section \<open>Headers\<close>

type_synonym header = "string \<Rightarrow> string list"

definition upper_char :: "char \<Rightarrow> char" where
  "upper_char c = (let n = (of_char c :: nat) in if 97 \<le> n \<and> n \<le> 122 then char_of (n - 32) else c)"

text \<open>\<open>textproto.CanonicalMIMEHeaderKey\<close>: the first letter and letters after a hyphen in upper case.\<close>

fun canon_from :: "bool \<Rightarrow> string \<Rightarrow> string" where
  "canon_from up [] = []"
| "canon_from up (c # cs) = (if up then upper_char c else lower_char c) # canon_from (c = CHR ''-'') cs"

definition canon :: "string \<Rightarrow> string" where
  "canon = canon_from True"

definition header_Values :: "header \<Rightarrow> string \<Rightarrow> string list" where
  "header_Values h k = h (canon k)"

definition header_Get :: "header \<Rightarrow> string \<Rightarrow> string" where
  "header_Get h k = (case h (canon k) of [] \<Rightarrow> [] | v # _ \<Rightarrow> v)"

definition header_Set :: "string \<Rightarrow> string \<Rightarrow> header \<Rightarrow> header" where
  "header_Set k v h = h(canon k := [v])"

definition header_Add :: "string \<Rightarrow> string \<Rightarrow> header \<Rightarrow> header" where
  "header_Add k v h = h(canon k := h (canon k) @ [v])"

definition header_Del :: "string \<Rightarrow> header \<Rightarrow> header" where
  "header_Del k h = h(canon k := [])"

definition no_header :: header where
  "no_header = (\<lambda>_. [])"

lemma header_simps [simp]:
  "header_Values (header_Set k v h) k' = (if canon k' = canon k then [v] else header_Values h k')"
  "header_Get (header_Set k v h) k' = (if canon k' = canon k then v else header_Get h k')"
  "header_Values (header_Del k h) k' = (if canon k' = canon k then [] else header_Values h k')"
  "header_Get (header_Del k h) k' = (if canon k' = canon k then [] else header_Get h k')"
  "header_Values (header_Add k v h) k' = (if canon k' = canon k then header_Values h k @ [v] else header_Values h k')"
  "canon k' \<noteq> canon k \<Longrightarrow> header_Get (header_Add k v h) k' = header_Get h k'"
  "header_Values no_header k' = []" "header_Get no_header k' = []"
  by (simp_all add: header_Values_def header_Get_def header_Set_def header_Add_def header_Del_def no_header_def)

section \<open>Requests and responses\<close>

record http_request =
  hr_Method :: string
  hr_URL :: string
  hr_Header :: header
  hr_Body :: bytes
  hr_BodyErr :: bool
  hr_RemoteAddr :: string

record http_response =
  rs_Status :: "nat option"
  rs_Header :: header
  rs_Body :: bytes

definition no_response :: http_response where
  "no_response = \<lparr>rs_Status = None, rs_Header = no_header, rs_Body = []\<rparr>"

abbreviation StatusOK :: nat where "StatusOK \<equiv> 200"
abbreviation StatusBadRequest :: nat where "StatusBadRequest \<equiv> 400"
abbreviation StatusForbidden :: nat where "StatusForbidden \<equiv> 403"
abbreviation StatusNotFound :: nat where "StatusNotFound \<equiv> 404"
abbreviation StatusConflict :: nat where "StatusConflict \<equiv> 409"
abbreviation StatusInternalServerError :: nat where "StatusInternalServerError \<equiv> 500"

definition WriteHeader :: "nat \<Rightarrow> http_response \<Rightarrow> http_response" where
  "WriteHeader code r = (case rs_Status r of None \<Rightarrow> r\<lparr>rs_Status := Some code\<rparr> | Some _ \<Rightarrow> r)"

definition write_body :: "bytes \<Rightarrow> http_response \<Rightarrow> http_response" where
  "write_body b r = (let r' = WriteHeader StatusOK r in r'\<lparr>rs_Body := rs_Body r' @ b\<rparr>)"

text \<open>\<open>w.Header().Set\<close>; a header that is set after the status was written is not sent.\<close>

definition set_header :: "string \<Rightarrow> string \<Rightarrow> http_response \<Rightarrow> http_response" where
  "set_header k v r = (if rs_Status r = None then r\<lparr>rs_Header := header_Set k v (rs_Header r)\<rparr> else r)"

definition http_Error :: "string \<Rightarrow> nat \<Rightarrow> http_response \<Rightarrow> http_response" where
  "http_Error msg code r =
     write_body (msg @ [char_of (10 :: nat)])
       (WriteHeader code
         (set_header ''X-Content-Type-Options'' ''nosniff'' (set_header ''Content-Type'' ''text/plain; charset=utf-8''
           (if rs_Status r = None then r\<lparr>rs_Header := header_Del ''Content-Length'' (rs_Header r)\<rparr> else r))))"

definition final_status :: "http_response \<Rightarrow> nat" where
  "final_status r = (case rs_Status r of None \<Rightarrow> StatusOK | Some c \<Rightarrow> c)"

lemma status_simps [simp]:
  "rs_Status (WriteHeader c r) = (case rs_Status r of None \<Rightarrow> Some c | Some d \<Rightarrow> Some d)"
  "rs_Status (write_body b r) = (case rs_Status r of None \<Rightarrow> Some 200 | Some d \<Rightarrow> Some d)"
  "rs_Status (set_header k v r) = rs_Status r"
  "rs_Status (http_Error m c r) = (case rs_Status r of None \<Rightarrow> Some c | Some d \<Rightarrow> Some d)"
  "rs_Status no_response = None"
  by (auto simp: WriteHeader_def write_body_def set_header_def http_Error_def no_response_def Let_def split: option.splits)

lemma final_status_simps [simp]:
  "final_status (WriteHeader c no_response) = c" "final_status (http_Error m c no_response) = c"
  "final_status no_response = 200"
  by (simp_all add: final_status_def)

end
