(* ===== verification/Delivery.thy ===== *)
theory Delivery
  imports Metrics_Json
begin

text \<open>
  \<open>internal/delivery\<close>: batches with their identifiers, the bound on identifiers accepted from the
  network, and the fingerprint that tells two payloads under one identifier apart.
\<close>

definition delivery_Header :: string where
  "delivery_Header = ''Idempotency-Key''"

definition ErrConflict :: goerror where
  "ErrConflict = Sentinel ''idempotency key reused with different metrics''"

definition is_conflict :: "goerror \<Rightarrow> bool" where
  "is_conflict e = errors_Is e ''idempotency key reused with different metrics''"

lemma is_conflict_ErrConflict [simp]: "is_conflict ErrConflict"
  by (simp add: is_conflict_def ErrConflict_def)

record Batch =
  batch_ID :: string
  batch_Metrics :: "Metrics list"

text \<open>\<open>New\<close>: the identifier comes from \<open>rand.Text()\<close>.\<close>

definition New_Batch :: "string \<Rightarrow> Metrics list \<Rightarrow> Batch" where
  "New_Batch rand_text metrics = \<lparr>batch_ID = rand_text, batch_Metrics = metrics\<rparr>"

lemma New_Batch_sel [simp]: "batch_ID (New_Batch i ms) = i" "batch_Metrics (New_Batch i ms) = ms"
  by (simp_all add: New_Batch_def)

text \<open>
  \<open>ValidKey\<close>. The Go loop reads runes; the accepted ones are all ASCII, and a string with a byte
  above 127 yields a rune above 127 (or U+FFFD), so testing bytes gives the same answer.
\<close>

definition key_char :: "char \<Rightarrow> bool" where
  "key_char c \<longleftrightarrow> (let n = (of_char c :: nat) in
     97 \<le> n \<and> n \<le> 122 \<or> 65 \<le> n \<and> n \<le> 90 \<or> 48 \<le> n \<and> n \<le> 57 \<or> n = 45 \<or> n = 95 \<or> n = 46)"

definition ValidKey :: "string \<Rightarrow> bool" where
  "ValidKey key \<longleftrightarrow> (if length key = 0 \<or> length key > 128 then False else list_all key_char key)"

lemma ValidKey_not_empty: "ValidKey k \<Longrightarrow> k \<noteq> []"
  by (auto simp: ValidKey_def)

text \<open>\<open>crypto/rand.Text\<close> returns 26 characters of the base32 alphabet (capital letters and 2 to 7).\<close>

definition rand_text_form :: "string \<Rightarrow> bool" where
  "rand_text_form s \<longleftrightarrow> length s = 26 \<and>
     (\<forall>c \<in> set s. let n = (of_char c :: nat) in 65 \<le> n \<and> n \<le> 90 \<or> 50 \<le> n \<and> n \<le> 55)"

lemma rand_text_ValidKey: "rand_text_form s \<Longrightarrow> ValidKey s"
  by (auto simp: rand_text_form_def ValidKey_def key_char_def Let_def list_all_iff)

text \<open>\<open>Fingerprint\<close>: hexadecimal SHA-256 of the JSON text; \<open>Inl\<close> is the error of \<open>json.Marshal\<close>.\<close>

definition unsupported_value :: goerror where
  "unsupported_value = ErrorString ''json: unsupported value''"

definition Fingerprint :: "golib \<Rightarrow> Metrics list \<Rightarrow> goerror + string" where
  "Fingerprint lib metrics =
     (case json_of_batch lib metrics of
        None \<Rightarrow> Inl unsupported_value
      | Some j \<Rightarrow> Inr (hex_EncodeToString (sha256_sum lib (json_print j))))"

lemma Fingerprint_ok_iff: "(\<exists>f. Fingerprint lib ms = Inr f) \<longleftrightarrow> (\<forall>m \<in> set ms. encodable m)"
  using json_of_batch_None_iff [of lib ms] by (auto simp: Fingerprint_def split: option.splits)

lemma hex_Encode_utf8: "valid_utf8 (hex_EncodeToString b)"
proof -
  have "ordc (hex_char n) < 128" if "n < 16" for n using that by (auto simp: hex_char_def)
  then have "c \<in> set (hex_EncodeToString b) \<Longrightarrow> ordc c < 128" for c by (induction b) auto
  then show ?thesis by (rule valid_utf8_ascii)
qed

lemma Fingerprint_utf8: "Fingerprint lib ms = Inr f \<Longrightarrow> valid_utf8 f"
  by (auto simp: Fingerprint_def hex_Encode_utf8 split: option.splits)

lemma ValidKey_utf8: "ValidKey k \<Longrightarrow> valid_utf8 k"
  by (intro valid_utf8_ascii) (auto simp: ValidKey_def list_all_iff key_char_def Let_def split: if_splits)

text \<open>The two texts hashed for \<open>ms\<close> and \<open>ms'\<close> do not collide.\<close>

definition no_collision :: "golib \<Rightarrow> Metrics list \<Rightarrow> Metrics list \<Rightarrow> bool" where
  "no_collision lib ms ms' \<longleftrightarrow>
     (\<forall>j j'. json_of_batch lib ms = Some j \<longrightarrow> json_of_batch lib ms' = Some j' \<longrightarrow>
        sha256_sum lib (json_print j) = sha256_sum lib (json_print j') \<longrightarrow>
        json_print j = json_print j')"

text \<open>
  C21. Two batches with the same fingerprint have the same content: no two payloads that differ in an identifier, a
  type, a nil pointer, a value or a hash are taken for a repetition of each other. Only bytes that are not UTF-8 are
  not told apart, since JSON text replaces them. The hypotheses are the documented round trip of float text and that
  SHA-256 does not collide on the two texts.
\<close>

theorem Fingerprint_distinguishes:
  assumes "float_text_ok lib" "no_collision lib ms ms'" "Fingerprint lib ms = Inr f" "Fingerprint lib ms' = Inr f"
  shows "map sanitize_metric ms = map sanitize_metric ms' \<and> (list_all utf8_metric ms \<and> list_all utf8_metric ms' \<longrightarrow> ms = ms')"
proof -
  from assms(3,4) obtain j j' where j: "json_of_batch lib ms = Some j" "json_of_batch lib ms' = Some j'"
    and eq: "sha256_sum lib (json_print j) = sha256_sum lib (json_print j')"
    by (auto simp: Fingerprint_def hex_Encode_inj split: option.splits)
  with assms(2) have "json_print j = json_print j'" unfolding no_collision_def by blast
  with batch_text [OF assms(1) j(1)] batch_text [OF assms(1) j(2)]
  have "map sanitize_metric ms = map sanitize_metric ms'" by (metis option.inject)
  with sanitize_utf8_batch show ?thesis by metis
qed

lemma Fingerprint_distinguishes_witness:
  "let ms = [counter_metric [CHR 0xFF] 3]; ms' = [counter_metric [CHR 0xFE] 3]
   in ms \<noteq> ms' \<and> (\<exists>f. Fingerprint demo_lib ms = Inr f \<and> Fingerprint demo_lib ms' = Inr f)
      \<and> map sanitize_metric ms = map sanitize_metric ms'"
proof -
  let ?m = "counter_metric [CHR 0xFF] 3" and ?m' = "counter_metric [CHR 0xFE] 3"
  have "escape [CHR 0xFF] = escape [CHR 0xFE]"
    by (simp add: escape.simps [of "[_]"] rune_size_def lead_def)
  then have p: "json_print (JArr [JObj (fields_of_Metrics demo_lib ?m)]) = json_print (JArr [JObj (fields_of_Metrics demo_lib ?m')])"
    by (simp add: fields_of_Metrics_def counter_metric_def string_text_def)
  obtain f where f: "Fingerprint demo_lib [?m] = Inr f"
    using Fingerprint_ok_iff [of demo_lib "[?m]"] by (auto simp: encodable_def)
  with p have f': "Fingerprint demo_lib [?m'] = Inr f"
    by (simp add: Fingerprint_def json_of_batch_def json_of_Metrics_def encodable_def)
  have "no_collision demo_lib [?m] [?m']"
    using p by (simp add: no_collision_def json_of_batch_def json_of_Metrics_def encodable_def)
  from Fingerprint_distinguishes [OF demo_lib_float this f f'] f f' show ?thesis by (auto simp: counter_metric_def)
qed

end
