(* ===== verification/Repository.thy ===== *)
theory Repository
  imports Delivery
begin

text \<open>
  The storage interfaces of \<open>internal/repository\<close> as locales. \<open>metrics_repository\<close> is the contract of
  \<open>MetricsRepository\<close>: a gauge update is read back, a counter update adds, other names are untouched.
  \<open>idempotent_repository\<close> is the contract of \<open>IdempotentRepository\<close>: a keyed batch changes the content
  together with its receipt or not at all, and a call that reports success has left the receipt
  behind. What the clients rely on is proved once, inside the locales; the in-memory and the PostgreSQL
  storage interpret both.
\<close>

section \<open>Plain updates\<close>

datatype update = UpGauge string float64 | UpCounter string int64

text \<open>A history of updates, each of which succeeded.\<close>

fun run_updates ::
  "(string \<Rightarrow> float64 \<Rightarrow> 'r \<Rightarrow> gerr \<times> 'r) \<Rightarrow> (string \<Rightarrow> int64 \<Rightarrow> 'r \<Rightarrow> gerr \<times> 'r) \<Rightarrow> update list \<Rightarrow> 'r \<Rightarrow> 'r option"
where
  "run_updates ug uc [] r = Some r"
| "run_updates ug uc (UpGauge n v # us) r = (case ug n v r of (None, r') \<Rightarrow> run_updates ug uc us r' | _ \<Rightarrow> None)"
| "run_updates ug uc (UpCounter n d # us) r = (case uc n d r of (None, r') \<Rightarrow> run_updates ug uc us r' | _ \<Rightarrow> None)"

text \<open>The deltas a history adds to the counter \<open>n\<close>, and the last value it gives the gauge \<open>n\<close>.\<close>

fun counter_total :: "string \<Rightarrow> update list \<Rightarrow> int64" where
  "counter_total n [] = 0"
| "counter_total n (UpCounter k d # us) = (if k = n then d else 0) + counter_total n us"
| "counter_total n (UpGauge k v # us) = counter_total n us"

fun last_gauge :: "string \<Rightarrow> update list \<Rightarrow> float64 option \<Rightarrow> float64 option" where
  "last_gauge n [] g = g"
| "last_gauge n (UpGauge k v # us) g = last_gauge n us (if k = n then Some v else g)"
| "last_gauge n (UpCounter k d # us) g = last_gauge n us g"

definition updates_counter :: "string \<Rightarrow> update \<Rightarrow> bool" where
  "updates_counter n u = (case u of UpCounter k _ \<Rightarrow> k = n | UpGauge _ _ \<Rightarrow> False)"

definition updates_gauge :: "string \<Rightarrow> update \<Rightarrow> bool" where
  "updates_gauge n u = (case u of UpGauge k _ \<Rightarrow> k = n | UpCounter _ _ \<Rightarrow> False)"

lemmas updates_simps = updates_counter_def updates_gauge_def

locale metrics_repository =
  fixes update_gauge :: "string \<Rightarrow> float64 \<Rightarrow> 'r \<Rightarrow> gerr \<times> 'r"
    and update_counter :: "string \<Rightarrow> int64 \<Rightarrow> 'r \<Rightarrow> gerr \<times> 'r"
    and gauge_of :: "'r \<Rightarrow> float64 gomap"
    and counter_of :: "'r \<Rightarrow> int64 gomap"
    and inv :: "'r \<Rightarrow> bool"
  assumes gauge_inv: "inv r \<Longrightarrow> update_gauge n v r = (e, r') \<Longrightarrow> inv r'"
    and counter_inv: "inv r \<Longrightarrow> update_counter n d r = (e, r') \<Longrightarrow> inv r'"
    and gauge_set: "inv r \<Longrightarrow> update_gauge n v r = (None, r') \<Longrightarrow> gauge_of r' n = Some v"
    and gauge_frame: "inv r \<Longrightarrow> update_gauge n v r = (None, r') \<Longrightarrow> k \<noteq> n \<Longrightarrow>
        gauge_of r' k = gauge_of r k \<and> counter_of r' k = counter_of r k"
    and counter_add: "inv r \<Longrightarrow> update_counter n d r = (None, r') \<Longrightarrow>
        counter_of r' n = Some (map_get0 (counter_of r) n + d)"
    and counter_frame: "inv r \<Longrightarrow> update_counter n d r = (None, r') \<Longrightarrow> k \<noteq> n \<Longrightarrow>
        gauge_of r' k = gauge_of r k \<and> counter_of r' k = counter_of r k"
begin

lemmas laws = gauge_inv counter_inv gauge_set gauge_frame counter_add counter_frame

text \<open>A name used as a counter only holds its start value plus all deltas, modulo \<open>2\<^sup>6\<^sup>4\<close>.\<close>

lemma counter_history:
  assumes "inv r" "run_updates update_gauge update_counter us r = Some r'"
    and "\<not> list_ex (updates_gauge n) us"
  shows "map_get0 (counter_of r') n = map_get0 (counter_of r) n + counter_total n us"
  using assms
proof (induction us arbitrary: r)
  case (Cons u us)
  show ?case
  proof (cases u)
    case (UpGauge k v)
    with Cons.prems obtain r1 where r1: "update_gauge k v r = (None, r1)" "k \<noteq> n"
      "run_updates update_gauge update_counter us r1 = Some r'"
      by (auto simp: updates_simps split: prod.splits option.splits)
    have "map_get0 (counter_of r1) n = map_get0 (counter_of r) n"
      using gauge_frame [OF Cons.prems(1) r1(1), of n] r1(2) by (simp add: map_get0_def)
    with Cons.IH [OF gauge_inv [OF Cons.prems(1) r1(1)] r1(3)] Cons.prems(3) UpGauge
    show ?thesis by simp
  next
    case (UpCounter k d)
    with Cons.prems obtain r1 where r1: "update_counter k d r = (None, r1)"
      "run_updates update_gauge update_counter us r1 = Some r'"
      by (auto split: prod.splits option.splits)
    have "map_get0 (counter_of r1) n = map_get0 (counter_of r) n + (if k = n then d else 0)"
      using counter_add [OF Cons.prems(1) r1(1)] counter_frame [OF Cons.prems(1) r1(1), of n]
      by (auto simp: map_get0_def)
    with Cons.IH [OF counter_inv [OF Cons.prems(1) r1(1)] r1(2)] Cons.prems(3) UpCounter
    show ?thesis by simp
  qed
qed simp

text \<open>A name used as a gauge only holds the last value written.\<close>

lemma gauge_history:
  assumes "inv r" "run_updates update_gauge update_counter us r = Some r'"
    and "\<not> list_ex (updates_counter n) us"
  shows "gauge_of r' n = last_gauge n us (gauge_of r n)"
  using assms
proof (induction us arbitrary: r)
  case (Cons u us)
  show ?case
  proof (cases u)
    case (UpGauge k v)
    with Cons.prems obtain r1 where r1: "update_gauge k v r = (None, r1)"
      "run_updates update_gauge update_counter us r1 = Some r'"
      by (auto split: prod.splits option.splits)
    have "gauge_of r1 n = (if k = n then Some v else gauge_of r n)"
      using gauge_set [OF Cons.prems(1) r1(1)] gauge_frame [OF Cons.prems(1) r1(1), of n] by auto
    with Cons.IH [OF gauge_inv [OF Cons.prems(1) r1(1)] r1(2)] Cons.prems(3) UpGauge
    show ?thesis by simp
  next
    case (UpCounter k d)
    with Cons.prems obtain r1 where r1: "update_counter k d r = (None, r1)" "k \<noteq> n"
      "run_updates update_gauge update_counter us r1 = Some r'"
      by (auto simp: updates_simps split: prod.splits option.splits)
    have "gauge_of r1 n = gauge_of r n"
      using counter_frame [OF Cons.prems(1) r1(1), of n] r1(2) by simp
    with Cons.IH [OF counter_inv [OF Cons.prems(1) r1(1)] r1(3)] Cons.prems(3) UpCounter
    show ?thesis by simp
  qed
qed simp

end

section \<open>Keyed batches\<close>

record request =
  rq_key :: string
  rq_fp :: string
  rq_metrics :: "Metrics list"

text \<open>Requests one after the other; the result lists what each call returned.\<close>

fun deliver_all ::
  "(string \<Rightarrow> string \<Rightarrow> Metrics list \<Rightarrow> 'r \<Rightarrow> (bool \<times> gerr) \<times> 'r) \<Rightarrow> request list \<Rightarrow> 'r \<Rightarrow> (bool \<times> gerr) list \<times> 'r"
where
  "deliver_all once [] r = ([], r)"
| "deliver_all once (q # qs) r =
     (let (res, r1) = once (rq_key q) (rq_fp q) (rq_metrics q) r;
          (ress, r2) = deliver_all once qs r1
      in (res # ress, r2))"

lemma deliver_all_length: "deliver_all once qs r = (ress, r') \<Longrightarrow> length ress = length qs"
  by (induction qs arbitrary: r ress) (auto split: prod.splits)

lemma map_add_upd_left: "M k = None \<Longrightarrow> (m(k \<mapsto> v)) ++ M = m ++ M(k \<mapsto> v)"
  by (auto simp: fun_eq_iff map_add_def split: option.splits)

text \<open>The effect of a list of batches, one after the other.\<close>

definition apply_all :: "(Metrics list \<Rightarrow> 'c \<Rightarrow> 'c) \<Rightarrow> request list \<Rightarrow> 'c \<Rightarrow> 'c" where
  "apply_all apply qs c = fold (\<lambda>q. apply (rq_metrics q)) qs c"

text \<open>
  \<open>exactly_once\<close> relates the state before and after a sequence of requests through the list \<open>done\<close> of
  requests that took effect: each has a key of its own that had no receipt before, the content has
  changed by exactly these batches, every receipt is accounted for, and every request that was
  acknowledged has its receipt in the end.
\<close>

definition exactly_once ::
  "('r \<Rightarrow> 'c) \<Rightarrow> (Metrics list \<Rightarrow> 'c \<Rightarrow> 'c) \<Rightarrow> ('r \<Rightarrow> string gomap) \<Rightarrow> request list \<Rightarrow> (bool \<times> gerr) list \<Rightarrow> 'r \<Rightarrow> 'r \<Rightarrow> request list \<Rightarrow> bool"
where
  "exactly_once content apply receipts qs ress r r' done \<longleftrightarrow>
     set done \<subseteq> set qs \<and> distinct (map rq_key done)
     \<and> (\<forall>q \<in> set done. receipts r (rq_key q) = None)
     \<and> content r' = apply_all apply done (content r)
     \<and> receipts r' = receipts r ++ map_of (map (\<lambda>q. (rq_key q, rq_fp q)) done)
     \<and> (\<forall>(q, a, e) \<in> set (zip qs ress). e = None \<longrightarrow> receipts r' (rq_key q) = Some (rq_fp q))"

locale idempotent_repository =
  fixes once :: "string \<Rightarrow> string \<Rightarrow> Metrics list \<Rightarrow> 'r \<Rightarrow> (bool \<times> gerr) \<times> 'r"
    and content :: "'r \<Rightarrow> 'c"
    and apply_batch :: "Metrics list \<Rightarrow> 'c \<Rightarrow> 'c"
    and receipts :: "'r \<Rightarrow> string gomap"
  assumes once_atomic: "once k f ms r = (res, r') \<Longrightarrow>
      content r' = content r \<and> receipts r' = receipts r
      \<or> receipts r k = None \<and> content r' = apply_batch ms (content r) \<and> receipts r' = (receipts r)(k \<mapsto> f)"
    and once_ack: "once k f ms r = ((a, None), r') \<Longrightarrow> receipts r' k = Some f"
begin

text \<open>A receipt is never changed or lost, whatever is delivered.\<close>

lemma receipt_stable: "once k f ms r = (res, r') \<Longrightarrow> receipts r k' = Some g \<Longrightarrow> receipts r' k' = Some g"
  using once_atomic [of k f ms r res r'] by auto

text \<open>A key that was used with another fingerprint is refused and changes nothing.\<close>

lemma conflict_refused:
  assumes "receipts r k = Some g" "g \<noteq> f" "once k f ms r = ((a, e), r')"
  shows "e \<noteq> None \<and> content r' = content r \<and> receipts r' = receipts r"
  using once_atomic [OF assms(3)] once_ack [of k f ms r a r'] assms by auto

text \<open>A repeated request changes nothing.\<close>

lemma duplicate_inert:
  assumes "receipts r k = Some g" "once k f ms r = (res, r')"
  shows "content r' = content r \<and> receipts r' = receipts r"
  using once_atomic [OF assms(2)] assms(1) by auto

lemma deliver_all_receipt_stable:
  "deliver_all once qs r = (ress, r') \<Longrightarrow> receipts r k = Some g \<Longrightarrow> receipts r' k = Some g"
  by (induction qs arbitrary: r ress) (auto split: prod.splits dest: receipt_stable)

lemma deliver_all_exactly_once:
  "deliver_all once qs r = (ress, r') \<Longrightarrow> \<exists>done. exactly_once content apply_batch receipts qs ress r r' done"
proof (induction qs arbitrary: r ress)
  case Nil
  then show ?case by (auto simp: exactly_once_def apply_all_def intro: exI [of _ "[]"])
next
  case (Cons q qs)
  obtain a e r1 ress1 where one: "once (rq_key q) (rq_fp q) (rq_metrics q) r = ((a, e), r1)"
    and rest: "deliver_all once qs r1 = (ress1, r')" "ress = (a, e) # ress1"
    using Cons.prems by (auto split: prod.splits)
  from Cons.IH [OF rest(1)] obtain done1
    where d1: "exactly_once content apply_batch receipts qs ress1 r1 r' done1" by blast
  have ack: "e = None \<longrightarrow> receipts r' (rq_key q) = Some (rq_fp q)"
    using once_ack one deliver_all_receipt_stable [OF rest(1)] by blast
  from once_atomic [OF one] show ?case
  proof (elim disjE conjE)
    assume "content r1 = content r" "receipts r1 = receipts r"
    with d1 ack rest(2) show ?thesis
      by (intro exI [of _ done1]) (auto simp: exactly_once_def)
  next
    assume new: "receipts r (rq_key q) = None"
      "content r1 = apply_batch (rq_metrics q) (content r)" "receipts r1 = (receipts r)(rq_key q \<mapsto> rq_fp q)"
    with d1 have keys: "\<forall>p \<in> set done1. rq_key p \<noteq> rq_key q \<and> receipts r (rq_key p) = None"
      by (auto simp: exactly_once_def split: if_splits)
    then have "map_of (map (\<lambda>q. (rq_key q, rq_fp q)) done1) (rq_key q) = None"
      by (auto simp: map_of_eq_None_iff)
    with d1 new have "receipts r' = receipts r ++ map_of (map (\<lambda>q. (rq_key q, rq_fp q)) (q # done1))"
      by (simp add: exactly_once_def map_add_upd_left)
    with d1 ack rest(2) new keys show ?thesis
      by (intro exI [of _ "q # done1"]) (auto simp: exactly_once_def apply_all_def simp del: map_of.simps)
  qed
qed

end

end
