(* ===== verification/Mem_Storage.thy ===== *)
theory Mem_Storage
  imports Repository
begin

text \<open>
  \<open>internal/repository/memory.go\<close> and the in-memory part of \<open>idempotency.go\<close>: \<open>MemStorage\<close>, its
  updates, reads, snapshots, and the JSON file it is saved to and restored from. Every method holds the
  storage mutex for its whole body, so a method is one atomic state transformer. The file system is a
  map from paths to contents; \<open>save_io\<close> fixes the outcome of every system call of one \<open>SaveToFile\<close>.
\<close>

section \<open>State and updates\<close>

record MemStorage =
  ms_gauges :: "float64 gomap"
  ms_counters :: "int64 gomap"
  ms_receipts :: "string gomap"

definition NewMemStorage :: MemStorage where
  "NewMemStorage = \<lparr>ms_gauges = Map.empty, ms_counters = Map.empty, ms_receipts = Map.empty\<rparr>"

definition Mem_UpdateGauge :: "string \<Rightarrow> float64 \<Rightarrow> MemStorage \<Rightarrow> gerr \<times> MemStorage" where
  "Mem_UpdateGauge name v s = (None, s\<lparr>ms_gauges := (ms_gauges s)(name \<mapsto> v)\<rparr>)"

definition Mem_UpdateCounter :: "string \<Rightarrow> int64 \<Rightarrow> MemStorage \<Rightarrow> gerr \<times> MemStorage" where
  "Mem_UpdateCounter name d s = (None, s\<lparr>ms_counters := map_inc (ms_counters s) name d\<rparr>)"

text \<open>The body of the loop of \<open>updateMetricsLocked\<close>, then the loop.\<close>

definition update_metric :: "Metrics \<Rightarrow> MemStorage \<Rightarrow> MemStorage" where
  "update_metric m s =
     (if MType m = Gauge then
        (case Value m of None \<Rightarrow> s | Some v \<Rightarrow> s\<lparr>ms_gauges := (ms_gauges s)(ID m \<mapsto> v)\<rparr>)
      else if MType m = Counter then
        (case Delta m of None \<Rightarrow> s | Some d \<Rightarrow> s\<lparr>ms_counters := map_inc (ms_counters s) (ID m) d\<rparr>)
      else s)"

fun updateMetricsLocked :: "Metrics list \<Rightarrow> MemStorage \<Rightarrow> MemStorage" where
  "updateMetricsLocked [] s = s"
| "updateMetricsLocked (m # ms) s = updateMetricsLocked ms (update_metric m s)"

definition Mem_UpdateMetrics :: "Metrics list \<Rightarrow> MemStorage \<Rightarrow> gerr \<times> MemStorage" where
  "Mem_UpdateMetrics ms s = (None, updateMetricsLocked ms s)"

definition Mem_UpdateMetricsOnce :: "string \<Rightarrow> string \<Rightarrow> Metrics list \<Rightarrow> MemStorage \<Rightarrow> (bool \<times> gerr) \<times> MemStorage" where
  "Mem_UpdateMetricsOnce key fingerprint ms s =
     (case ms_receipts s key of
        Some previous \<Rightarrow> if previous \<noteq> fingerprint then ((False, Some ErrConflict), s) else ((False, None), s)
      | None \<Rightarrow> let s' = updateMetricsLocked ms s
                in ((True, None), s'\<lparr>ms_receipts := (ms_receipts s')(key \<mapsto> fingerprint)\<rparr>))"

section \<open>Reads\<close>

definition Mem_GetGauge :: "MemStorage \<Rightarrow> string \<Rightarrow> float64 option" where
  "Mem_GetGauge s name = ms_gauges s name"

definition Mem_GetCounter :: "MemStorage \<Rightarrow> string \<Rightarrow> int64 option" where
  "Mem_GetCounter s name = ms_counters s name"

definition Mem_GetAllGauges :: "string list \<Rightarrow> MemStorage \<Rightarrow> float64 gomap" where
  "Mem_GetAllGauges ks s = copy_loop (ms_gauges s) ks Map.empty"

definition Mem_GetAllCounters :: "string list \<Rightarrow> MemStorage \<Rightarrow> int64 gomap" where
  "Mem_GetAllCounters ks s = copy_loop (ms_counters s) ks Map.empty"

lemma Mem_Get_eq [simp]: "Mem_GetGauge s = ms_gauges s" "Mem_GetCounter s = ms_counters s"
  by (simp_all add: fun_eq_iff Mem_GetGauge_def Mem_GetCounter_def)

section \<open>What an update does\<close>

text \<open>The summary of a batch: the deltas it carries for a counter, the value it leaves in a gauge.\<close>

definition metric_delta :: "string \<Rightarrow> Metrics \<Rightarrow> int64" where
  "metric_delta n m = (if MType m = Counter \<and> ID m = n then (case Delta m of None \<Rightarrow> 0 | Some d \<Rightarrow> d) else 0)"

definition batch_delta :: "string \<Rightarrow> Metrics list \<Rightarrow> int64" where
  "batch_delta n ms = sum_list (map (metric_delta n) ms)"

fun batch_gauge :: "string \<Rightarrow> Metrics list \<Rightarrow> float64 option \<Rightarrow> float64 option" where
  "batch_gauge n [] g = g"
| "batch_gauge n (m # ms) g =
     batch_gauge n ms (if MType m = Gauge \<and> ID m = n \<and> Value m \<noteq> None then Value m else g)"

lemma update_metric_receipts [simp]: "ms_receipts (update_metric m s) = ms_receipts s"
  by (auto simp: update_metric_def split: option.splits)

lemma updateMetricsLocked_receipts [simp]: "ms_receipts (updateMetricsLocked ms s) = ms_receipts s"
  by (induction ms arbitrary: s) auto

lemma updateMetricsLocked_append:
  "updateMetricsLocked (xs @ ys) s = updateMetricsLocked ys (updateMetricsLocked xs s)"
  by (induction xs arbitrary: s) auto

lemma update_metric_counter:
  "map_get0 (ms_counters (update_metric m s)) n = map_get0 (ms_counters s) n + metric_delta n m"
  by (auto simp: update_metric_def metric_delta_def go_map split: option.splits)

lemma batch_delta_simps [simp]:
  "batch_delta n [] = 0" "batch_delta n (m # ms) = metric_delta n m + batch_delta n ms"
  "batch_delta n (xs @ ys) = batch_delta n xs + batch_delta n ys"
  by (simp_all add: batch_delta_def)

lemma updateMetricsLocked_counter:
  "map_get0 (ms_counters (updateMetricsLocked ms s)) n = map_get0 (ms_counters s) n + batch_delta n ms"
  by (induction ms arbitrary: s) (auto simp: update_metric_counter)

lemma updateMetricsLocked_gauge:
  "ms_gauges (updateMetricsLocked ms s) n = batch_gauge n ms (ms_gauges s n)"
proof (induction ms arbitrary: s)
  case (Cons m ms)
  have "ms_gauges (update_metric m s) n =
      (if MType m = Gauge \<and> ID m = n \<and> Value m \<noteq> None then Value m else ms_gauges s n)"
    by (auto simp: update_metric_def split: option.splits)
  with Cons show ?case by simp
qed simp

text \<open>The content of a storage without its receipts, and the effect of a batch on it.\<close>

type_synonym content = "float64 gomap \<times> int64 gomap"

definition mem_content :: "MemStorage \<Rightarrow> content" where
  "mem_content s = (ms_gauges s, ms_counters s)"

definition mem_apply :: "Metrics list \<Rightarrow> content \<Rightarrow> content" where
  "mem_apply ms c = mem_content (updateMetricsLocked ms \<lparr>ms_gauges = fst c, ms_counters = snd c, ms_receipts = Map.empty\<rparr>)"

lemma update_metric_content:
  "mem_content s = mem_content t \<Longrightarrow> mem_content (update_metric m s) = mem_content (update_metric m t)"
  by (auto simp: mem_content_def update_metric_def split: option.splits)

lemma updateMetricsLocked_content:
  "mem_content s = mem_content t \<Longrightarrow>
   mem_content (updateMetricsLocked ms s) = mem_content (updateMetricsLocked ms t)"
proof (induction ms arbitrary: s t)
  case (Cons m ms)
  show ?case using Cons.IH [OF update_metric_content [OF Cons.prems]] by simp
qed simp

lemma mem_content_update: "mem_content (updateMetricsLocked ms s) = mem_apply ms (mem_content s)"
  unfolding mem_apply_def by (rule updateMetricsLocked_content) (simp add: mem_content_def)

lemma mem_apply_Cons: "mem_apply (m # ms) c = mem_apply ms (mem_apply [m] c)"
proof -
  let ?s = "\<lparr>ms_gauges = fst c, ms_counters = snd c, ms_receipts = Map.empty\<rparr>"
  have "mem_apply (m # ms) c = mem_content (updateMetricsLocked ms (update_metric m ?s))"
    by (simp add: mem_apply_def)
  also have "\<dots> = mem_apply ms (mem_content (update_metric m ?s))"
    by (rule mem_content_update)
  also have "mem_content (update_metric m ?s) = mem_apply [m] c"
    by (simp add: mem_apply_def)
  finally show ?thesis .
qed

section \<open>The storage contracts\<close>

interpretation mem_repo: metrics_repository Mem_UpdateGauge Mem_UpdateCounter ms_gauges ms_counters "\<lambda>_. True"
  by unfold_locales (auto simp: Mem_UpdateGauge_def Mem_UpdateCounter_def map_inc_def)

interpretation mem_once: idempotent_repository Mem_UpdateMetricsOnce mem_content mem_apply ms_receipts
proof unfold_locales
  fix k f ms r res r'
  assume "Mem_UpdateMetricsOnce k f ms r = (res, r')"
  then show "mem_content r' = mem_content r \<and> ms_receipts r' = ms_receipts r
      \<or> ms_receipts r k = None \<and> mem_content r' = mem_apply ms (mem_content r)
        \<and> ms_receipts r' = (ms_receipts r)(k \<mapsto> f)"
    using mem_content_update [of ms r]
    by (auto simp: Mem_UpdateMetricsOnce_def Let_def mem_content_def split: option.splits if_splits)
next
  fix k f ms r a r'
  assume "Mem_UpdateMetricsOnce k f ms r = ((a, None), r')"
  then show "ms_receipts r' k = Some f"
    by (auto simp: Mem_UpdateMetricsOnce_def Let_def split: option.splits if_splits)
qed

text \<open>
  C6. The in-memory storage applies every keyed batch at most once and every acknowledged one exactly
  once: for any sequence of \<open>UpdateMetricsOnce\<close> calls, duplicates and conflicting reuses of keys
  included, the content is that of some requests \<open>done\<close> with pairwise different fresh keys, and
  acknowledged requests have their receipt.
\<close>

theorem mem_exactly_once:
  "case deliver_all Mem_UpdateMetricsOnce qs s of
     (ress, s') \<Rightarrow> \<exists>done. exactly_once mem_content mem_apply ms_receipts qs ress s s' done"
  by (auto split: prod.splits intro: mem_once.deliver_all_exactly_once)

lemma deliver_all_counters:
  assumes "inj_on rq_key (set qs)"
    and "\<forall>q \<in> set qs. ms_receipts s (rq_key q) \<in> {None, Some (rq_fp q)}"
  shows "map_get0 (ms_counters (snd (deliver_all Mem_UpdateMetricsOnce qs s))) n =
           map_get0 (ms_counters s) n
           + (\<Sum>q | q \<in> set qs \<and> ms_receipts s (rq_key q) = None. batch_delta n (rq_metrics q))
         \<and> (\<forall>res \<in> set (fst (deliver_all Mem_UpdateMetricsOnce qs s)). snd res = None)"
  using assms
proof (induction qs arbitrary: s)
  case (Cons q qs)
  show ?case
  proof (cases "ms_receipts s (rq_key q)")
    case None
    let ?s = "(updateMetricsLocked (rq_metrics q) s)\<lparr>ms_receipts := (ms_receipts s)(rq_key q \<mapsto> rq_fp q)\<rparr>"
    have step: "Mem_UpdateMetricsOnce (rq_key q) (rq_fp q) (rq_metrics q) s = ((True, None), ?s)"
      using None by (simp add: Mem_UpdateMetricsOnce_def Let_def)
    have key: "p = q" if "p \<in> set qs" "rq_key p = rq_key q" for p
      using inj_onD [OF Cons.prems(1) that(2)] that(1) by simp
    have "{p. p \<in> set (q # qs) \<and> ms_receipts s (rq_key p) = None} =
        insert q {p. p \<in> set qs \<and> ms_receipts ?s (rq_key p) = None}"
      using None key by auto
    moreover have "\<forall>p \<in> set qs. ms_receipts ?s (rq_key p) \<in> {None, Some (rq_fp p)}"
      using Cons.prems(2) key by auto
    ultimately show ?thesis
      using Cons.IH [of ?s] Cons.prems(1) step
      by (auto simp: updateMetricsLocked_counter inj_on_insert add.assoc split: prod.splits)
  next
    case (Some f)
    then have "Mem_UpdateMetricsOnce (rq_key q) (rq_fp q) (rq_metrics q) s = ((False, None), s)"
      using Cons.prems(2) by (simp add: Mem_UpdateMetricsOnce_def)
    moreover have "{p. p \<in> set (q # qs) \<and> ms_receipts s (rq_key p) = None} =
        {p. p \<in> set qs \<and> ms_receipts s (rq_key p) = None}"
      using Some by auto
    ultimately show ?thesis
      using Cons.IH [of s] Cons.prems by (auto simp: inj_on_insert split: prod.splits)
  qed
qed simp

text \<open>
  C17. Requests with keys of their own may arrive in any order and any number of times: every call
  succeeds, and each counter ends at its start value plus the deltas of each request once. The result
  depends only on the set of requests, not on the list.
\<close>

theorem mem_delivery_order_irrelevant:
  assumes "inj_on rq_key (set qs)" and "\<forall>q \<in> set qs. ms_receipts s (rq_key q) = None"
  shows "map_get0 (ms_counters (snd (deliver_all Mem_UpdateMetricsOnce qs s))) n =
           map_get0 (ms_counters s) n + (\<Sum>q \<in> set qs. batch_delta n (rq_metrics q))
         \<and> list_all (\<lambda>(applied, err). err = None) (fst (deliver_all Mem_UpdateMetricsOnce qs s))"
proof -
  have "{q. q \<in> set qs \<and> ms_receipts s (rq_key q) = None} = set qs" using assms(2) by auto
  with deliver_all_counters [OF assms(1), of s n] assms(2) show ?thesis
    by (auto simp: list_all_iff)
qed

lemma mem_delivery_order_irrelevant_witness:
  "let q = \<lparr>rq_key = ''k1'', rq_fp = ''f1'', rq_metrics = [counter_metric ''c'' 5]\<rparr>;
       p = \<lparr>rq_key = ''k2'', rq_fp = ''f2'', rq_metrics = [counter_metric ''c'' 7]\<rparr>
   in map_get0 (ms_counters (snd (deliver_all Mem_UpdateMetricsOnce [q, p, q, p, p] NewMemStorage))) ''c'' = 12"
proof -
  let ?q = "\<lparr>rq_key = ''k1'', rq_fp = ''f1'', rq_metrics = [counter_metric ''c'' 5]\<rparr>"
  let ?p = "\<lparr>rq_key = ''k2'', rq_fp = ''f2'', rq_metrics = [counter_metric ''c'' 7]\<rparr>"
  have "inj_on rq_key (set [?q, ?p, ?q, ?p, ?p])" by (auto simp: inj_on_def)
  moreover have "\<forall>q \<in> set [?q, ?p, ?q, ?p, ?p]. ms_receipts NewMemStorage (rq_key q) = None"
    by (simp add: NewMemStorage_def)
  moreover have "(\<Sum>q \<in> set [?q, ?p, ?q, ?p, ?p]. batch_delta ''c'' (rq_metrics q)) = 12"
    by (simp add: insert_commute metric_delta_def)
  ultimately show ?thesis
    using mem_delivery_order_irrelevant [of "[?q, ?p, ?q, ?p, ?p]" NewMemStorage "''c''"]
    by (simp only: Let_def) (simp add: NewMemStorage_def)
qed

text \<open>
  After any history of plain updates, a name that was used as a counter only reads as its start
  value plus all deltas modulo \<open>2\<^sup>6\<^sup>4\<close>, and a name that was used as a gauge only reads as the last value
  written.
\<close>

theorem mem_history:
  assumes "run_updates Mem_UpdateGauge Mem_UpdateCounter us s = Some s'"
  shows "(\<not> list_ex (updates_gauge n) us \<longrightarrow>
            map_get0 (Mem_GetCounter s') n = map_get0 (Mem_GetCounter s) n + counter_total n us)
       \<and> (\<not> list_ex (updates_counter n) us \<longrightarrow> Mem_GetGauge s' n = last_gauge n us (Mem_GetGauge s n))"
  using mem_repo.counter_history [OF TrueI assms] mem_repo.gauge_history [OF TrueI assms]
  by simp

lemma mem_history_witness:
  "\<exists>s'. run_updates Mem_UpdateGauge Mem_UpdateCounter
          [UpCounter ''c'' (2 ^ 63 - 1), UpGauge ''g'' 7, UpCounter ''c'' 1] NewMemStorage = Some s'
      \<and> map_get0 (Mem_GetCounter s') ''c'' = 2 ^ 63 \<and> Mem_GetGauge s' ''g'' = Some 7"
proof -
  let ?us = "[UpCounter ''c'' (2 ^ 63 - 1), UpGauge ''g'' 7, UpCounter ''c'' 1]"
  obtain s' where s': "run_updates Mem_UpdateGauge Mem_UpdateCounter ?us NewMemStorage = Some s'"
    by (simp add: Mem_UpdateGauge_def Mem_UpdateCounter_def)
  from mem_history [OF s', of "''c''"] mem_history [OF s', of "''g''"] s' show ?thesis
    by (simp add: updates_simps NewMemStorage_def)
qed

end
