(* ===== verification/Mem_File.thy ===== *)
theory Mem_File
  imports Mem_Storage
begin

text \<open>
  The file side of \<open>internal/repository/memory.go\<close>: the snapshot of the maps as records, \<open>SaveToFile\<close>
  with its temporary file and rename, \<open>loadFromFile\<close> and the restoring constructor. Shown: whatever
  system call fails, the storage file is the old one or the complete new one; a saved storage is
  restored to the same storage; a stored NaN or infinity makes every later save fail.
\<close>

section \<open>Snapshots\<close>

text \<open>The two \<open>range\<close> loops; \<open>gks\<close> and \<open>cks\<close> are the orders in which they visit the keys.\<close>

definition snapshot_gauges :: "float64 gomap \<Rightarrow> string list \<Rightarrow> Metrics list" where
  "snapshot_gauges m ks = List.map_filter (\<lambda>k. map_option (gauge_metric k) (m k)) ks"

definition snapshot_counters :: "int64 gomap \<Rightarrow> string list \<Rightarrow> Metrics list" where
  "snapshot_counters m ks = List.map_filter (\<lambda>k. map_option (counter_metric k) (m k)) ks"

definition snapshotMetricsLocked :: "string list \<Rightarrow> string list \<Rightarrow> MemStorage \<Rightarrow> Metrics list" where
  "snapshotMetricsLocked gks cks s = snapshot_gauges (ms_gauges s) gks @ snapshot_counters (ms_counters s) cks"

definition snapshotMetrics :: "string list \<Rightarrow> string list \<Rightarrow> MemStorage \<Rightarrow> Metrics list" where
  "snapshotMetrics = snapshotMetricsLocked"

text \<open>Receipts ride on the first record, if there is one.\<close>

definition fileSnapshot :: "string list \<Rightarrow> string list \<Rightarrow> string list \<Rightarrow> MemStorage \<Rightarrow> snapshotRecord list" where
  "fileSnapshot gks cks rks s =
     (let records = map (\<lambda>m. \<lparr>rec_Metrics = m, rec_Receipts = Map.empty\<rparr>) (snapshotMetricsLocked gks cks s)
      in case records of
           [] \<Rightarrow> []
         | r # rs \<Rightarrow> if ms_receipts s \<noteq> Map.empty
                     then r\<lparr>rec_Receipts := copy_loop (ms_receipts s) rks Map.empty\<rparr> # rs
                     else r # rs)"

text \<open>The three orders of one snapshot, and that they are orders of the storage's maps.\<close>

record orders =
  ord_gauges :: "string list"
  ord_counters :: "string list"
  ord_receipts :: "string list"

definition orders_of :: "MemStorage \<Rightarrow> orders \<Rightarrow> bool" where
  "orders_of s o' \<longleftrightarrow> range_order (ms_gauges s) (ord_gauges o') \<and> range_order (ms_counters s) (ord_counters o')
     \<and> range_order (ms_receipts s) (ord_receipts o')"

definition records_of :: "orders \<Rightarrow> MemStorage \<Rightarrow> snapshotRecord list" where
  "records_of o' s = fileSnapshot (ord_gauges o') (ord_counters o') (ord_receipts o') s"

section \<open>SaveToFile\<close>

type_synonym fs = "string \<rightharpoonup> bytes"

text \<open>
  The outcomes of the system calls of one \<open>SaveToFile\<close>: \<open>filepath.Dir(path)\<close>, the name
  \<open>os.CreateTemp\<close> chose, and the error of each call. \<open>io_written\<close> is what a failing write left in the
  temporary file.
\<close>

record save_io =
  io_dir :: string
  io_mkdir :: gerr
  io_create :: gerr
  io_temp :: string
  io_write :: gerr
  io_written :: bytes
  io_chmod :: gerr
  io_close :: gerr
  io_rename :: gerr

definition wrap :: "string \<Rightarrow> goerror \<Rightarrow> gerr" where
  "wrap msg e = Some (WrapError msg [e])"

text \<open>\<open>closeErr := tempFile.Close()\<close> on an error path: both errors are joined.\<close>

definition close_after :: "save_io \<Rightarrow> string \<Rightarrow> string \<Rightarrow> goerror \<Rightarrow> gerr" where
  "close_after io both one e =
     (case io_close io of Some c \<Rightarrow> wrap both (JoinError [e, c]) | None \<Rightarrow> wrap one e)"

definition newline :: bytes where
  "newline = [char_of (10 :: nat)]"

text \<open>\<open>json.NewEncoder(tempFile).Encode(records)\<close>: the encoding error comes before any write.\<close>

definition encode_to :: "golib \<Rightarrow> save_io \<Rightarrow> snapshotRecord list \<Rightarrow> gerr \<times> bytes" where
  "encode_to lib io records =
     (case json_of_records lib records of
        None \<Rightarrow> (Some unsupported_value, [])
      | Some j \<Rightarrow> (case io_write io of
                    Some e \<Rightarrow> (Some e, io_written io)
                  | None \<Rightarrow> (None, json_print j @ newline)))"

text \<open>The body after \<open>defer os.Remove(tempName)\<close>; the caller runs the deferred removal.\<close>

definition save_body :: "golib \<Rightarrow> save_io \<Rightarrow> snapshotRecord list \<Rightarrow> string \<Rightarrow> fs \<Rightarrow> gerr \<times> fs" where
  "save_body lib io records path fs =
     (let (err, data) = encode_to lib io records; fs1 = fs(io_temp io \<mapsto> data) in
      case err of
        Some e \<Rightarrow> (close_after io ''failed to encode and close temp file'' ''failed to encode metrics'' e, fs1)
      | None \<Rightarrow>
        (case io_chmod io of
           Some e \<Rightarrow> (close_after io ''failed to chmod and close temp file'' ''failed to chmod temp file'' e, fs1)
         | None \<Rightarrow>
           (case io_close io of
              Some e \<Rightarrow> (wrap ''failed to close the temp file'' e, fs1)
            | None \<Rightarrow>
              (case io_rename io of
                 Some e \<Rightarrow> (wrap ''failed to replace storage file'' e, fs1)
               | None \<Rightarrow> (None, fs1(path := fs1 (io_temp io), io_temp io := None))))))"

definition SaveToFile :: "golib \<Rightarrow> save_io \<Rightarrow> orders \<Rightarrow> string \<Rightarrow> MemStorage \<Rightarrow> fs \<Rightarrow> gerr \<times> fs" where
  "SaveToFile lib io o' path s fs =
     (case (if io_dir io \<noteq> ''.'' then io_mkdir io else None) of
        Some e \<Rightarrow> (wrap ''failed to create storage directory'' e, fs)
      | None \<Rightarrow>
        (case io_create io of
           Some e \<Rightarrow> (wrap ''failed to create temp file'' e, fs)
         | None \<Rightarrow>
           (let (err, fs') = save_body lib io (records_of o' s) path (fs(io_temp io \<mapsto> []))
            in (err, fs'(io_temp io := None)))))"

text \<open>\<open>os.CreateTemp\<close> creates a new file, so its name is that of no existing file and not the target.\<close>

definition fresh_temp :: "save_io \<Rightarrow> string \<Rightarrow> fs \<Rightarrow> bool" where
  "fresh_temp io path fs \<longleftrightarrow> io_temp io \<noteq> path \<and> fs (io_temp io) = None"

lemma close_after_Some [simp]: "close_after io a b e \<noteq> None"
  by (auto simp: close_after_def wrap_def split: option.splits)

lemma save_body_error:
  "save_body lib io recs path fs = (Some e, fs') \<Longrightarrow> fs'(io_temp io := None) = fs(io_temp io := None)"
  by (auto simp: save_body_def wrap_def Let_def split: option.splits prod.splits)

lemma save_body_ok:
  assumes "save_body lib io recs path fs = (None, fs')"
  shows "\<exists>j. json_of_records lib recs = Some j \<and> fs' = fs(path \<mapsto> json_print j @ newline, io_temp io := None)"
  using assms
  by (auto simp: save_body_def encode_to_def wrap_def Let_def fun_upd_twist split: option.splits prod.splits)

lemma SaveToFile_cases:
  assumes "SaveToFile lib io o' path s fs = (err, fs')"
  obtains (fail) e where "err = Some e" "fs' = fs"
    | (body) fs1 where "save_body lib io (records_of o' s) path (fs(io_temp io \<mapsto> [])) = (err, fs1)"
        "fs' = fs1(io_temp io := None)"
proof (cases "if io_dir io \<noteq> ''.'' then io_mkdir io else None")
  case (Some e)
  with assms have "err = wrap ''failed to create storage directory'' e" "fs' = fs"
    by (simp_all add: SaveToFile_def)
  then show ?thesis by (intro fail) (simp_all add: wrap_def)
next
  case mk: None
  show ?thesis
  proof (cases "io_create io")
    case (Some e)
    with mk assms have "err = wrap ''failed to create temp file'' e" "fs' = fs"
      by (simp_all add: SaveToFile_def)
    then show ?thesis by (intro fail) (simp_all add: wrap_def)
  next
    case None
    obtain e fs1 where b: "save_body lib io (records_of o' s) path (fs(io_temp io \<mapsto> [])) = (e, fs1)"
      by fastforce
    with mk None assms have "err = e" "fs' = fs1(io_temp io := None)"
      by (simp_all add: SaveToFile_def)
    with b show ?thesis by (intro body) simp_all
  qed
qed

text \<open>A save either fails and changes no file, or succeeds and replaces exactly the target.\<close>

lemma SaveToFile_result:
  assumes "fresh_temp io path fs" "SaveToFile lib io o' path s fs = (err, fs')"
  shows "case err of
           Some _ \<Rightarrow> fs' = fs
         | None \<Rightarrow> \<exists>j. json_of_records lib (records_of o' s) = Some j \<and> fs' = fs(path \<mapsto> json_print j @ newline)"
  using assms(2)
proof (cases rule: SaveToFile_cases)
  case (fail e)
  then show ?thesis by simp
next
  case (body fs1)
  let ?fs = "fs(io_temp io \<mapsto> [])"
  have clean: "?fs(io_temp io := None) = fs" using assms(1) by (auto simp: fresh_temp_def)
  show ?thesis
  proof (cases err)
    case (Some e)
    with save_body_error [of lib io _ path ?fs e fs1] body clean show ?thesis by simp
  next
    case None
    with body have "save_body lib io (records_of o' s) path ?fs = (None, fs1)" by simp
    from save_body_ok [OF this] obtain j where j: "json_of_records lib (records_of o' s) = Some j"
      "fs1 = ?fs(path \<mapsto> json_print j @ newline, io_temp io := None)" by blast
    have "fs1(io_temp io := None) = fs(path \<mapsto> json_print j @ newline)"
      using assms(1) unfolding j(2) by (auto simp: fresh_temp_def fun_eq_iff)
    with None j(1) body show ?thesis by simp
  qed
qed

section \<open>Restoring\<close>

definition ErrNotExist :: goerror where
  "ErrNotExist = Sentinel ''file does not exist''"

text \<open>\<open>os.ReadFile\<close>: a failure of the device, a missing file, or the contents.\<close>

definition ReadFile :: "gerr \<Rightarrow> fs \<Rightarrow> string \<Rightarrow> goerror + bytes" where
  "ReadFile fault fs path =
     (case fault of
        Some e \<Rightarrow> Inl e
      | None \<Rightarrow> (case fs path of None \<Rightarrow> Inl ErrNotExist | Some data \<Rightarrow> Inr data))"

definition restore_metric :: "Metrics \<Rightarrow> MemStorage \<Rightarrow> MemStorage" where
  "restore_metric m s =
     (if MType m = Gauge then
        (case Value m of None \<Rightarrow> s | Some v \<Rightarrow> s\<lparr>ms_gauges := (ms_gauges s)(ID m \<mapsto> v)\<rparr>)
      else if MType m = Counter then
        (case Delta m of None \<Rightarrow> s | Some d \<Rightarrow> s\<lparr>ms_counters := (ms_counters s)(ID m \<mapsto> d)\<rparr>)
      else s)"

text \<open>The loop of \<open>loadFromFile\<close>; its inner loop adds the record's receipts to the map.\<close>

fun restore_records :: "snapshotRecord list \<Rightarrow> MemStorage \<Rightarrow> MemStorage" where
  "restore_records [] s = s"
| "restore_records (r # rs) s =
     restore_records rs (restore_metric (rec_Metrics r) (s\<lparr>ms_receipts := ms_receipts s ++ rec_Receipts r\<rparr>))"

definition loadFromFile :: "golib \<Rightarrow> gerr \<Rightarrow> fs \<Rightarrow> string \<Rightarrow> MemStorage \<Rightarrow> goerror + MemStorage" where
  "loadFromFile lib fault fs path s =
     (case ReadFile fault fs path of
        Inl e \<Rightarrow> if errors_Is e ''file does not exist'' then Inr s
                 else Inl (WrapError ''failed to read storage file'' [e])
      | Inr data \<Rightarrow>
        (case json_read data of
           None \<Rightarrow> Inl (WrapError ''failed to unmarshal metrics'' [ErrorString ''json: syntax error''])
         | Some j \<Rightarrow>
           (case records_of_json lib j of
              None \<Rightarrow> Inl (WrapError ''failed to unmarshal metrics'' [ErrorString ''json: cannot unmarshal''])
            | Some recs \<Rightarrow>
              Inr (restore_records recs \<lparr>ms_gauges = Map.empty, ms_counters = Map.empty, ms_receipts = Map.empty\<rparr>))))"

definition NewMemStorageWithRestore :: "golib \<Rightarrow> gerr \<Rightarrow> fs \<Rightarrow> string \<Rightarrow> bool \<Rightarrow> goerror + MemStorage" where
  "NewMemStorageWithRestore lib fault fs path restore =
     (if \<not> restore then Inr NewMemStorage else loadFromFile lib fault fs path NewMemStorage)"

section \<open>Save, then restore\<close>

lemma restore_metric_receipts_upd [simp]:
  "restore_metric m (s\<lparr>ms_receipts := x\<rparr>) = (restore_metric m s)\<lparr>ms_receipts := x\<rparr>"
  "ms_receipts (restore_metric m s) = ms_receipts s"
  by (auto simp: restore_metric_def split: option.splits)

lemma fold_restore_receipts [simp]:
  "fold restore_metric ms (s\<lparr>ms_receipts := x\<rparr>) = (fold restore_metric ms s)\<lparr>ms_receipts := x\<rparr>"
  "ms_receipts (fold restore_metric ms s) = ms_receipts s"
  by (induction ms arbitrary: s) auto

lemma restore_records_eq:
  "restore_records rs s =
     (fold restore_metric (map rec_Metrics rs) s)
       \<lparr>ms_receipts := fold (\<lambda>r m. m ++ rec_Receipts r) rs (ms_receipts s)\<rparr>"
  by (induction rs arbitrary: s) auto

lemma restrict_insert_add:
  "m k = Some v \<Longrightarrow> (a(k \<mapsto> v)) ++ m |` X = a ++ m |` insert k X"
  "m k = None \<Longrightarrow> a ++ m |` insert k X = a ++ m |` X"
  by (auto simp: fun_eq_iff map_add_def restrict_map_def split: option.splits)

lemma fold_restore_gauges:
  "fold restore_metric (snapshot_gauges m ks) s = s\<lparr>ms_gauges := ms_gauges s ++ m |` set ks\<rparr>"
proof (induction ks arbitrary: s)
  case (Cons k ks)
  show ?case
  proof (cases "m k")
    case None
    then show ?thesis using Cons by (simp add: snapshot_gauges_def List.map_filter_simps restrict_insert_add(2))
  next
    case (Some v)
    then have "fold restore_metric (snapshot_gauges m (k # ks)) s =
        fold restore_metric (snapshot_gauges m ks) (s\<lparr>ms_gauges := (ms_gauges s)(k \<mapsto> v)\<rparr>)"
      by (simp add: snapshot_gauges_def List.map_filter_simps restore_metric_def)
    also have "\<dots> = s\<lparr>ms_gauges := ms_gauges s ++ m |` set (k # ks)\<rparr>"
      unfolding Cons.IH using restrict_insert_add(1) [of m k v "ms_gauges s" "set ks", OF Some] by simp
    finally show ?thesis .
  qed
qed (simp add: snapshot_gauges_def List.map_filter_simps)

lemma fold_restore_counters:
  "fold restore_metric (snapshot_counters m ks) s = s\<lparr>ms_counters := ms_counters s ++ m |` set ks\<rparr>"
proof (induction ks arbitrary: s)
  case (Cons k ks)
  show ?case
  proof (cases "m k")
    case None
    then show ?thesis using Cons by (simp add: snapshot_counters_def List.map_filter_simps restrict_insert_add(2))
  next
    case (Some v)
    then have "fold restore_metric (snapshot_counters m (k # ks)) s =
        fold restore_metric (snapshot_counters m ks) (s\<lparr>ms_counters := (ms_counters s)(k \<mapsto> v)\<rparr>)"
      by (simp add: snapshot_counters_def List.map_filter_simps restore_metric_def)
    also have "\<dots> = s\<lparr>ms_counters := ms_counters s ++ m |` set (k # ks)\<rparr>"
      unfolding Cons.IH using restrict_insert_add(1) [of m k v "ms_counters s" "set ks", OF Some] by simp
    finally show ?thesis .
  qed
qed (simp add: snapshot_counters_def List.map_filter_simps)

lemma records_of_metrics: "map rec_Metrics (records_of o' s) = snapshotMetricsLocked (ord_gauges o') (ord_counters o') s"
  by (auto simp: records_of_def fileSnapshot_def Let_def comp_def split: list.splits)

text \<open>Receipts can only be stored next to a metric.\<close>

definition receipts_anchored :: "MemStorage \<Rightarrow> bool" where
  "receipts_anchored s \<longleftrightarrow> (ms_gauges s = Map.empty \<and> ms_counters s = Map.empty \<longrightarrow> ms_receipts s = Map.empty)"

lemma fold_add_empty: "(\<forall>r \<in> set rs. rec_Receipts r = Map.empty) \<Longrightarrow> fold (\<lambda>r m. m ++ rec_Receipts r) rs x = x"
  by (induction rs arbitrary: x) auto

lemma snapshot_Nil_iff:
  assumes "orders_of s o'"
  shows "snapshotMetricsLocked (ord_gauges o') (ord_counters o') s = [] \<longleftrightarrow> ms_gauges s = Map.empty \<and> ms_counters s = Map.empty"
proof -
  have "List.map_filter f ks = [] \<longleftrightarrow> (\<forall>k \<in> set ks. f k = None)" for f :: "string \<Rightarrow> Metrics option" and ks
    by (auto simp: List.map_filter_def filter_empty_conv)
  with assms show ?thesis
    by (auto simp: snapshotMetricsLocked_def snapshot_gauges_def snapshot_counters_def orders_of_def range_order_def
        fun_eq_iff domIff)
qed

lemma records_of_receipts:
  assumes "orders_of s o'" "receipts_anchored s"
  shows "fold (\<lambda>r m. m ++ rec_Receipts r) (records_of o' s) Map.empty = ms_receipts s"
proof (cases "snapshotMetricsLocked (ord_gauges o') (ord_counters o') s")
  case Nil
  with assms snapshot_Nil_iff [OF assms(1)] show ?thesis
    by (simp add: records_of_def fileSnapshot_def receipts_anchored_def)
next
  case (Cons m ms)
  have "copy_loop (ms_receipts s) (ord_receipts o') Map.empty = ms_receipts s"
    using assms(1) by (simp add: orders_of_def copy_loop_range)
  with Cons show ?thesis
    by (auto simp: records_of_def fileSnapshot_def Let_def fold_add_empty)
qed

lemma restore_snapshot:
  assumes "orders_of s o'" "receipts_anchored s"
  shows "restore_records (records_of o' s) NewMemStorage = s"
proof -
  have "ms_gauges s |` set (ord_gauges o') = ms_gauges s" "ms_counters s |` set (ord_counters o') = ms_counters s"
    using assms(1) by (auto simp: orders_of_def range_order_def fun_eq_iff restrict_map_def domIff)
  then show ?thesis
    using records_of_receipts [OF assms]
    by (simp add: restore_records_eq records_of_metrics snapshotMetricsLocked_def fold_restore_gauges
        fold_restore_counters NewMemStorage_def)
qed

lemma records_of_receipts_cases:
  assumes "orders_of s o'" "r \<in> set (records_of o' s)"
  shows "rec_Receipts r = Map.empty \<or> rec_Receipts r = ms_receipts s"
proof -
  have "copy_loop (ms_receipts s) (ord_receipts o') Map.empty = ms_receipts s"
    using assms(1) by (simp add: orders_of_def copy_loop_range)
  with assms(2) show ?thesis
    by (cases "snapshotMetricsLocked (ord_gauges o') (ord_counters o') s")
       (auto simp: records_of_def fileSnapshot_def split: if_splits)
qed

lemma records_of_finite:
  assumes "orders_of s o'" and "r \<in> set (records_of o' s)"
  shows "finite (dom (rec_Receipts r))"
proof -
  have "finite (dom (ms_receipts s))" using assms(1) by (auto simp: orders_of_def intro: range_order_finite)
  with records_of_receipts_cases [OF assms] show ?thesis by auto
qed

text \<open>The names of the metrics and the receipts are UTF-8, which JSON text keeps.\<close>

definition utf8_storage :: "MemStorage \<Rightarrow> bool" where
  "utf8_storage s \<longleftrightarrow> (\<forall>k. ms_gauges s k \<noteq> None \<or> ms_counters s k \<noteq> None \<longrightarrow> valid_utf8 k) \<and> utf8_map (ms_receipts s)"

lemma newline_space: "list_all json_space newline"
  by (simp add: newline_def json_space_def char_of_eq_iff)

lemma records_of_names:
  assumes "r \<in> set (records_of o' s)"
  shows "\<exists>k. ms_gauges s k \<noteq> None \<and> rec_Metrics r = gauge_metric k (the (ms_gauges s k))
          \<or> ms_counters s k \<noteq> None \<and> rec_Metrics r = counter_metric k (the (ms_counters s k))"
proof -
  from assms have "rec_Metrics r \<in> set (snapshotMetricsLocked (ord_gauges o') (ord_counters o') s)"
    by (metis records_of_metrics image_eqI set_map)
  then show ?thesis
    by (fastforce simp: snapshotMetricsLocked_def snapshot_gauges_def snapshot_counters_def List.map_filter_def)
qed

lemma utf8_records:
  assumes "utf8_storage s" "r \<in> set (records_of o' s)"
  shows "sanitize_record r = r"
proof -
  have "valid_utf8 Gauge" "valid_utf8 Counter" "valid_utf8 []"
    by (auto simp: Gauge_def Counter_def intro!: valid_utf8_ascii)
  with records_of_names [OF assms(2)] assms(1) have "utf8_metric (rec_Metrics r)"
    by (auto simp: utf8_metric_def utf8_storage_def)
  then show ?thesis by (simp add: sanitize_record_def sanitize_utf8_metric)
qed

text \<open>What a restart reads back from a saved file: the records with invalid UTF-8 in the names replaced.\<close>

lemma saved_reads:
  assumes "float_text_ok lib" "utf8_map (ms_receipts s)" "orders_of s o'" "fresh_temp io path fs"
    and "SaveToFile lib io o' path s fs = (None, fs')"
  shows "NewMemStorageWithRestore lib None fs' path True
           = Inr (restore_records (map sanitize_record (records_of o' s)) NewMemStorage)"
proof -
  from SaveToFile_result [OF assms(4,5)] obtain j where j: "json_of_records lib (records_of o' s) = Some j"
    "fs' = fs(path \<mapsto> json_print j @ newline)" by auto
  have fin: "finite (dom (rec_Receipts r)) \<and> utf8_map (rec_Receipts r)" if "r \<in> set (records_of o' s)" for r
    using records_of_finite [OF assms(3) that] records_of_receipts_cases [OF assms(3) that] assms(2)
    by (auto simp: utf8_map_def)
  from records_text [OF assms(1) j(1) newline_space fin] j(2) show ?thesis
    by (simp add: NewMemStorageWithRestore_def loadFromFile_def ReadFile_def NewMemStorage_def)
qed

lemma saved_restores:
  assumes "float_text_ok lib" and "utf8_storage s"
    and "orders_of s o'" and "receipts_anchored s" and "fresh_temp io path fs"
    and "SaveToFile lib io o' path s fs = (None, fs')"
  shows "NewMemStorageWithRestore lib None fs' path True = Inr s"
proof -
  have "map sanitize_record (records_of o' s) = records_of o' s"
    using utf8_records [OF assms(2)] by (auto intro: map_idI)
  with saved_reads [OF assms(1) _ assms(3,5,6)] restore_snapshot [OF assms(3,4)] assms(2) show ?thesis
    by (simp add: utf8_storage_def)
qed

text \<open>The counters a restart finds: every name is replaced by its UTF-8 form.\<close>

lemma fold_restore_counter:
  "ms_counters (fold restore_metric ms s) k \<noteq> None \<longleftrightarrow>
     ms_counters s k \<noteq> None \<or> (\<exists>m \<in> set ms. ID m = k \<and> MType m = Counter \<and> Delta m \<noteq> None)"
proof (induction ms arbitrary: s)
  case (Cons m ms)
  have "ms_counters (restore_metric m s) k \<noteq> None \<longleftrightarrow>
      ms_counters s k \<noteq> None \<or> ID m = k \<and> MType m = Counter \<and> Delta m \<noteq> None"
    by (auto simp: restore_metric_def Counter_def Gauge_def split: option.splits)
  with Cons [of "restore_metric m s"] show ?case by auto
qed simp

lemma restored_counters:
  assumes "orders_of s o'" "s' = restore_records (map sanitize_record (records_of o' s)) NewMemStorage"
  shows "ms_counters s' k \<noteq> None \<Longrightarrow> valid_utf8 k" "ms_counters s n \<noteq> None \<Longrightarrow> ms_counters s' (sanitize n) \<noteq> None"
proof -
  let ?ms = "snapshotMetricsLocked (ord_gauges o') (ord_counters o') s"
  have eq: "ms_counters s' k \<noteq> None \<longleftrightarrow> (\<exists>m \<in> set ?ms. sanitize (ID m) = k \<and> sanitize (MType m) = Counter \<and> Delta m \<noteq> None)" for k
  proof -
    have "map rec_Metrics (map sanitize_record (records_of o' s)) = map sanitize_metric ?ms"
      using records_of_metrics [of o' s] by (simp add: sanitize_record_def flip: records_of_metrics)
    then have "ms_counters s' = ms_counters (fold restore_metric (map sanitize_metric ?ms) NewMemStorage)"
      unfolding assms(2) restore_records_eq by simp
    moreover have "ms_counters NewMemStorage k = None" by (simp add: NewMemStorage_def)
    ultimately show ?thesis
      using fold_restore_counter [of "map sanitize_metric ?ms" NewMemStorage k] by (simp add: sanitize_metric_def)
  qed
  show "ms_counters s' k \<noteq> None \<Longrightarrow> valid_utf8 k" unfolding eq using valid_sanitize by auto
  assume "ms_counters s n \<noteq> None"
  then obtain d where d: "ms_counters s n = Some d" by blast
  then have "counter_metric n d \<in> set ?ms"
    using assms(1)
    by (auto simp: snapshotMetricsLocked_def snapshot_counters_def List.map_filter_def orders_of_def range_order_def image_iff
        intro!: bexI [of _ n])
  moreover have "sanitize Counter = Counter" by (simp add: Counter_def sanitize_ascii)
  ultimately show "ms_counters s' (sanitize n) \<noteq> None" unfolding eq by (intro bexI [of _ "counter_metric n d"]) auto
qed



lemma nan_blocks_saving:
  assumes "ms_gauges s name = Some v" and "\<not> f64_finite v" and "orders_of s o'" and "fresh_temp io path fs"
  shows "case SaveToFile lib io o' path s fs of (err, fs') \<Rightarrow> err \<noteq> None \<and> fs' = fs"
proof -
  have "gauge_metric name v \<in> set (map rec_Metrics (records_of o' s))"
    using assms(1,3)
    by (auto simp: records_of_metrics snapshotMetricsLocked_def snapshot_gauges_def List.map_filter_def
        orders_of_def range_order_def image_iff intro!: bexI [of _ name])
  then obtain r where "r \<in> set (records_of o' s)" "rec_Metrics r = gauge_metric name v" by auto
  then have "json_of_records lib (records_of o' s) = None"
    using assms(2) by (auto simp: json_of_records_None_iff encodable_def intro!: bexI [of _ r])
  moreover obtain err fs' where r: "SaveToFile lib io o' path s fs = (err, fs')" by fastforce
  ultimately show ?thesis using SaveToFile_result [OF assms(4) r] by (auto split: option.splits)
qed

text \<open>A storage, an order and system calls that all succeed, for the witnesses.\<close>

definition good_io :: save_io where
  "good_io = \<lparr>io_dir = ''.'', io_mkdir = None, io_create = None, io_temp = ''tmp'', io_write = None, io_written = [],
     io_chmod = None, io_close = None, io_rename = None\<rparr>"

definition demo_storage :: MemStorage where
  "demo_storage = \<lparr>ms_gauges = [''g'' \<mapsto> 0], ms_counters = [''c'' \<mapsto> 5], ms_receipts = [''k'' \<mapsto> ''f'']\<rparr>"

definition demo_orders :: orders where
  "demo_orders = \<lparr>ord_gauges = [''g''], ord_counters = [''c''], ord_receipts = [''k'']\<rparr>"

lemma demo_orders_of: "orders_of demo_storage demo_orders" "receipts_anchored demo_storage"
  by (auto simp: orders_of_def range_order_def demo_storage_def demo_orders_def receipts_anchored_def)

lemma good_io_fresh: "fresh_temp good_io ''file'' Map.empty"
  by (simp add: fresh_temp_def good_io_def)

lemma demo_SaveToFile:
  "json_of_records lib (records_of o' s) = Some j \<Longrightarrow>
   SaveToFile lib good_io o' ''file'' s Map.empty = (None, [''file'' \<mapsto> json_print j @ newline])"
  by (simp add: SaveToFile_def save_body_def encode_to_def good_io_def Let_def fun_eq_iff)


definition demo_doc :: json where
  "demo_doc = the (json_of_records demo_lib (records_of demo_orders demo_storage))"

lemma demo_doc_records: "json_of_records demo_lib (records_of demo_orders demo_storage) = Some demo_doc"
proof -
  have "list_all (\<lambda>r. encodable (rec_Metrics r)) (records_of demo_orders demo_storage)"
    by (simp add: records_of_def fileSnapshot_def snapshotMetricsLocked_def snapshot_gauges_def snapshot_counters_def
        demo_orders_def demo_storage_def List.map_filter_simps encodable_def)
  then have "json_of_records demo_lib (records_of demo_orders demo_storage) \<noteq> None"
    by (auto simp: json_of_records_None_iff list_all_iff)
  then show ?thesis by (auto simp: demo_doc_def)
qed

lemma demo_utf8: "utf8_storage demo_storage"
  by (auto simp: utf8_storage_def utf8_map_def demo_storage_def intro!: valid_utf8_ascii split: if_splits)


end
