(* ===== verification/Retry.thy ===== *)
theory Retry
  imports Go_Prelude
begin

text \<open>
  \<open>internal/retry\<close>: an operation is run once and repeated after the delays 1s, 3s and 5s as long as
  its error is retriable. The operation and the sleep are state transformers, so every effect of a
  repeated attempt is kept. The locale \<open>retried\<close> is the contract of a repeated operation: what each
  attempt keeps, the whole call keeps; what a successful attempt establishes, a successful call
  establishes.
\<close>

section \<open>Definitions\<close>

text \<open>A \<open>time.Duration\<close> counts nanoseconds; \<open>time.Second\<close> is \<open>10\<^sup>9\<close> of them.\<close>

type_synonym duration = int64

definition time_Second :: duration where
  "time_Second = 1000000000"

definition defaultDelays :: "duration list" where
  "defaultDelays = [time_Second, 3 * time_Second, 5 * time_Second]"

text \<open>\<open>err == nil || !shouldRetry(err)\<close>.\<close>

definition settled :: "(goerror \<Rightarrow> bool) \<Rightarrow> gerr \<Rightarrow> bool" where
  "settled shouldRetry err = (case err of None \<Rightarrow> True | Some e \<Rightarrow> \<not> shouldRetry e)"

fun retry_loop ::
  "('s \<Rightarrow> gerr \<times> 's) \<Rightarrow> (goerror \<Rightarrow> bool) \<Rightarrow> (duration \<Rightarrow> 's \<Rightarrow> 's) \<Rightarrow> duration list \<Rightarrow> gerr \<Rightarrow> 's \<Rightarrow> gerr \<times> 's"
where
  "retry_loop operation shouldRetry sleep [] err s = (err, s)"
| "retry_loop operation shouldRetry sleep (delay # delays) err s =
     (let (err', s') = operation (sleep delay s) in
      if settled shouldRetry err' then (err', s')
      else retry_loop operation shouldRetry sleep delays err' s')"

definition DoWithSleeper ::
  "('s \<Rightarrow> gerr \<times> 's) \<Rightarrow> (goerror \<Rightarrow> bool) \<Rightarrow> (duration \<Rightarrow> 's \<Rightarrow> 's) \<Rightarrow> 's \<Rightarrow> gerr \<times> 's"
where
  "DoWithSleeper operation shouldRetry sleep s =
     (let (err, s') = operation s in
      if settled shouldRetry err then (err, s')
      else retry_loop operation shouldRetry sleep defaultDelays err s')"

text \<open>\<open>Do\<close> passes \<open>time.Sleep\<close>, which changes no state of the program.\<close>

definition Do :: "('s \<Rightarrow> gerr \<times> 's) \<Rightarrow> (goerror \<Rightarrow> bool) \<Rightarrow> 's \<Rightarrow> gerr \<times> 's" where
  "Do operation shouldRetry = DoWithSleeper operation shouldRetry (\<lambda>_ s. s)"

section \<open>The contract of a retried operation\<close>

locale retried =
  fixes operation :: "'s \<Rightarrow> gerr \<times> 's"
    and sleep :: "duration \<Rightarrow> 's \<Rightarrow> 's"
    and keeps :: "'s \<Rightarrow> 's \<Rightarrow> bool"
    and post :: "'s \<Rightarrow> bool"
  assumes keeps_refl: "keeps s s"
    and keeps_trans: "keeps a b \<Longrightarrow> keeps b c \<Longrightarrow> keeps a c"
    and keeps_operation: "keeps s (snd (operation s))"
    and keeps_sleep: "keeps s (sleep d s)"
    and operation_post: "operation s = (None, s') \<Longrightarrow> post s'"
begin

lemma retry_loop_keeps:
  "keeps s (snd (retry_loop operation shouldRetry sleep ds err s))"
proof (induction ds arbitrary: err s)
  case Nil
  then show ?case by (simp add: keeps_refl)
next
  case (Cons d ds)
  let ?s = "snd (operation (sleep d s))"
  have "keeps s ?s" using keeps_trans [OF keeps_sleep keeps_operation] .
  then show ?case
    using Cons.IH keeps_trans by (auto simp: split_beta Let_def)
qed

lemma retry_loop_post:
  "err \<noteq> None \<Longrightarrow> retry_loop operation shouldRetry sleep ds err s = (None, s') \<Longrightarrow> post s'"
proof (induction ds arbitrary: err s)
  case (Cons d ds)
  obtain e t where o: "operation (sleep d s) = (e, t)" by fastforce
  show ?case
  proof (cases "settled shouldRetry e")
    case True
    with Cons.prems o show ?thesis by (auto intro: operation_post)
  next
    case False
    then have "e \<noteq> None" by (auto simp: settled_def split: option.splits)
    with Cons o False show ?thesis by auto
  qed
qed simp

lemma DoWithSleeper_keeps: "keeps s (snd (DoWithSleeper operation shouldRetry sleep s))"
  using keeps_trans [OF keeps_operation retry_loop_keeps] keeps_operation
  by (auto simp: DoWithSleeper_def split_beta Let_def)

lemma DoWithSleeper_post:
  assumes "DoWithSleeper operation shouldRetry sleep s = (None, s')"
  shows "post s'"
proof -
  obtain e t where o: "operation s = (e, t)" by fastforce
  show ?thesis
  proof (cases "settled shouldRetry e")
    case True
    with assms o show ?thesis by (auto simp: DoWithSleeper_def intro: operation_post)
  next
    case False
    then have "e \<noteq> None" by (auto simp: settled_def split: option.splits)
    with assms o False show ?thesis by (auto simp: DoWithSleeper_def intro: retry_loop_post)
  qed
qed

end

text \<open>
  The stronger contract of an operation whose failed attempts change nothing: the whole call then
  changes the content by one step or not at all, however often it was repeated.
\<close>

locale retried_atomic =
  fixes operation :: "'s \<Rightarrow> gerr \<times> 's"
    and sleep :: "duration \<Rightarrow> 's \<Rightarrow> 's"
    and inv :: "'s \<Rightarrow> bool"
    and content :: "'s \<Rightarrow> 'c"
    and step :: "'c \<Rightarrow> 'c \<Rightarrow> bool"
  assumes inv_operation: "inv s \<Longrightarrow> inv (snd (operation s))"
    and inv_sleep: "inv s \<Longrightarrow> inv (sleep d s)"
    and content_sleep: "content (sleep d s) = content s"
    and fail: "inv s \<Longrightarrow> operation s = (Some e, s') \<Longrightarrow> content s' = content s"
    and success: "inv s \<Longrightarrow> operation s = (None, s') \<Longrightarrow> step (content s) (content s')"
begin

text \<open>What one attempt guarantees, as one case distinction on its error.\<close>

lemma attempt:
  assumes "inv s" "operation s = (e, s')"
  shows "inv s' \<and> (case e of None \<Rightarrow> step (content s) (content s') | Some _ \<Rightarrow> content s' = content s)"
  using assms inv_operation [of s] fail [of s _ s'] success [of s s'] by (auto split: option.splits)

lemma retry_loop_atomic:
  assumes "inv s" "err \<noteq> None" "retry_loop operation shouldRetry sleep ds err s = (e, s')"
  shows "inv s' \<and> (case e of None \<Rightarrow> step (content s) (content s') | Some _ \<Rightarrow> content s' = content s)"
  using assms
proof (induction ds arbitrary: err s)
  case (Cons d ds)
  obtain e1 s1 where o: "operation (sleep d s) = (e1, s1)" by fastforce
  note a = attempt [OF inv_sleep [OF Cons.prems(1)] o, unfolded content_sleep]
  show ?case
  proof (cases "settled shouldRetry e1")
    case True
    with a o Cons.prems(3) show ?thesis by auto
  next
    case False
    then have "e1 \<noteq> None" by (auto simp: settled_def split: option.splits)
    with a have "content s1 = content s" "inv s1" by (auto split: option.splits)
    moreover have "retry_loop operation shouldRetry sleep ds e1 s1 = (e, s')"
      using Cons.prems(3) o False by simp
    ultimately show ?thesis using Cons.IH [of s1 e1] \<open>e1 \<noteq> None\<close> by (auto split: option.splits)
  qed
qed (auto split: option.splits)

lemma DoWithSleeper_atomic:
  assumes "inv s" "DoWithSleeper operation shouldRetry sleep s = (e, s')"
  shows "inv s' \<and> (case e of None \<Rightarrow> step (content s) (content s') | Some _ \<Rightarrow> content s' = content s)"
proof -
  obtain e1 s1 where o: "operation s = (e1, s1)" by fastforce
  note a = attempt [OF assms(1) o]
  show ?thesis
  proof (cases "settled shouldRetry e1")
    case True
    with a o assms(2) show ?thesis by (auto simp: DoWithSleeper_def)
  next
    case False
    then have "e1 \<noteq> None" by (auto simp: settled_def split: option.splits)
    with a have "content s1 = content s" "inv s1" by (auto split: option.splits)
    moreover have "retry_loop operation shouldRetry sleep defaultDelays e1 s1 = (e, s')"
      using assms(2) o False by (simp add: DoWithSleeper_def)
    ultimately show ?thesis
      using retry_loop_atomic [of s1 e1 shouldRetry defaultDelays e s'] \<open>e1 \<noteq> None\<close>
      by (auto split: option.splits)
  qed
qed

end

section \<open>The exact schedule of attempts\<close>

text \<open>
  \<open>probe\<close> is an operation whose \<open>n\<close>-th attempt returns \<open>outs n\<close> and which counts its attempts and
  the sleeps between them. It is the instance of the contract that fixes how often and after which
  delays \<open>DoWithSleeper\<close> calls its operation.
\<close>

definition probe :: "(nat \<Rightarrow> gerr) \<Rightarrow> nat \<times> duration list \<Rightarrow> gerr \<times> nat \<times> duration list" where
  "probe outs = (\<lambda>(n, slept). (outs n, Suc n, slept))"

definition probe_sleep :: "duration \<Rightarrow> nat \<times> duration list \<Rightarrow> nat \<times> duration list" where
  "probe_sleep d = (\<lambda>(n, slept). (n, slept @ [d]))"

lemmas probe_simps = probe_def probe_sleep_def

interpretation probe_retried: retried "probe outs" probe_sleep "\<lambda>s t. fst s \<le> fst t" "\<lambda>s. outs (fst s - 1) = None" for outs
  by unfold_locales (auto simp: probe_simps)

text \<open>
  C23. The operation runs \<open>k + 1\<close> times, where \<open>k\<close> is the first attempt (counted from 0) that
  succeeds or fails with an error that is not retriable, and at most three; the sleeps are the first
  \<open>k\<close> of 1s, 3s, 5s; the result is the one of the last attempt.
\<close>

theorem DoWithSleeper_schedule:
  "DoWithSleeper (probe outs) shouldRetry probe_sleep (0, []) =
     (let k = (LEAST i. i = 3 \<or> settled shouldRetry (outs i))
      in (outs k, Suc k, take k [time_Second, 3 * time_Second, 5 * time_Second]))"
proof -
  let ?P = "\<lambda>i. i = (3::nat) \<or> settled shouldRetry (outs i)"
  have least: "(LEAST i. ?P i) = n" if "?P n" "\<And>i. i < n \<Longrightarrow> \<not> ?P i" for n
    using that by (intro Least_equality) (auto simp: not_less [symmetric])
  consider (0) "?P 0" | (1) "\<not> ?P 0" "?P 1" | (2) "\<not> ?P 0" "\<not> ?P 1" "?P 2"
    | (3) "\<not> ?P 0" "\<not> ?P 1" "\<not> ?P 2"
    by blast
  then show ?thesis
  proof cases
    case 0
    with least [of 0] show ?thesis by (simp add: DoWithSleeper_def probe_simps)
  next
    case 1
    with least [of 1] show ?thesis
      by (simp add: DoWithSleeper_def probe_simps defaultDelays_def)
  next
    case 2
    then have "(LEAST i. ?P i) = 2"
      by (intro least) (auto simp: numeral_2_eq_2 less_Suc_eq)
    with 2 show ?thesis
      by (simp add: DoWithSleeper_def probe_simps defaultDelays_def numeral_2_eq_2 less_Suc_eq)
  next
    case 3
    then have "(LEAST i. ?P i) = 3"
      by (intro least) (auto simp: numeral_3_eq_3 numeral_2_eq_2 less_Suc_eq)
    with 3 show ?thesis
      by (simp add: DoWithSleeper_def probe_simps defaultDelays_def numeral_2_eq_2 numeral_3_eq_3 less_Suc_eq)
  qed
qed

end
