(* ===== verification/Pg_Storage.thy ===== *)
theory Pg_Storage
  imports Repository Retry Mem_Storage
begin

text \<open>
  \<open>internal/repository/postgres.go\<close> and the PostgreSQL part of \<open>idempotency.go\<close>. The database is the
  two tables of \<open>migrations/\<close>; a statement is what its SQL text says of them. Every call to the
  database takes its outcome from a list that is arbitrary in all theorems: it works, it fails before
  the server did anything, or the server did it and the reply was lost. Transactions work on a copy of
  the tables that only a commit writes back; they are atomic steps of the model.
\<close>

section \<open>Tables, statements and outcomes\<close>

record row =
  row_type :: string
  row_gauge :: "float64 option"
  row_counter :: "int64 option"

datatype outcome = Good | Lost goerror | Unacked goerror

record pgdb =
  tbl_metrics :: "row gomap"
  tbl_receipts :: "string gomap"
  outcomes :: "outcome list"

text \<open>The outcome of the next database call; when the list is used up, calls work.\<close>

definition next_outcome :: "outcome list \<Rightarrow> outcome \<times> outcome list" where
  "next_outcome os = (case os of [] \<Rightarrow> (Good, []) | x # xs \<Rightarrow> (x, xs))"

definition upsertGaugeQuery :: "string \<Rightarrow> string \<Rightarrow> float64 \<Rightarrow> row gomap \<Rightarrow> goerror + row gomap" where
  "upsertGaugeQuery name typ v t =
     (case t name of
        None \<Rightarrow> Inr (t(name \<mapsto> \<lparr>row_type = typ, row_gauge = Some v, row_counter = None\<rparr>))
      | Some r \<Rightarrow> Inr (t(name \<mapsto> r\<lparr>row_type := typ, row_gauge := Some v, row_counter := None\<rparr>)))"

text \<open>\<open>BIGINT\<close> addition does not wrap: a sum out of range is SQLSTATE 22003.\<close>

definition bigint_add :: "int64 \<Rightarrow> int64 \<Rightarrow> goerror + int64" where
  "bigint_add a b =
     (let i = sint a + sint b in if - (2 ^ 63) \<le> i \<and> i < 2 ^ 63 then Inr (a + b) else Inl (PqError ''22003''))"

definition upsertCounterQuery :: "string \<Rightarrow> string \<Rightarrow> int64 \<Rightarrow> row gomap \<Rightarrow> goerror + row gomap" where
  "upsertCounterQuery name typ d t =
     (case t name of
        None \<Rightarrow> Inr (t(name \<mapsto> \<lparr>row_type = typ, row_gauge = None, row_counter = Some d\<rparr>))
      | Some r \<Rightarrow>
        (case bigint_add (case row_counter r of None \<Rightarrow> 0 | Some c \<Rightarrow> c) d of
           Inl e \<Rightarrow> Inl e
         | Inr c \<Rightarrow> Inr (t(name \<mapsto> r\<lparr>row_type := typ, row_gauge := None, row_counter := Some c\<rparr>))))"

section \<open>Retrying\<close>

definition isPostgresConnectionException :: "goerror \<Rightarrow> bool" where
  "isPostgresConnectionException err = (case errors_As_pq err of None \<Rightarrow> False | Some code \<Rightarrow> HasPrefix code ''08'')"

definition retryPostgres :: "('s \<Rightarrow> gerr \<times> 's) \<Rightarrow> 's \<Rightarrow> gerr \<times> 's" where
  "retryPostgres operation = Do operation isPostgresConnectionException"

section \<open>Single statements\<close>

text \<open>\<open>s.db.Exec\<close> outside a transaction: the statement commits by itself.\<close>

definition db_Exec :: "(row gomap \<Rightarrow> goerror + row gomap) \<Rightarrow> pgdb \<Rightarrow> gerr \<times> pgdb" where
  "db_Exec stmt db =
     (let (o', os) = next_outcome (outcomes db); db1 = db\<lparr>outcomes := os\<rparr> in
      case o' of
        Lost e \<Rightarrow> (Some e, db1)
      | Unacked e \<Rightarrow> (Some e, case stmt (tbl_metrics db1) of Inl _ \<Rightarrow> db1 | Inr t \<Rightarrow> db1\<lparr>tbl_metrics := t\<rparr>)
      | Good \<Rightarrow> (case stmt (tbl_metrics db1) of Inl e \<Rightarrow> (Some e, db1) | Inr t \<Rightarrow> (None, db1\<lparr>tbl_metrics := t\<rparr>)))"

definition Pg_UpdateGauge :: "string \<Rightarrow> float64 \<Rightarrow> pgdb \<Rightarrow> gerr \<times> pgdb" where
  "Pg_UpdateGauge name v = retryPostgres (db_Exec (upsertGaugeQuery name Gauge v))"

definition Pg_UpdateCounter :: "string \<Rightarrow> int64 \<Rightarrow> pgdb \<Rightarrow> gerr \<times> pgdb" where
  "Pg_UpdateCounter name d = retryPostgres (db_Exec (upsertCounterQuery name Counter d))"

section \<open>Transactions\<close>

text \<open>\<open>tx.Exec\<close>: inside a transaction a failed call has no effect of its own.\<close>

definition tx_Exec :: "(row gomap \<Rightarrow> goerror + row gomap) \<Rightarrow> row gomap \<Rightarrow> outcome list \<Rightarrow> (goerror + row gomap) \<times> outcome list" where
  "tx_Exec stmt t os =
     (let (o', os') = next_outcome os in
      case o' of Lost e \<Rightarrow> (Inl e, os') | Unacked e \<Rightarrow> (Inl e, os') | Good \<Rightarrow> (stmt t, os'))"

fun updateMetricsTx :: "Metrics list \<Rightarrow> row gomap \<Rightarrow> outcome list \<Rightarrow> (goerror + row gomap) \<times> outcome list" where
  "updateMetricsTx [] t os = (Inr t, os)"
| "updateMetricsTx (m # ms) t os =
     (if MType m = Gauge then
        (case Value m of
           None \<Rightarrow> updateMetricsTx ms t os
         | Some v \<Rightarrow> (case tx_Exec (upsertGaugeQuery (ID m) Gauge v) t os of
                       (Inl e, os') \<Rightarrow> (Inl e, os')
                     | (Inr t', os') \<Rightarrow> updateMetricsTx ms t' os'))
      else if MType m = Counter then
        (case Delta m of
           None \<Rightarrow> updateMetricsTx ms t os
         | Some d \<Rightarrow> (case tx_Exec (upsertCounterQuery (ID m) Counter d) t os of
                       (Inl e, os') \<Rightarrow> (Inl e, os')
                     | (Inr t', os') \<Rightarrow> updateMetricsTx ms t' os'))
      else updateMetricsTx ms t os)"

text \<open>A call that only succeeds or fails (\<open>Begin\<close>, \<open>RowsAffected\<close>, a query).\<close>

definition plain_call :: "outcome list \<Rightarrow> gerr \<times> outcome list" where
  "plain_call os = (let (o', os') = next_outcome os in
     (case o' of Good \<Rightarrow> None | Lost e \<Rightarrow> Some e | Unacked e \<Rightarrow> Some e, os'))"

text \<open>\<open>tx.Commit\<close>: the copies are written back, also when only the reply is lost.\<close>

definition commit_call :: "row gomap \<Rightarrow> string gomap \<Rightarrow> pgdb \<Rightarrow> gerr \<times> pgdb" where
  "commit_call t r db =
     (let (o', os) = next_outcome (outcomes db); db1 = db\<lparr>outcomes := os\<rparr> in
      case o' of
        Good \<Rightarrow> (None, db1\<lparr>tbl_metrics := t, tbl_receipts := r\<rparr>)
      | Lost e \<Rightarrow> (Some e, db1)
      | Unacked e \<Rightarrow> (Some e, db1\<lparr>tbl_metrics := t, tbl_receipts := r\<rparr>))"

definition pg_updateMetrics :: "Metrics list \<Rightarrow> pgdb \<Rightarrow> gerr \<times> pgdb" where
  "pg_updateMetrics ms db =
     (case plain_call (outcomes db) of
        (Some e, os) \<Rightarrow> (Some e, db\<lparr>outcomes := os\<rparr>)
      | (None, os) \<Rightarrow>
        (case updateMetricsTx ms (tbl_metrics db) os of
           (Inl e, os') \<Rightarrow> (Some e, db\<lparr>outcomes := os'\<rparr>)
         | (Inr t, os') \<Rightarrow> commit_call t (tbl_receipts db) (db\<lparr>outcomes := os'\<rparr>)))"

definition Pg_UpdateMetrics :: "Metrics list \<Rightarrow> pgdb \<Rightarrow> gerr \<times> pgdb" where
  "Pg_UpdateMetrics ms = retryPostgres (pg_updateMetrics ms)"

text \<open>
  One attempt of \<open>UpdateMetricsOnce\<close>: \<open>Begin\<close>, \<open>INSERT ... ON CONFLICT DO NOTHING\<close>, \<open>RowsAffected\<close>;
  with no row inserted the stored fingerprint is read and compared and the transaction rolled back,
  otherwise the metrics are updated and the transaction committed.
\<close>

definition pg_updateMetricsOnce :: "string \<Rightarrow> string \<Rightarrow> Metrics list \<Rightarrow> pgdb \<Rightarrow> (bool \<times> gerr) \<times> pgdb" where
  "pg_updateMetricsOnce key fingerprint ms db =
     (case plain_call (outcomes db) of
        (Some e, os) \<Rightarrow> ((False, Some (WrapError ''begin idempotent batch'' [e])), db\<lparr>outcomes := os\<rparr>)
      | (None, os) \<Rightarrow>
        (case plain_call os of
           (Some e, os1) \<Rightarrow> ((False, Some (WrapError ''insert batch receipt'' [e])), db\<lparr>outcomes := os1\<rparr>)
         | (None, os1) \<Rightarrow>
           (case plain_call os1 of
              (Some e, os2) \<Rightarrow> ((False, Some e), db\<lparr>outcomes := os2\<rparr>)
            | (None, os2) \<Rightarrow>
              (case tbl_receipts db key of
                 Some previous \<Rightarrow>
                   (case plain_call os2 of
                      (Some e, os3) \<Rightarrow> ((False, Some e), db\<lparr>outcomes := os3\<rparr>)
                    | (None, os3) \<Rightarrow>
                      ((False, if previous \<noteq> fingerprint then Some ErrConflict else None), db\<lparr>outcomes := os3\<rparr>))
               | None \<Rightarrow>
                   (case updateMetricsTx ms (tbl_metrics db) os2 of
                      (Inl e, os3) \<Rightarrow> ((False, Some e), db\<lparr>outcomes := os3\<rparr>)
                    | (Inr t, os3) \<Rightarrow>
                      (case commit_call t ((tbl_receipts db)(key \<mapsto> fingerprint)) (db\<lparr>outcomes := os3\<rparr>) of
                         (Some e, db') \<Rightarrow> ((False, Some (WrapError ''commit idempotent batch'' [e])), db')
                       | (None, db') \<Rightarrow> ((True, None), db')))))))"

text \<open>The retried closure writes the captured variable \<open>applied\<close>.\<close>

definition once_closure :: "string \<Rightarrow> string \<Rightarrow> Metrics list \<Rightarrow> bool \<times> pgdb \<Rightarrow> gerr \<times> bool \<times> pgdb" where
  "once_closure key fingerprint ms s =
     (let ((applied, err), db') = pg_updateMetricsOnce key fingerprint ms (snd s) in (err, applied, db'))"

definition Pg_UpdateMetricsOnce :: "string \<Rightarrow> string \<Rightarrow> Metrics list \<Rightarrow> pgdb \<Rightarrow> (bool \<times> gerr) \<times> pgdb" where
  "Pg_UpdateMetricsOnce key fingerprint ms db =
     (let (err, applied, db') = retryPostgres (once_closure key fingerprint ms) (False, db)
      in ((applied, err), db'))"

section \<open>Keyed batches are applied exactly once\<close>

text \<open>The effect of a batch when the database does what it is asked; an error leaves the table.\<close>

definition pg_apply :: "Metrics list \<Rightarrow> row gomap \<Rightarrow> row gomap" where
  "pg_apply ms t = (case fst (updateMetricsTx ms t []) of Inl _ \<Rightarrow> t | Inr t' \<Rightarrow> t')"

lemma next_outcome_simps [simp]:
  "next_outcome [] = (Good, [])" "next_outcome (x # xs) = (x, xs)"
  by (simp_all add: next_outcome_def)

lemma tx_Exec_Inr: "tx_Exec stmt t os = (Inr t', os') \<Longrightarrow> stmt t = Inr t'"
  by (cases os) (auto simp: tx_Exec_def split: outcome.splits)

lemma updateMetricsTx_fault_free:
  "updateMetricsTx ms t os = (Inr t', os') \<Longrightarrow> updateMetricsTx ms t [] = (Inr t', [])"
proof (induction ms arbitrary: t os)
  case (Cons m ms)
  have x: "tx_Exec stmt t [] = (stmt t, [])" for stmt by (simp add: tx_Exec_def)
  from Cons show ?case
    by (auto simp: x split: if_splits option.splits sum.splits prod.splits dest!: tx_Exec_Inr)
qed simp

definition pg_applies :: "Metrics list \<Rightarrow> row gomap \<Rightarrow> row gomap \<Rightarrow> bool" where
  "pg_applies ms t t' \<longleftrightarrow> updateMetricsTx ms t [] = (Inr t', [])"

lemma updateMetricsTx_applies: "updateMetricsTx ms t os = (Inr t', os') \<Longrightarrow> pg_applies ms t t'"
  using updateMetricsTx_fault_free by (simp add: pg_applies_def)

lemma pg_applies_apply: "pg_applies ms t t' \<Longrightarrow> pg_apply ms t = t'"
  by (simp add: pg_applies_def pg_apply_def)

text \<open>The relation between the tables before and after one attempt, and after all of them.\<close>

definition once_step :: "string \<Rightarrow> string \<Rightarrow> Metrics list \<Rightarrow> pgdb \<Rightarrow> pgdb \<Rightarrow> bool" where
  "once_step k f ms db db' \<longleftrightarrow>
     tbl_metrics db' = tbl_metrics db \<and> tbl_receipts db' = tbl_receipts db
     \<or> tbl_receipts db k = None \<and> pg_applies ms (tbl_metrics db) (tbl_metrics db')
       \<and> tbl_receipts db' = (tbl_receipts db)(k \<mapsto> f)"

lemma once_step_trans: "once_step k f ms a b \<Longrightarrow> once_step k f ms b c \<Longrightarrow> once_step k f ms a c"
  by (auto simp: once_step_def)

lemma commit_call_cases:
  "commit_call t r db = (e, db') \<Longrightarrow>
     tbl_metrics db' = tbl_metrics db \<and> tbl_receipts db' = tbl_receipts db \<and> e \<noteq> None
     \<or> tbl_metrics db' = t \<and> tbl_receipts db' = r"
  by (auto simp: commit_call_def Let_def split: prod.splits outcome.splits)

lemma pg_updateMetricsOnce_step:
  assumes "pg_updateMetricsOnce k f ms db = (res, db')"
  shows "once_step k f ms db db'"
  using assms
  by (auto simp: pg_updateMetricsOnce_def once_step_def split: prod.splits option.splits sum.splits
      dest!: updateMetricsTx_applies commit_call_cases)

lemma pg_updateMetricsOnce_ack:
  assumes "pg_updateMetricsOnce k f ms db = ((a, None), db')"
  shows "tbl_receipts db' k = Some f"
  using assms
  by (auto simp: pg_updateMetricsOnce_def split: prod.splits option.splits sum.splits if_splits
      dest!: commit_call_cases)

interpretation once_retried:
  retried "once_closure k f ms" "\<lambda>_ s. s" "\<lambda>s t. once_step k f ms (snd s) (snd t)" "\<lambda>s. tbl_receipts (snd s) k = Some f"
  for k f ms
proof unfold_locales
  fix a b c :: "bool \<times> pgdb"
  assume "once_step k f ms (snd a) (snd b)" "once_step k f ms (snd b) (snd c)"
  then show "once_step k f ms (snd a) (snd c)" by (rule once_step_trans)
next
  fix s :: "bool \<times> pgdb"
  show "once_step k f ms (snd s) (snd (snd (once_closure k f ms s)))"
    using pg_updateMetricsOnce_step by (simp add: once_closure_def split: prod.split)
next
  fix s s' :: "bool \<times> pgdb"
  assume "once_closure k f ms s = (None, s')"
  then show "tbl_receipts (snd s') k = Some f"
    using pg_updateMetricsOnce_ack by (auto simp: once_closure_def split: prod.splits)
qed (simp_all add: once_step_def)

lemma Pg_UpdateMetricsOnce_step:
  assumes "Pg_UpdateMetricsOnce k f ms r = (res, r')"
  shows "once_step k f ms r r'"
  using once_retried.DoWithSleeper_keeps [where s = "(False, r)" and shouldRetry = isPostgresConnectionException, of k f ms] assms
  by (auto simp: Pg_UpdateMetricsOnce_def retryPostgres_def Do_def split: prod.splits)

interpretation pg_once: idempotent_repository Pg_UpdateMetricsOnce tbl_metrics pg_apply tbl_receipts
proof unfold_locales
  fix k f ms r res r'
  assume "Pg_UpdateMetricsOnce k f ms r = (res, r')"
  then have "once_step k f ms r r'" by (rule Pg_UpdateMetricsOnce_step)
  then show "tbl_metrics r' = tbl_metrics r \<and> tbl_receipts r' = tbl_receipts r
      \<or> tbl_receipts r k = None \<and> tbl_metrics r' = pg_apply ms (tbl_metrics r)
        \<and> tbl_receipts r' = (tbl_receipts r)(k \<mapsto> f)"
    by (auto simp: once_step_def dest: pg_applies_apply)
next
  fix k f ms r a r'
  assume "Pg_UpdateMetricsOnce k f ms r = ((a, None), r')"
  then show "tbl_receipts r' k = Some f"
    using once_retried.DoWithSleeper_post [of k f ms _ "(False, r)"]
    by (auto simp: Pg_UpdateMetricsOnce_def retryPostgres_def Do_def split: prod.splits)
qed

text \<open>
  C5. The PostgreSQL storage applies every keyed batch at most once and every acknowledged one exactly
  once, for any sequence of \<open>UpdateMetricsOnce\<close> calls and any pattern of database failures, including
  commits that took effect although their reply was lost and the internal retries that follow.
\<close>

theorem pg_exactly_once:
  "case deliver_all Pg_UpdateMetricsOnce qs db of
     (ress, db') \<Rightarrow> \<exists>done. exactly_once tbl_metrics pg_apply tbl_receipts qs ress db db' done"
  by (auto split: prod.splits intro: pg_once.deliver_all_exactly_once)

section \<open>Reads\<close>

text \<open>The rows the queries select: the type and the value column have to fit.\<close>

definition pg_gauge_view :: "row gomap \<Rightarrow> float64 gomap" where
  "pg_gauge_view t name =
     (case t name of None \<Rightarrow> None | Some r \<Rightarrow> if row_type r = Gauge then row_gauge r else None)"

definition pg_counter_view :: "row gomap \<Rightarrow> int64 gomap" where
  "pg_counter_view t name =
     (case t name of None \<Rightarrow> None | Some r \<Rightarrow> if row_type r = Counter then row_counter r else None)"

definition ErrNoRows :: goerror where
  "ErrNoRows = Sentinel ''sql: no rows in result set''"

text \<open>\<open>QueryRow(...).Scan(&value)\<close> with the captured \<open>value\<close> as part of the state.\<close>

definition query_row :: "(row gomap \<Rightarrow> 'v gomap) \<Rightarrow> string \<Rightarrow> 'v \<times> pgdb \<Rightarrow> gerr \<times> 'v \<times> pgdb" where
  "query_row view name s =
     (let db = snd s in
      case plain_call (outcomes db) of
        (Some e, os) \<Rightarrow> (Some e, fst s, db\<lparr>outcomes := os\<rparr>)
      | (None, os) \<Rightarrow>
        (case view (tbl_metrics db) name of
           None \<Rightarrow> (Some ErrNoRows, fst s, db\<lparr>outcomes := os\<rparr>)
         | Some v \<Rightarrow> (None, v, db\<lparr>outcomes := os\<rparr>)))"

definition Pg_GetGauge :: "string \<Rightarrow> pgdb \<Rightarrow> float64 option \<times> pgdb" where
  "Pg_GetGauge name db =
     (let (err, value, db') = retryPostgres (query_row pg_gauge_view name) (0, db)
      in (if err \<noteq> None then None else Some value, db'))"

definition Pg_GetCounter :: "string \<Rightarrow> pgdb \<Rightarrow> int64 option \<times> pgdb" where
  "Pg_GetCounter name db =
     (let (err, value, db') = retryPostgres (query_row pg_counter_view name) (0, db)
      in (if err \<noteq> None then None else Some value, db'))"

text \<open>The loop over the rows, in the order \<open>ks\<close> in which the server returns them.\<close>

fun scan_rows :: "'v gomap \<Rightarrow> string list \<Rightarrow> 'v gomap \<Rightarrow> outcome list \<Rightarrow> (goerror + 'v gomap) \<times> outcome list" where
  "scan_rows sel [] m os = (Inr m, os)"
| "scan_rows sel (k # ks) m os =
     (case sel k of
        None \<Rightarrow> scan_rows sel ks m os
      | Some v \<Rightarrow> (case plain_call os of
                    (Some e, os') \<Rightarrow> (Inl e, os')
                  | (None, os') \<Rightarrow> scan_rows sel ks (m(k \<mapsto> v)) os'))"

definition query_all :: "(row gomap \<Rightarrow> 'v gomap) \<Rightarrow> string list \<Rightarrow> 'v gomap \<times> pgdb \<Rightarrow> gerr \<times> 'v gomap \<times> pgdb" where
  "query_all view ks s =
     (let db = snd s in
      case plain_call (outcomes db) of
        (Some e, os) \<Rightarrow> (Some e, Map.empty, db\<lparr>outcomes := os\<rparr>)
      | (None, os) \<Rightarrow>
        (case scan_rows (view (tbl_metrics db)) ks Map.empty os of
           (Inl e, os1) \<Rightarrow> (Some e, Map.empty, db\<lparr>outcomes := os1\<rparr>)
         | (Inr m, os1) \<Rightarrow>
           (case plain_call os1 of
              (Some e, os2) \<Rightarrow> (Some e, Map.empty, db\<lparr>outcomes := os2\<rparr>)
            | (None, os2) \<Rightarrow> (None, m, db\<lparr>outcomes := os2\<rparr>))))"

definition Pg_GetAllGauges :: "string list \<Rightarrow> pgdb \<Rightarrow> float64 gomap \<times> pgdb" where
  "Pg_GetAllGauges ks db =
     (let (err, m, db') = retryPostgres (query_all pg_gauge_view ks) (Map.empty, db)
      in (if err \<noteq> None then Map.empty else m, db'))"

definition Pg_GetAllCounters :: "string list \<Rightarrow> pgdb \<Rightarrow> int64 gomap \<times> pgdb" where
  "Pg_GetAllCounters ks db =
     (let (err, m, db') = retryPostgres (query_all pg_counter_view ks) (Map.empty, db)
      in (if err \<noteq> None then Map.empty else m, db'))"

definition same_tables :: "pgdb \<Rightarrow> pgdb \<Rightarrow> bool" where
  "same_tables a b \<longleftrightarrow> tbl_metrics a = tbl_metrics b \<and> tbl_receipts a = tbl_receipts b"

lemma scan_rows_apply:
  "scan_rows sel ks m os = (Inr m', os') \<Longrightarrow> m' x = (if x \<in> set ks \<and> sel x \<noteq> None then sel x else m x)"
  by (induction ks arbitrary: m os) (auto split: option.splits prod.splits if_splits)

lemma scan_rows_Inr:
  "scan_rows sel ks Map.empty os = (Inr m', os') \<Longrightarrow> m' = sel |` set ks"
  by (rule ext) (auto simp: scan_rows_apply restrict_map_def)

text \<open>A read that succeeds returns what the table held all along.\<close>

interpretation row_read: retried "query_row view name" "\<lambda>_ s. s" "\<lambda>s s'. same_tables (snd s) (snd s')"
  "\<lambda>s. view (tbl_metrics (snd s)) name = Some (fst s)" for view name
  by unfold_locales (auto simp: query_row_def same_tables_def Let_def split: prod.splits option.splits)

interpretation all_read: retried "query_all view ks" "\<lambda>_ s. s" "\<lambda>s s'. same_tables (snd s) (snd s')"
  "\<lambda>s. fst s = view (tbl_metrics (snd s)) |` set ks" for view ks
  by unfold_locales
     (auto simp: query_all_def same_tables_def Let_def split: prod.splits option.splits sum.splits dest!: scan_rows_Inr)

end
