(* ===== verification/Pg_Views.thy ===== *)
theory Pg_Views
  imports Pg_Storage
begin

text \<open>
  What a reader of the PostgreSQL storage sees: reads return table contents, single updates satisfy the
  repository contract as long as no reply is lost, batches agree with the in-memory storage as long as a
  name keeps its type, and the two ways in which they differ.
\<close>

section \<open>Reads\<close>

lemma row_result:
  assumes "retryPostgres (query_row view name) (z, db) = (err, v, db')"
  shows "same_tables db db' \<and> (err = None \<longrightarrow> view (tbl_metrics db) name = Some v)"
  using row_read.DoWithSleeper_post [where view = view and name = name and s = "(z, db)"
      and shouldRetry = isPostgresConnectionException]
    row_read.DoWithSleeper_keeps [where view = view and name = name and s = "(z, db)"
      and shouldRetry = isPostgresConnectionException] assms
  by (auto simp: retryPostgres_def Do_def same_tables_def split: prod.splits)

lemma all_result:
  assumes "retryPostgres (query_all view ks) (z, db) = (err, m, db')"
  shows "same_tables db db' \<and> (err = None \<longrightarrow> m = view (tbl_metrics db) |` set ks)"
  using all_read.DoWithSleeper_post [where view = view and ks = ks and s = "(z, db)"
      and shouldRetry = isPostgresConnectionException]
    all_read.DoWithSleeper_keeps [where view = view and ks = ks and s = "(z, db)"
      and shouldRetry = isPostgresConnectionException] assms
  by (auto simp: retryPostgres_def Do_def same_tables_def split: prod.splits)

lemma view_restrict:
  assumes "range_order t ks"
  shows "pg_gauge_view t |` set ks = pg_gauge_view t" "pg_counter_view t |` set ks = pg_counter_view t"
  using assms by (auto simp: fun_eq_iff restrict_map_def range_order_def pg_gauge_view_def pg_counter_view_def
      domIff split: option.splits)

text \<open>
  Reads of the PostgreSQL storage are never wrong and never write, whatever the database answers and
  however often the read is retried: a value that is returned is the stored one, and a listing is the
  whole stored listing or, after an error, empty; it is never a part of it.
\<close>

theorem pg_reads:
  assumes "range_order (tbl_metrics db) ks"
  shows "(case Pg_GetGauge n db of (r, db') \<Rightarrow> same_tables db db' \<and> (r = None \<or> r = pg_gauge_view (tbl_metrics db) n))
       \<and> (case Pg_GetCounter n db of (r, db') \<Rightarrow> same_tables db db' \<and> (r = None \<or> r = pg_counter_view (tbl_metrics db) n))
       \<and> (case Pg_GetAllGauges ks db of (m, db') \<Rightarrow> same_tables db db' \<and> (m = Map.empty \<or> m = pg_gauge_view (tbl_metrics db)))
       \<and> (case Pg_GetAllCounters ks db of (m, db') \<Rightarrow> same_tables db db' \<and> (m = Map.empty \<or> m = pg_counter_view (tbl_metrics db)))"
  using row_result [of pg_gauge_view n 0 db] row_result [of pg_counter_view n 0 db]
    all_result [of pg_gauge_view ks Map.empty db] all_result [of pg_counter_view ks Map.empty db] view_restrict [OF assms]
  by (auto simp: Pg_GetGauge_def Pg_GetCounter_def Pg_GetAllGauges_def Pg_GetAllCounters_def split: prod.split)

lemma pg_reads_witness:
  "let db = \<lparr>tbl_metrics = [''g'' \<mapsto> \<lparr>row_type = Gauge, row_gauge = Some 1, row_counter = None\<rparr>],
             tbl_receipts = Map.empty, outcomes = [Lost (PqError ''57014'')]\<rparr>
   in case Pg_GetAllGauges [''g''] db of (m, db') \<Rightarrow> same_tables db db' \<and> (m = Map.empty \<or> m = pg_gauge_view (tbl_metrics db))"
  using pg_reads [of "\<lparr>tbl_metrics = [''g'' \<mapsto> \<lparr>row_type = Gauge, row_gauge = Some 1, row_counter = None\<rparr>],
             tbl_receipts = Map.empty, outcomes = [Lost (PqError ''57014'')]\<rparr>" "[''g'']"]
  by (simp add: range_order_def Let_def)

section \<open>The repository contract\<close>

definition wf_row :: "row \<Rightarrow> bool" where
  "wf_row r \<longleftrightarrow> row_type r = Gauge \<and> row_gauge r \<noteq> None \<and> row_counter r = None
     \<or> row_type r = Counter \<and> row_gauge r = None \<and> row_counter r \<noteq> None"

definition wf_table :: "row gomap \<Rightarrow> bool" where
  "wf_table t \<longleftrightarrow> (\<forall>k r. t k = Some r \<longrightarrow> wf_row r)"

text \<open>No reply of the database is lost.\<close>

definition is_acked :: "outcome \<Rightarrow> bool" where
  "is_acked o' = (case o' of Unacked _ \<Rightarrow> False | _ \<Rightarrow> True)"

definition acked :: "pgdb \<Rightarrow> bool" where
  "acked db = list_all is_acked (outcomes db)"

lemma wf_tableD: "wf_table t \<Longrightarrow> t k = Some r \<Longrightarrow> wf_row r"
  by (auto simp: wf_table_def)

lemma wf_table_upd: "wf_table t \<Longrightarrow> wf_row r \<Longrightarrow> wf_table (t(k \<mapsto> r))"
  by (auto simp: wf_table_def)

lemma wf_table_upsertGauge: "wf_table t \<Longrightarrow> upsertGaugeQuery n Gauge v t = Inr t' \<Longrightarrow> wf_table t'"
  by (auto simp: wf_row_def upsertGaugeQuery_def intro!: wf_table_upd split: option.splits)

lemma wf_table_upsertCounter: "wf_table t \<Longrightarrow> upsertCounterQuery n Counter d t = Inr t' \<Longrightarrow> wf_table t'"
  by (auto simp: wf_row_def upsertCounterQuery_def intro!: wf_table_upd split: option.splits sum.splits)

lemma view_upd:
  "pg_gauge_view (t(k \<mapsto> r)) = (pg_gauge_view t)(k := if row_type r = Gauge then row_gauge r else None)"
  "pg_counter_view (t(k \<mapsto> r)) = (pg_counter_view t)(k := if row_type r = Counter then row_counter r else None)"
  by (rule ext, simp add: pg_gauge_view_def pg_counter_view_def)+

lemma upsertGauge_views:
  assumes "upsertGaugeQuery n Gauge v t = Inr t'"
  shows "pg_gauge_view t' = (pg_gauge_view t)(n \<mapsto> v)" "pg_counter_view t' = (pg_counter_view t)(n := None)"
  using assms by (cases "t n"; auto simp: upsertGaugeQuery_def view_upd)+

lemma bigint_add_Inr: "bigint_add a b = Inr c \<Longrightarrow> c = a + b"
  by (auto simp: bigint_add_def Let_def split: if_splits)

lemma upsertCounter_views:
  assumes "wf_table t" "upsertCounterQuery n Counter d t = Inr t'"
  shows "pg_counter_view t' = map_inc (pg_counter_view t) n d" "pg_gauge_view t' = (pg_gauge_view t)(n := None)"
proof -
  obtain r where r: "t' = t(n \<mapsto> r)" "row_type r = Counter" "row_gauge r = None"
    "row_counter r = Some (map_get0 (pg_counter_view t) n + d)"
  proof (cases "t n")
    case None
    then have "map_get0 (pg_counter_view t) n = 0" by (simp add: map_get0_def pg_counter_view_def)
    with None assms(2) that [of "\<lparr>row_type = Counter, row_gauge = None, row_counter = Some d\<rparr>"] show ?thesis
      by (auto simp: upsertCounterQuery_def)
  next
    case (Some r0)
    then have "(case row_counter r0 of None \<Rightarrow> 0 | Some c \<Rightarrow> c) = map_get0 (pg_counter_view t) n"
      using wf_tableD [OF assms(1) Some] by (auto simp: wf_row_def map_get0_def pg_counter_view_def)
    with Some assms(2) that show ?thesis
      by (auto simp: upsertCounterQuery_def split: sum.splits dest!: bigint_add_Inr)
  qed
  then show "pg_counter_view t' = map_inc (pg_counter_view t) n d" "pg_gauge_view t' = (pg_gauge_view t)(n := None)"
    by (simp_all add: view_upd map_inc_def)
qed

lemma db_Exec_acked:
  assumes "acked db" "db_Exec stmt db = (e, db')"
  shows "acked db' \<and> (case e of None \<Rightarrow> stmt (tbl_metrics db) = Inr (tbl_metrics db') | Some _ \<Rightarrow> tbl_metrics db' = tbl_metrics db)"
proof (cases "outcomes db")
  case Nil
  with assms show ?thesis
    by (cases "stmt (tbl_metrics db)") (auto simp: db_Exec_def acked_def)
next
  case (Cons o' os)
  with assms show ?thesis
    by (cases "stmt (tbl_metrics db)"; cases o') (auto simp: db_Exec_def acked_def is_acked_def)
qed

interpretation exec_atomic: retried_atomic "db_Exec stmt" "\<lambda>_ s. s" acked tbl_metrics "\<lambda>t t'. stmt t = Inr t'" for stmt
proof unfold_locales
  fix s :: pgdb
  assume "acked s"
  then show "acked (snd (db_Exec stmt s))"
    using db_Exec_acked [of s stmt "fst (db_Exec stmt s)" "snd (db_Exec stmt s)"] by simp
next
  fix s s' e
  assume "acked s" "db_Exec stmt s = (Some e, s')"
  then show "tbl_metrics s' = tbl_metrics s" using db_Exec_acked by fastforce
next
  fix s s'
  assume "acked s" "db_Exec stmt s = (None, s')"
  then show "stmt (tbl_metrics s) = Inr (tbl_metrics s')" using db_Exec_acked by fastforce
qed simp_all

lemma Pg_exec_result:
  assumes "acked db" "retryPostgres (db_Exec stmt) db = (e, db')"
  shows "acked db' \<and> (case e of None \<Rightarrow> stmt (tbl_metrics db) = Inr (tbl_metrics db') | Some _ \<Rightarrow> tbl_metrics db' = tbl_metrics db)"
  using assms exec_atomic.DoWithSleeper_atomic unfolding retryPostgres_def Do_def by blast

lemma Pg_UpdateGauge_result:
  assumes "acked db" "Pg_UpdateGauge n v db = (e, db')"
  shows "acked db' \<and> (case e of None \<Rightarrow> upsertGaugeQuery n Gauge v (tbl_metrics db) = Inr (tbl_metrics db')
     | Some _ \<Rightarrow> tbl_metrics db' = tbl_metrics db)"
  using assms Pg_exec_result unfolding Pg_UpdateGauge_def by blast

lemma Pg_UpdateCounter_result:
  assumes "acked db" "Pg_UpdateCounter n d db = (e, db')"
  shows "acked db' \<and> (case e of None \<Rightarrow> upsertCounterQuery n Counter d (tbl_metrics db) = Inr (tbl_metrics db')
     | Some _ \<Rightarrow> tbl_metrics db' = tbl_metrics db)"
  using assms Pg_exec_result unfolding Pg_UpdateCounter_def by blast

definition pg_inv :: "pgdb \<Rightarrow> bool" where
  "pg_inv db \<longleftrightarrow> acked db \<and> wf_table (tbl_metrics db)"

interpretation pg_repo: metrics_repository Pg_UpdateGauge Pg_UpdateCounter
  "\<lambda>db. pg_gauge_view (tbl_metrics db)" "\<lambda>db. pg_counter_view (tbl_metrics db)" pg_inv
proof unfold_locales
  fix r r' n v e
  assume "pg_inv r" "Pg_UpdateGauge n v r = (e, r')"
  then show "pg_inv r'"
    using Pg_UpdateGauge_result [of r n v e r'] by (auto simp: pg_inv_def intro: wf_table_upsertGauge split: option.splits)
next
  fix r r' n d e
  assume "pg_inv r" "Pg_UpdateCounter n d r = (e, r')"
  then show "pg_inv r'"
    using Pg_UpdateCounter_result [of r n d e r'] by (auto simp: pg_inv_def intro: wf_table_upsertCounter split: option.splits)
next
  fix r r' n v
  assume "pg_inv r" "Pg_UpdateGauge n v r = (None, r')"
  then have u: "upsertGaugeQuery n Gauge v (tbl_metrics r) = Inr (tbl_metrics r')"
    using Pg_UpdateGauge_result [of r n v None r'] by (simp add: pg_inv_def)
  then show "pg_gauge_view (tbl_metrics r') n = Some v"
    and "\<And>k. k \<noteq> n \<Longrightarrow> pg_gauge_view (tbl_metrics r') k = pg_gauge_view (tbl_metrics r) k
        \<and> pg_counter_view (tbl_metrics r') k = pg_counter_view (tbl_metrics r) k"
    by (simp_all add: upsertGauge_views [OF u])
next
  fix r r' n d
  assume "pg_inv r" "Pg_UpdateCounter n d r = (None, r')"
  then have u: "upsertCounterQuery n Counter d (tbl_metrics r) = Inr (tbl_metrics r')" "wf_table (tbl_metrics r)"
    using Pg_UpdateCounter_result [of r n d None r'] by (simp_all add: pg_inv_def)
  then show "pg_counter_view (tbl_metrics r') n = Some (map_get0 (pg_counter_view (tbl_metrics r)) n + d)"
    and "\<And>k. k \<noteq> n \<Longrightarrow> pg_gauge_view (tbl_metrics r') k = pg_gauge_view (tbl_metrics r) k
        \<and> pg_counter_view (tbl_metrics r') k = pg_counter_view (tbl_metrics r) k"
    by (simp_all add: upsertCounter_views [OF u(2,1)] map_inc_def)
qed

text \<open>
  After any history of successful plain updates over a database that may fail but loses no reply, a
  name used as a counter only reads as its start value plus all deltas, and a name used as a gauge only
  reads as the last value written: the internal retries add nothing and lose nothing.
\<close>

theorem pg_history:
  assumes "acked db" and "wf_table (tbl_metrics db)"
    and "run_updates Pg_UpdateGauge Pg_UpdateCounter us db = Some db'"
  shows "(\<not> list_ex (updates_gauge n) us \<longrightarrow>
            map_get0 (pg_counter_view (tbl_metrics db')) n =
            map_get0 (pg_counter_view (tbl_metrics db)) n + counter_total n us)
       \<and> (\<not> list_ex (updates_counter n) us \<longrightarrow>
            pg_gauge_view (tbl_metrics db') n = last_gauge n us (pg_gauge_view (tbl_metrics db) n))"
proof -
  have "pg_inv db" using assms(1,2) by (simp add: pg_inv_def)
  from pg_repo.counter_history [OF this assms(3)] pg_repo.gauge_history [OF this assms(3)] show ?thesis by blast
qed

text \<open>A connection failure of class 08 before anything happened.\<close>

definition conn_lost :: goerror where
  "conn_lost = PqError ''08006''"

lemma conn_lost_retried [simp]: "isPostgresConnectionException conn_lost"
  by (simp add: isPostgresConnectionException_def conn_lost_def HasPrefix_def)

lemmas pg_eval = Pg_UpdateCounter_def Pg_UpdateGauge_def retryPostgres_def Do_def DoWithSleeper_def db_Exec_def
  settled_def defaultDelays_def upsertCounterQuery_def upsertGaugeQuery_def bigint_add_def

lemma pg_history_witness:
  "\<exists>db'. run_updates Pg_UpdateGauge Pg_UpdateCounter [UpCounter ''c'' 5, UpGauge ''g'' 1]
           \<lparr>tbl_metrics = Map.empty, tbl_receipts = Map.empty, outcomes = [Lost conn_lost, Lost conn_lost, Good]\<rparr> = Some db'
       \<and> map_get0 (pg_counter_view (tbl_metrics db')) ''c'' = 5 \<and> pg_gauge_view (tbl_metrics db') ''g'' = Some 1"
proof -
  let ?db = "\<lparr>tbl_metrics = Map.empty, tbl_receipts = Map.empty, outcomes = [Lost conn_lost, Lost conn_lost, Good]\<rparr>"
  let ?us = "[UpCounter ''c'' 5, UpGauge ''g'' 1]"
  obtain db' where r: "run_updates Pg_UpdateGauge Pg_UpdateCounter ?us ?db = Some db'"
    by (simp add: pg_eval)
  have "acked ?db" "wf_table (tbl_metrics ?db)"
    by (simp_all add: acked_def is_acked_def wf_table_def)
  from pg_history [OF this r, of "''c''"] pg_history [OF this r, of "''g''"] r show ?thesis
    by (simp add: updates_simps pg_counter_view_def map_get0_def)
qed

section \<open>Agreement with the in-memory storage\<close>

text \<open>\<open>T\<close> gives every name the one type it is used with.\<close>

definition typed_table :: "(string \<Rightarrow> string) \<Rightarrow> row gomap \<Rightarrow> bool" where
  "typed_table T t \<longleftrightarrow> (\<forall>k r. t k = Some r \<longrightarrow> row_type r = T k)"

definition typed_batch :: "(string \<Rightarrow> string) \<Rightarrow> Metrics list \<Rightarrow> bool" where
  "typed_batch T ms \<longleftrightarrow> list_all (\<lambda>m. MType m = T (ID m)) ms"

definition pg_content :: "row gomap \<Rightarrow> content" where
  "pg_content t = (pg_gauge_view t, pg_counter_view t)"

lemma typed_view_None:
  assumes "typed_table T t"
  shows "T k = Gauge \<Longrightarrow> pg_counter_view t k = None" "T k = Counter \<Longrightarrow> pg_gauge_view t k = None"
  using assms by (auto simp: typed_table_def pg_counter_view_def pg_gauge_view_def split: option.splits)

lemma typed_upsertGauge:
  "typed_table T t \<Longrightarrow> T n = Gauge \<Longrightarrow> upsertGaugeQuery n Gauge v t = Inr t' \<Longrightarrow> typed_table T t'"
  by (cases "t n") (auto simp: typed_table_def upsertGaugeQuery_def split: if_splits)

lemma typed_upsertCounter:
  "typed_table T t \<Longrightarrow> T n = Counter \<Longrightarrow> upsertCounterQuery n Counter d t = Inr t' \<Longrightarrow> typed_table T t'"
  by (cases "t n") (auto simp: typed_table_def upsertCounterQuery_def split: sum.splits if_splits)

lemma pg_gauge_step:
  assumes "typed_table T t" "T n = Gauge" "upsertGaugeQuery n Gauge v t = Inr t'"
  shows "pg_content t' = ((pg_gauge_view t)(n \<mapsto> v), pg_counter_view t)"
  using upsertGauge_views [OF assms(3)] typed_view_None(1) [OF assms(1,2)] by (auto simp: pg_content_def)

lemma pg_counter_step:
  assumes "wf_table t" "typed_table T t" "T n = Counter" "upsertCounterQuery n Counter d t = Inr t'"
  shows "pg_content t' = (pg_gauge_view t, map_inc (pg_counter_view t) n d)"
  using upsertCounter_views [OF assms(1,4)] typed_view_None(2) [OF assms(2,3)] by (auto simp: pg_content_def)

text \<open>A transaction that succeeds starts with a metric it skips, a gauge or a counter.\<close>

lemma updateMetricsTx_Cons_cases:
  assumes "updateMetricsTx (m # ms) t os = (Inr t', os')"
  obtains (skip) "\<And>s. update_metric m s = s" "updateMetricsTx ms t os = (Inr t', os')"
    | (gauge) v t1 os1 where "MType m = Gauge" "Value m = Some v" "upsertGaugeQuery (ID m) Gauge v t = Inr t1"
        "updateMetricsTx ms t1 os1 = (Inr t', os')"
    | (counter) d t1 os1 where "MType m = Counter" "Delta m = Some d" "upsertCounterQuery (ID m) Counter d t = Inr t1"
        "updateMetricsTx ms t1 os1 = (Inr t', os')"
proof -
  consider (g) v where "MType m = Gauge" "Value m = Some v" | (c) d where "MType m = Counter" "Delta m = Some d"
    | (n) "MType m = Gauge \<Longrightarrow> Value m = None" "MType m = Counter \<Longrightarrow> Delta m = None"
    by (cases "Value m"; cases "Delta m"; blast)
  then show ?thesis
  proof cases
    case (g v)
    obtain r os1 where x: "tx_Exec (upsertGaugeQuery (ID m) Gauge v) t os = (r, os1)" by fastforce
    with assms g obtain t1 where "r = Inr t1" "updateMetricsTx ms t1 os1 = (Inr t', os')" by (cases r) auto
    with x g show ?thesis by (auto intro: gauge dest!: tx_Exec_Inr)
  next
    case (c d)
    then have ng: "MType m \<noteq> Gauge" by (simp add: Counter_def Gauge_def)
    obtain r os1 where x: "tx_Exec (upsertCounterQuery (ID m) Counter d) t os = (r, os1)" by fastforce
    with assms c ng obtain t1 where "r = Inr t1" "updateMetricsTx ms t1 os1 = (Inr t', os')" by (cases r) auto
    with x c show ?thesis by (auto intro: counter dest!: tx_Exec_Inr)
  next
    case n
    then show ?thesis using assms by (intro skip) (auto simp: update_metric_def split: if_splits)
  qed
qed

lemma mem_apply_skip: "(\<And>s. update_metric m s = s) \<Longrightarrow> mem_apply [m] c = c"
  by (simp add: mem_apply_def mem_content_def)

lemma updateMetricsTx_refines:
  assumes "wf_table t" and "typed_table T t" and "typed_batch T ms"
    and "updateMetricsTx ms t os = (Inr t', os')"
  shows "pg_content t' = mem_apply ms (pg_content t) \<and> wf_table t' \<and> typed_table T t'"
  using assms
proof (induction ms arbitrary: t os)
  case Nil
  then show ?case by (simp add: mem_apply_def mem_content_def)
next
  case (Cons m ms)
  from Cons.prems(3) have tm: "T (ID m) = MType m" "typed_batch T ms" by (auto simp: typed_batch_def)
  from Cons.prems(4) show ?case
  proof (cases rule: updateMetricsTx_Cons_cases)
    case skip
    with Cons.IH [OF Cons.prems(1,2) tm(2) skip(2)] show ?thesis by (simp add: mem_apply_Cons [of m ms] mem_apply_skip)
  next
    case (gauge v t1 os1)
    have "pg_content t1 = mem_apply [m] (pg_content t)"
      using pg_gauge_step [OF Cons.prems(2) _ gauge(3)] gauge tm
      by (simp add: mem_apply_def mem_content_def pg_content_def update_metric_def)
    with Cons.IH [OF wf_table_upsertGauge typed_upsertGauge tm(2) gauge(4)] Cons.prems gauge tm show ?thesis
      by (simp add: mem_apply_Cons [of m ms])
  next
    case (counter d t1 os1)
    have "pg_content t1 = mem_apply [m] (pg_content t)"
      using pg_counter_step [OF Cons.prems(1,2) _ counter(3)] counter tm
      by (simp add: mem_apply_def mem_content_def pg_content_def update_metric_def Counter_def Gauge_def)
    with Cons.IH [OF wf_table_upsertCounter typed_upsertCounter tm(2) counter(4)] Cons.prems counter tm show ?thesis
      by (simp add: mem_apply_Cons [of m ms])
  qed
qed

text \<open>
  C16. A transaction that succeeds changes what readers of the database see exactly as the in-memory
  storage changes for the same batch, provided every name keeps one type, and it keeps the table
  well formed: PostgreSQL refines the in-memory storage.
\<close>

theorem pg_refines_mem:
  assumes "wf_table t" and "typed_table T t" and "typed_batch T ms"
    and "updateMetricsTx ms t os = (Inr t', os')"
  shows "pg_content t' = mem_apply ms (pg_content t) \<and> wf_table t' \<and> typed_table T t'"
  using updateMetricsTx_refines [OF assms] .

lemma pg_refines_mem_witness:
  "\<exists>t'. updateMetricsTx [gauge_metric ''g'' 2, counter_metric ''c'' 3] Map.empty [] = (Inr t', [])
      \<and> pg_content t' = mem_apply [gauge_metric ''g'' 2, counter_metric ''c'' 3] (pg_content Map.empty)"
proof -
  let ?ms = "[gauge_metric ''g'' 2, counter_metric ''c'' 3]"
  let ?T = "\<lambda>n. if n = ''g'' then Gauge else Counter"
  obtain t' where t: "updateMetricsTx ?ms Map.empty [] = (Inr t', [])"
    by (simp add: gauge_metric_def counter_metric_def tx_Exec_def upsertGaugeQuery_def upsertCounterQuery_def
        Counter_def Gauge_def)
  have "wf_table Map.empty" "typed_table ?T Map.empty" "typed_batch ?T ?ms"
    by (simp_all add: wf_table_def typed_table_def typed_batch_def gauge_metric_def counter_metric_def)
  from pg_refines_mem [OF this t] t show ?thesis by blast
qed

section \<open>Where the two storages differ\<close>

text \<open>
  C28. A plain counter update whose reply is lost is sent again by the retry loop: it reports success and
  the delta is counted twice. Keyed batches do not have this behaviour.
\<close>

theorem pg_plain_update_doubles:
  assumes "outcomes db = Unacked e # os" and "isPostgresConnectionException e"
    and "list_all (\<lambda>x. x = Good) os"
    and "tbl_metrics db n = Some r" and "row_type r = Counter" and "row_counter r = Some c"
    and "0 \<le> sint c" and "0 \<le> sint d" and "sint c + 2 * sint d < 2 ^ 63"
  shows "\<exists>db'. Pg_UpdateCounter n d db = (None, db') \<and> pg_counter_view (tbl_metrics db') n = Some (c + d + d)"
proof -
  have "sint (c + d) = sint c + sint d"
    using assms(7-9) by (intro sint_add_in_range) simp_all
  then have a: "bigint_add c d = Inr (c + d)" "bigint_add (c + d) d = Inr (c + d + d)"
    using assms(7-9) by (simp_all add: bigint_add_def)
  let ?stmt = "upsertCounterQuery n Counter d"
  obtain os2 where os2: "next_outcome os = (Good, os2)" using assms(3) by (cases os) auto
  obtain db1 where 1: "db_Exec ?stmt db = (Some e, db1)" "outcomes db1 = os"
    "tbl_metrics db1 n = Some (r\<lparr>row_type := Counter, row_gauge := None, row_counter := Some (c + d)\<rparr>)"
    using assms(1,4,6) by (simp add: db_Exec_def upsertCounterQuery_def a)
  obtain db2 where 2: "db_Exec ?stmt db1 = (None, db2)" "pg_counter_view (tbl_metrics db2) n = Some (c + d + d)"
    using 1 os2 by (simp add: db_Exec_def upsertCounterQuery_def a pg_counter_view_def)
  show ?thesis
    using 1 2 assms(2)
    by (simp add: Pg_UpdateCounter_def retryPostgres_def Do_def DoWithSleeper_def defaultDelays_def settled_def)
qed

lemma pg_plain_update_doubles_witness:
  "\<exists>db'. Pg_UpdateCounter ''c'' 5
       \<lparr>tbl_metrics = [''c'' \<mapsto> \<lparr>row_type = Counter, row_gauge = None, row_counter = Some 1\<rparr>],
        tbl_receipts = Map.empty, outcomes = [Unacked conn_lost]\<rparr> = (None, db')
     \<and> pg_counter_view (tbl_metrics db') ''c'' = Some 11"
  using pg_plain_update_doubles [of "\<lparr>tbl_metrics = [''c'' \<mapsto> \<lparr>row_type = Counter, row_gauge = None, row_counter = Some 1\<rparr>],
        tbl_receipts = Map.empty, outcomes = [Unacked conn_lost]\<rparr>" conn_lost "[]" "''c''" _ 1 5] by simp

text \<open>
  C29. A keyed batch whose commit reply is lost is retried, finds its own receipt, and is reported as not
  applied although this very call stored its metrics.
\<close>

theorem pg_once_lost_commit:
  assumes "tbl_receipts db k = None"
    and "pg_updateMetricsOnce k f ms db = ((False, Some e), db1)" and "tbl_receipts db1 k = Some f"
    and "isPostgresConnectionException e" and "outcomes db1 = []"
  shows "\<exists>db'. Pg_UpdateMetricsOnce k f ms db = ((False, None), db')
      \<and> tbl_metrics db' = pg_apply ms (tbl_metrics db) \<and> tbl_receipts db' k = Some f"
proof -
  have "tbl_metrics db1 = pg_apply ms (tbl_metrics db)"
    using pg_updateMetricsOnce_step [OF assms(2)] assms(1,3) by (auto simp: once_step_def dest: pg_applies_apply)
  moreover have "pg_updateMetricsOnce k f ms db1 = ((False, None), db1)"
    using assms(3,5) by (simp add: pg_updateMetricsOnce_def plain_call_def)
  ultimately show ?thesis
    using assms by (simp add: Pg_UpdateMetricsOnce_def retryPostgres_def Do_def DoWithSleeper_def defaultDelays_def
        once_closure_def settled_def)
qed

lemma pg_once_lost_commit_witness:
  "\<exists>db'. Pg_UpdateMetricsOnce ''k'' ''f'' [counter_metric ''c'' 5]
       \<lparr>tbl_metrics = Map.empty, tbl_receipts = Map.empty, outcomes = [Good, Good, Good, Good, Unacked conn_lost]\<rparr>
       = ((False, None), db')
     \<and> tbl_metrics db' = pg_apply [counter_metric ''c'' 5] Map.empty \<and> tbl_receipts db' ''k'' = Some ''f''"
  using pg_once_lost_commit [of "\<lparr>tbl_metrics = Map.empty, tbl_receipts = Map.empty,
      outcomes = [Good, Good, Good, Good, Unacked conn_lost]\<rparr>" "''k''" "''f''" "[counter_metric ''c'' 5]"]
  by (simp add: pg_updateMetricsOnce_def plain_call_def tx_Exec_def commit_call_def upsertCounterQuery_def counter_metric_def
      Counter_def Gauge_def isPostgresConnectionException_def conn_lost_def HasPrefix_def)

text \<open>
  C30. A name that is written as a gauge and then as a counter: the in-memory storage keeps both metrics,
  the PostgreSQL storage, whose rows are keyed by the name alone, has lost the gauge, without an error.
\<close>

theorem type_clash_differs:
  assumes "pg_inv db"
    and "run_updates Pg_UpdateGauge Pg_UpdateCounter [UpGauge n v, UpCounter n d] db = Some db'"
    and "run_updates Mem_UpdateGauge Mem_UpdateCounter [UpGauge n v, UpCounter n d] s = Some s'"
  shows "pg_gauge_view (tbl_metrics db') n = None \<and> ms_gauges s' n = Some v"
proof -
  obtain db1 where u: "Pg_UpdateGauge n v db = (None, db1)" "Pg_UpdateCounter n d db1 = (None, db')"
    using assms(2) by (auto split: prod.splits option.splits)
  have "pg_inv db1" "upsertCounterQuery n Counter d (tbl_metrics db1) = Inr (tbl_metrics db')"
    using u pg_repo.gauge_inv [OF assms(1) u(1)] Pg_UpdateCounter_result [OF _ u(2)] by (auto simp: pg_inv_def)
  then have "pg_gauge_view (tbl_metrics db') n = None"
    using upsertCounter_views(2) by (auto simp: pg_inv_def)
  moreover have "ms_gauges s' n = Some v"
    using assms(3) by (auto simp: Mem_UpdateGauge_def Mem_UpdateCounter_def)
  ultimately show ?thesis by simp
qed

lemma type_clash_differs_witness:
  "\<exists>db' s'. pg_gauge_view (tbl_metrics db') ''x'' = None \<and> ms_gauges s' ''x'' = Some 1
     \<and> run_updates Pg_UpdateGauge Pg_UpdateCounter [UpGauge ''x'' 1, UpCounter ''x'' 2]
          \<lparr>tbl_metrics = Map.empty, tbl_receipts = Map.empty, outcomes = []\<rparr> = Some db'
     \<and> run_updates Mem_UpdateGauge Mem_UpdateCounter [UpGauge ''x'' 1, UpCounter ''x'' 2] NewMemStorage = Some s'"
proof -
  let ?us = "[UpGauge ''x'' 1, UpCounter ''x'' 2]"
  let ?db = "\<lparr>tbl_metrics = Map.empty, tbl_receipts = Map.empty, outcomes = []\<rparr>"
  obtain db' where d: "run_updates Pg_UpdateGauge Pg_UpdateCounter ?us ?db = Some db'"
    by (simp add: pg_eval)
  obtain s' where s: "run_updates Mem_UpdateGauge Mem_UpdateCounter ?us NewMemStorage = Some s'"
    by (simp add: Mem_UpdateGauge_def Mem_UpdateCounter_def)
  have "pg_inv ?db" by (simp add: pg_inv_def acked_def wf_table_def)
  from type_clash_differs [OF this d s] d s show ?thesis by blast
qed

end
