(* ===== verification/Service.thy ===== *)
theory Service
  imports Mem_File Pg_Views
begin

text \<open>
  \<open>internal/service/metrics.go\<close>: the service over any repository. A repository is the record of its
  methods over a world type; the two optional interfaces the service asks for with a type assertion
  (\<open>MetricsBatchRepository\<close>, \<open>IdempotentRepository\<close>) are optional fields. The in-memory and the
  PostgreSQL storage are two such records. \<open>saveOnUpdate\<close> is an optional closure over the same world.
\<close>

section \<open>The service\<close>

record 'w MetricsRepository =
  rp_UpdateGauge :: "string \<Rightarrow> float64 \<Rightarrow> 'w \<Rightarrow> gerr \<times> 'w"
  rp_UpdateCounter :: "string \<Rightarrow> int64 \<Rightarrow> 'w \<Rightarrow> gerr \<times> 'w"
  rp_GetGauge :: "string \<Rightarrow> 'w \<Rightarrow> float64 option \<times> 'w"
  rp_GetCounter :: "string \<Rightarrow> 'w \<Rightarrow> int64 option \<times> 'w"
  rp_GetAllGauges :: "string list \<Rightarrow> 'w \<Rightarrow> float64 gomap \<times> 'w"
  rp_GetAllCounters :: "string list \<Rightarrow> 'w \<Rightarrow> int64 gomap \<times> 'w"
  rp_UpdateMetrics :: "(Metrics list \<Rightarrow> 'w \<Rightarrow> gerr \<times> 'w) option"
  rp_UpdateMetricsOnce :: "(string \<Rightarrow> string \<Rightarrow> Metrics list \<Rightarrow> 'w \<Rightarrow> (bool \<times> gerr) \<times> 'w) option"

record 'w MetricsService =
  svc_repo :: "'w MetricsRepository"
  svc_saveOnUpdate :: "('w \<Rightarrow> gerr \<times> 'w) option"

definition NewMetricsService :: "'w MetricsRepository \<Rightarrow> 'w MetricsService" where
  "NewMetricsService repo = \<lparr>svc_repo = repo, svc_saveOnUpdate = None\<rparr>"

definition SetSaveOnUpdate :: "('w \<Rightarrow> gerr \<times> 'w) \<Rightarrow> 'w MetricsService \<Rightarrow> 'w MetricsService" where
  "SetSaveOnUpdate save s = s\<lparr>svc_saveOnUpdate := Some save\<rparr>"

definition svc_save :: "'w MetricsService \<Rightarrow> 'w \<Rightarrow> gerr \<times> 'w" where
  "svc_save s w = (case svc_saveOnUpdate s of Some save \<Rightarrow> save w | None \<Rightarrow> (None, w))"

definition Svc_UpdateGauge :: "'w MetricsService \<Rightarrow> string \<Rightarrow> float64 \<Rightarrow> 'w \<Rightarrow> gerr \<times> 'w" where
  "Svc_UpdateGauge s name v w =
     (case rp_UpdateGauge (svc_repo s) name v w of (Some e, w') \<Rightarrow> (Some e, w') | (None, w') \<Rightarrow> svc_save s w')"

definition Svc_UpdateCounter :: "'w MetricsService \<Rightarrow> string \<Rightarrow> int64 \<Rightarrow> 'w \<Rightarrow> gerr \<times> 'w" where
  "Svc_UpdateCounter s name d w =
     (case rp_UpdateCounter (svc_repo s) name d w of (Some e, w') \<Rightarrow> (Some e, w') | (None, w') \<Rightarrow> svc_save s w')"

text \<open>The loop \<open>UpdateMetrics\<close> falls back to; it stops at the first error.\<close>

fun update_each :: "'w MetricsRepository \<Rightarrow> Metrics list \<Rightarrow> 'w \<Rightarrow> gerr \<times> 'w" where
  "update_each repo [] w = (None, w)"
| "update_each repo (m # ms) w =
     (if MType m = Gauge then
        (case Value m of
           None \<Rightarrow> update_each repo ms w
         | Some v \<Rightarrow> (case rp_UpdateGauge repo (ID m) v w of
                       (Some e, w') \<Rightarrow> (Some e, w') | (None, w') \<Rightarrow> update_each repo ms w'))
      else if MType m = Counter then
        (case Delta m of
           None \<Rightarrow> update_each repo ms w
         | Some d \<Rightarrow> (case rp_UpdateCounter repo (ID m) d w of
                       (Some e, w') \<Rightarrow> (Some e, w') | (None, w') \<Rightarrow> update_each repo ms w'))
      else update_each repo ms w)"

definition Svc_UpdateMetrics :: "'w MetricsService \<Rightarrow> Metrics list \<Rightarrow> 'w \<Rightarrow> gerr \<times> 'w" where
  "Svc_UpdateMetrics s ms w =
     (case (case rp_UpdateMetrics (svc_repo s) of Some upd \<Rightarrow> upd ms w | None \<Rightarrow> update_each (svc_repo s) ms w) of
        (Some e, w') \<Rightarrow> (Some e, w')
      | (None, w') \<Rightarrow> svc_save s w')"

definition Svc_GetGauge :: "'w MetricsService \<Rightarrow> string \<Rightarrow> 'w \<Rightarrow> float64 option \<times> 'w" where
  "Svc_GetGauge s = rp_GetGauge (svc_repo s)"

definition Svc_GetCounter :: "'w MetricsService \<Rightarrow> string \<Rightarrow> 'w \<Rightarrow> int64 option \<times> 'w" where
  "Svc_GetCounter s = rp_GetCounter (svc_repo s)"

definition Svc_GetAllGauges :: "'w MetricsService \<Rightarrow> string list \<Rightarrow> 'w \<Rightarrow> float64 gomap \<times> 'w" where
  "Svc_GetAllGauges s = rp_GetAllGauges (svc_repo s)"

definition Svc_GetAllCounters :: "'w MetricsService \<Rightarrow> string list \<Rightarrow> 'w \<Rightarrow> int64 gomap \<times> 'w" where
  "Svc_GetAllCounters s = rp_GetAllCounters (svc_repo s)"

definition Svc_UpdateMetricsOnce ::
  "golib \<Rightarrow> 'w MetricsService \<Rightarrow> string \<Rightarrow> Metrics list \<Rightarrow> 'w \<Rightarrow> (bool \<times> gerr) \<times> 'w" where
  "Svc_UpdateMetricsOnce lib s key ms w =
     (if ms = [] then ((False, None), w)
      else if key = '''' then (let (err, w') = Svc_UpdateMetrics s ms w in ((True, err), w'))
      else if \<not> ValidKey key then ((False, Some (ErrorString ''invalid idempotency key'')), w)
      else case rp_UpdateMetricsOnce (svc_repo s) of
             None \<Rightarrow> ((False, Some (ErrorString ''storage does not support idempotent batches'')), w)
           | Some once \<Rightarrow>
             (case Fingerprint lib ms of
                Inl e \<Rightarrow> ((False, Some (WrapError ''fingerprint metrics'' [e])), w)
              | Inr fingerprint \<Rightarrow>
                (case once key fingerprint ms w of
                   ((_, Some e), w') \<Rightarrow> ((False, Some e), w')
                 | ((applied, None), w') \<Rightarrow> (let (err, w2) = svc_save s w' in ((applied, err), w2)))))"

section \<open>The two storages as repositories\<close>

text \<open>The process state of a server with in-memory storage: the storage, the files, and the outcome of
  the system calls and the map orders of the next save.\<close>

record mem_world =
  mw_store :: MemStorage
  mw_fs :: fs
  mw_io :: save_io
  mw_ord :: orders

definition on_store :: "(MemStorage \<Rightarrow> 'r \<times> MemStorage) \<Rightarrow> mem_world \<Rightarrow> 'r \<times> mem_world" where
  "on_store f w = (let (r, s) = f (mw_store w) in (r, w\<lparr>mw_store := s\<rparr>))"

definition mem_repository :: "mem_world MetricsRepository" where
  "mem_repository =
     \<lparr>rp_UpdateGauge = (\<lambda>n v. on_store (Mem_UpdateGauge n v)),
      rp_UpdateCounter = (\<lambda>n d. on_store (Mem_UpdateCounter n d)),
      rp_GetGauge = (\<lambda>n w. (Mem_GetGauge (mw_store w) n, w)),
      rp_GetCounter = (\<lambda>n w. (Mem_GetCounter (mw_store w) n, w)),
      rp_GetAllGauges = (\<lambda>ks w. (Mem_GetAllGauges ks (mw_store w), w)),
      rp_GetAllCounters = (\<lambda>ks w. (Mem_GetAllCounters ks (mw_store w), w)),
      rp_UpdateMetrics = Some (\<lambda>ms. on_store (Mem_UpdateMetrics ms)),
      rp_UpdateMetricsOnce = Some (\<lambda>k f ms. on_store (Mem_UpdateMetricsOnce k f ms))\<rparr>"

definition pg_repository :: "pgdb MetricsRepository" where
  "pg_repository =
     \<lparr>rp_UpdateGauge = Pg_UpdateGauge, rp_UpdateCounter = Pg_UpdateCounter,
      rp_GetGauge = Pg_GetGauge, rp_GetCounter = Pg_GetCounter,
      rp_GetAllGauges = Pg_GetAllGauges, rp_GetAllCounters = Pg_GetAllCounters,
      rp_UpdateMetrics = Some Pg_UpdateMetrics, rp_UpdateMetricsOnce = Some Pg_UpdateMetricsOnce\<rparr>"

text \<open>\<open>persistence.save\<close> on the in-memory storage; the error handler only logs.\<close>

definition saveAndHandle :: "golib \<Rightarrow> string \<Rightarrow> mem_world \<Rightarrow> gerr \<times> mem_world" where
  "saveAndHandle lib path w =
     (let (err, fs') = SaveToFile lib (mw_io w) (mw_ord w) path (mw_store w) (mw_fs w) in (err, w\<lparr>mw_fs := fs'\<rparr>))"

text \<open>\<open>NewMetricsServiceWithPersistence\<close> with interval 0 saves after every update.\<close>

definition synchronous_service :: "golib \<Rightarrow> string \<Rightarrow> mem_world MetricsService" where
  "synchronous_service lib path = SetSaveOnUpdate (saveAndHandle lib path) (NewMetricsService mem_repository)"

lemma on_store_simps [simp]:
  "f (mw_store w) = (r, s) \<Longrightarrow> on_store f w = (r, w\<lparr>mw_store := s\<rparr>)"
  by (simp add: on_store_def)

lemma saveAndHandle_keeps:
  "saveAndHandle lib path w = (err, w') \<Longrightarrow> mw_store w' = mw_store w \<and> mw_io w' = mw_io w \<and> mw_ord w' = mw_ord w"
  by (auto simp: saveAndHandle_def split: prod.splits)

section \<open>Batches\<close>

lemma update_each_mem:
  "update_each (mem_repository\<lparr>rp_UpdateMetrics := b\<rparr>) ms w = (None, w\<lparr>mw_store := updateMetricsLocked ms (mw_store w)\<rparr>)"
proof (induction ms arbitrary: w)
  case (Cons m ms)
  have *: "rp_UpdateGauge (mem_repository\<lparr>rp_UpdateMetrics := b\<rparr>) = (\<lambda>n v. on_store (Mem_UpdateGauge n v))"
    "rp_UpdateCounter (mem_repository\<lparr>rp_UpdateMetrics := b\<rparr>) = (\<lambda>n d. on_store (Mem_UpdateCounter n d))"
    by (simp_all add: mem_repository_def)
  show ?case
    by (simp add: * Cons.IH on_store_def Mem_UpdateGauge_def Mem_UpdateCounter_def update_metric_def split: option.split)
qed simp

text \<open>
  The batch method of the in-memory storage and the loop the service falls back to for a storage
  without one store the same metrics and report the same error.
\<close>

theorem batch_equals_loop:
  "Svc_UpdateMetrics \<lparr>svc_repo = mem_repository, svc_saveOnUpdate = save\<rparr> ms w =
   Svc_UpdateMetrics \<lparr>svc_repo = mem_repository\<lparr>rp_UpdateMetrics := None\<rparr>, svc_saveOnUpdate = save\<rparr> ms w"
proof -
  have "rp_UpdateMetrics mem_repository = Some (\<lambda>ms. on_store (Mem_UpdateMetrics ms))"
    by (simp add: mem_repository_def)
  moreover have "on_store (Mem_UpdateMetrics ms) w = (None, w\<lparr>mw_store := updateMetricsLocked ms (mw_store w)\<rparr>)"
    by (simp add: Mem_UpdateMetrics_def)
  ultimately show ?thesis
    by (simp add: Svc_UpdateMetrics_def update_each_mem svc_save_def)
qed

section \<open>Keyed batches\<close>

text \<open>What one keyed call of a service with a valid key does.\<close>

lemma Svc_UpdateMetricsOnce_keyed:
  assumes "ValidKey key" and "ms \<noteq> []" and "rp_UpdateMetricsOnce (svc_repo s) = Some once"
  shows "Svc_UpdateMetricsOnce lib s key ms w =
    (case Fingerprint lib ms of
       Inl e \<Rightarrow> ((False, Some (WrapError ''fingerprint metrics'' [e])), w)
     | Inr f \<Rightarrow> (case once key f ms w of
                  ((_, Some e), w') \<Rightarrow> ((False, Some e), w')
                | ((applied, None), w') \<Rightarrow> (let (err, w2) = svc_save s w' in ((applied, err), w2))))"
proof -
  have "key \<noteq> ''''" using assms(1) by (auto simp: ValidKey_def)
  with assms show ?thesis by (simp add: Svc_UpdateMetricsOnce_def)
qed

lemma Svc_UpdateMetricsOnce_invalid:
  assumes "\<not> ValidKey key" and "key \<noteq> ''''" and "ms \<noteq> []"
  shows "Svc_UpdateMetricsOnce lib s key ms w = ((False, Some (ErrorString ''invalid idempotency key'')), w)"
  using assms by (simp add: Svc_UpdateMetricsOnce_def)

end
