(* ===== verification/Audit_Log.thy ===== *)
theory Audit_Log
  imports Mem_File
begin

text \<open>
  \<open>internal/audit\<close>: events, the notifier that passes them to its observers, and the two observers. The
  state \<open>'w\<close> is whatever the observers write to; the file observer appends to a file of the file system.
\<close>

record Event =
  ev_Timestamp :: int64
  ev_Metrics :: "string list"
  ev_IPAddress :: string

type_synonym 'w observer = "Event \<Rightarrow> 'w \<Rightarrow> gerr \<times> 'w"

text \<open>The notifier is the list of its observers; \<open>Subscribe\<close> skips a nil observer.\<close>

definition NewNotifier :: "'w observer list \<Rightarrow> 'w observer list" where
  "NewNotifier observers = observers"

definition Subscribe :: "'w observer option \<Rightarrow> 'w observer list \<Rightarrow> 'w observer list" where
  "Subscribe ob obs = (case ob of None \<Rightarrow> obs | Some x \<Rightarrow> obs @ [x])"

definition Enabled :: "'w observer list option \<Rightarrow> bool" where
  "Enabled n = (case n of None \<Rightarrow> False | Some obs \<Rightarrow> length obs > 0)"

fun notify_loop :: "'w observer list \<Rightarrow> Event \<Rightarrow> gerr \<Rightarrow> 'w \<Rightarrow> gerr \<times> 'w" where
  "notify_loop [] ev result w = (result, w)"
| "notify_loop (ob # obs) ev result w =
     (let (err, w') = ob ev w
      in notify_loop obs ev (if err \<noteq> None then errors_Join [result, err] else result) w')"

definition Notifier_Notify :: "'w observer list \<Rightarrow> 'w observer" where
  "Notifier_Notify obs ev w = notify_loop obs ev None w"

text \<open>\<open>net.SplitHostPort\<close> is an argument: the host, if the address has the form host:port.\<close>

definition requestIP :: "(string \<Rightarrow> string option) \<Rightarrow> string \<Rightarrow> string" where
  "requestIP split_host_port remoteAddr = (case split_host_port remoteAddr of Some host \<Rightarrow> host | None \<Rightarrow> remoteAddr)"

definition NewEvent :: "(string \<Rightarrow> string option) \<Rightarrow> int64 \<Rightarrow> string list \<Rightarrow> string \<Rightarrow> Event" where
  "NewEvent shp now names remoteAddr = \<lparr>ev_Timestamp = now, ev_Metrics = names, ev_IPAddress = requestIP shp remoteAddr\<rparr>"

definition json_of_Event :: "Event \<Rightarrow> json" where
  "json_of_Event e =
     JObj [(''ts'', JNum (FormatInt (ev_Timestamp e))), (''metrics'', JArr (map JStr (ev_Metrics e))),
           (''ip_address'', JStr (ev_IPAddress e))]"

text \<open>The system calls of one \<open>FileObserver.Notify\<close>; a failing write may leave a part of the line.\<close>

record audit_io =
  au_ctx :: gerr
  au_dir :: string
  au_mkdir :: gerr
  au_open :: gerr
  au_write :: gerr
  au_written :: bytes

definition append_file :: "string \<Rightarrow> bytes \<Rightarrow> fs \<Rightarrow> fs" where
  "append_file path data fs = fs(path \<mapsto> (case fs path of None \<Rightarrow> [] | Some old \<Rightarrow> old) @ data)"

record FileObserver =
  fo_path :: string

definition NewFileObserver :: "string \<Rightarrow> FileObserver" where
  "NewFileObserver path = \<lparr>fo_path = path\<rparr>"

definition FileObserver_Notify :: "audit_io \<Rightarrow> FileObserver \<Rightarrow> Event \<Rightarrow> fs \<Rightarrow> gerr \<times> fs" where
  "FileObserver_Notify io o' ev fs =
     (case au_ctx io of
        Some e \<Rightarrow> (Some e, fs)
      | None \<Rightarrow>
        (let data = json_print (json_of_Event ev) @ newline in
         case (if au_dir io \<noteq> ''.'' then au_mkdir io else None) of
           Some e \<Rightarrow> (wrap ''create audit directory'' e, fs)
         | None \<Rightarrow>
           (case au_open io of
              Some e \<Rightarrow> (wrap ''open audit file'' e, fs)
            | None \<Rightarrow>
              (case au_write io of
                 Some e \<Rightarrow> (wrap ''write audit event'' e, append_file (fo_path o') (au_written io) fs)
               | None \<Rightarrow> (None, append_file (fo_path o') data fs)))))"

text \<open>
  A nil client is replaced by one with a timeout of five seconds, \<open>default_client\<close>. A client is \<open>o.client.Do\<close> on the URL and
  the JSON body; \<open>url_error\<close> is the error of building the request.
\<close>

type_synonym 'w audit_client = "string \<Rightarrow> bytes \<Rightarrow> 'w \<Rightarrow> (goerror + nat) \<times> 'w"

record 'w HTTPObserver =
  ho_url :: string
  ho_client :: "'w audit_client"

definition NewHTTPObserver :: "'w audit_client \<Rightarrow> string \<Rightarrow> 'w audit_client option \<Rightarrow> 'w HTTPObserver" where
  "NewHTTPObserver default_client url client =
     \<lparr>ho_url = url, ho_client = (case client of None \<Rightarrow> default_client | Some c \<Rightarrow> c)\<rparr>"

definition HTTPObserver_Notify :: "gerr \<Rightarrow> 'w HTTPObserver \<Rightarrow> 'w observer" where
  "HTTPObserver_Notify url_error o' ev w =
     (case url_error of
        Some e \<Rightarrow> (wrap ''create audit request'' e, w)
      | None \<Rightarrow>
        (case ho_client o' (ho_url o') (json_print (json_of_Event ev)) w of
           (Inl e, w') \<Rightarrow> (wrap ''send audit event'' e, w')
         | (Inr code, w') \<Rightarrow>
             (if code < 200 \<or> code \<ge> 300 then Some (ErrorString ''unexpected audit response status'') else None, w')))"

section \<open>Every observer is told\<close>

lemma notify_loop_state: "snd (notify_loop obs ev r w) = fold (\<lambda>ob w. snd (ob ev w)) obs w"
  by (induction obs arbitrary: r w) (auto simp: Let_def split: prod.splits)

fun observer_errors :: "'w observer list \<Rightarrow> Event \<Rightarrow> 'w \<Rightarrow> gerr list" where
  "observer_errors [] ev w = []"
| "observer_errors (ob # obs) ev w = fst (ob ev w) # observer_errors obs ev (snd (ob ev w))"

lemma notify_loop_error:
  "fst (notify_loop obs ev r w) = None \<longleftrightarrow> r = None \<and> (\<forall>e \<in> set (observer_errors obs ev w). e = None)"
  by (induction obs arbitrary: r w) (auto simp: errors_Join_None_iff split: prod.splits)

lemma notify_loop_Is:
  assumes "fst (notify_loop obs ev r w) = Some e"
  shows "errors_Is e t \<longleftrightarrow> (\<exists>x. (r = Some x \<or> Some x \<in> set (observer_errors obs ev w)) \<and> errors_Is x t)"
  using assms
proof (induction obs arbitrary: r w)
  case (Cons ob obs)
  obtain err w' where o: "ob ev w = (err, w')" by fastforce
  show ?case
  proof (cases err)
    case None
    with Cons o show ?thesis by simp
  next
    case (Some x)
    obtain j where j: "errors_Join [r, err] = Some j"
      using Some errors_Join_None_iff [of "[r, err]"] by (cases "errors_Join [r, err]") auto
    with Cons o Some errors_Is_Join [OF j, of t] show ?thesis by auto
  qed
qed simp

text \<open>
  The notifier passes an event to every observer in order, also after one has failed; it returns nil
  exactly if all of them did, and its error matches every sentinel that an observer's error matches.
\<close>

theorem Notify_reaches_all:
  "snd (Notifier_Notify obs ev w) = fold (\<lambda>ob w. snd (ob ev w)) obs w
   \<and> (case fst (Notifier_Notify obs ev w) of
        None \<Rightarrow> list_all (\<lambda>e. e = None) (observer_errors obs ev w)
      | Some e \<Rightarrow> errors_Is e t = list_ex (\<lambda>x. case x of None \<Rightarrow> False | Some y \<Rightarrow> errors_Is y t) (observer_errors obs ev w))"
proof -
  have "fst (Notifier_Notify obs ev w) = None \<longleftrightarrow> list_all (\<lambda>e. e = None) (observer_errors obs ev w)"
    by (simp add: Notifier_Notify_def notify_loop_error list_all_iff)
  moreover have "errors_Is e t = list_ex (\<lambda>x. case x of None \<Rightarrow> False | Some y \<Rightarrow> errors_Is y t) (observer_errors obs ev w)"
    if "fst (Notifier_Notify obs ev w) = Some e" for e
    using notify_loop_Is [of obs ev None w e t] that
    by (force simp: Notifier_Notify_def list_ex_iff split: option.splits)
  ultimately show ?thesis
    by (auto simp: Notifier_Notify_def notify_loop_state split: option.split)
qed

section \<open>The audit file\<close>

text \<open>The lines of a text that ends with a newline; a rest without one is left out.\<close>

fun split_lines :: "string \<Rightarrow> string \<Rightarrow> string list" where
  "split_lines acc [] = []"
| "split_lines acc (c # s) = (if [c] = newline then rev acc # split_lines [] s else split_lines (c # acc) s)"

lemma split_lines_line:
  "list_all (\<lambda>c. [c] \<noteq> newline) l \<Longrightarrow> split_lines acc (l @ newline @ s) = (rev acc @ l) # split_lines [] s"
  by (induction l arbitrary: acc) (auto simp: newline_def)

definition event_line :: "Event \<Rightarrow> string" where
  "event_line ev = json_print (json_of_Event ev)"

lemma well_formed_Event: "well_formed max_depth (json_of_Event ev)"
  by (simp add: json_of_Event_def max_depth_Suc list_all_iff)

lemma event_line_one_line: "list_all (\<lambda>c. [c] \<noteq> newline) (event_line ev)"
  using json_print_printable [OF well_formed_Event [of ev]]
  by (auto simp: event_line_def list_all_iff newline_def)

lemma split_event_lines:
  "split_lines [] (concat (map (\<lambda>ev. event_line ev @ newline) evs)) = map event_line evs"
  by (induction evs) (simp_all add: split_lines_line [OF event_line_one_line])

text \<open>A sequence of calls, each with the outcomes of its system calls; the events that were acknowledged.\<close>

fun audit_run :: "string \<Rightarrow> (audit_io \<times> Event) list \<Rightarrow> fs \<Rightarrow> Event list \<times> fs" where
  "audit_run path [] fs = ([], fs)"
| "audit_run path ((io, ev) # calls) fs =
     (case FileObserver_Notify io (NewFileObserver path) ev fs of
        (err, fs') \<Rightarrow> apfst (\<lambda>evs. if err = None then ev # evs else evs) (audit_run path calls fs'))"

lemma audit_run_content:
  assumes "list_all (\<lambda>(io, ev). au_write io = None) calls" "audit_run path calls fs = (evs, fs')"
  shows "(case fs' path of None \<Rightarrow> [] | Some t \<Rightarrow> t)
           = (case fs path of None \<Rightarrow> [] | Some t \<Rightarrow> t) @ concat (map (\<lambda>ev. event_line ev @ newline) evs)
         \<and> (\<forall>p. p \<noteq> path \<longrightarrow> fs' p = fs p)"
  using assms
proof (induction calls arbitrary: fs evs)
  case (Cons c calls)
  obtain io ev where c: "c = (io, ev)" by fastforce
  obtain err fs1 where n: "FileObserver_Notify io (NewFileObserver path) ev fs = (err, fs1)" by fastforce
  obtain evs1 where r: "audit_run path calls fs1 = (evs1, fs')" "evs = (if err = None then ev # evs1 else evs1)"
    using Cons.prems(2) c n by (cases "audit_run path calls fs1") auto
  have "fs1 = (if err = None then append_file path (event_line ev @ newline) fs else fs)"
    using n Cons.prems(1) c
    by (auto simp: FileObserver_Notify_def NewFileObserver_def wrap_def event_line_def Let_def split: option.splits if_splits)
  with Cons.IH [OF _ r(1)] Cons.prems(1) r(2) show ?case by (auto simp: append_file_def split: option.splits)
qed simp



end
