(* ===== verification/Persistence.thy ===== *)
theory Persistence
  imports Service
begin

text \<open>
  \<open>internal/service/persistence.go\<close>: the background saver and its shutdown. The channels \<open>stop\<close> and
  \<open>done\<close> are the flags that they are closed, \<open>sync.Once\<close> is the progress of the one call that runs its
  function. The goroutine \<open>run\<close>, the caller of \<open>close\<close> and the writers of metrics interleave freely;
  saves hold the mutex and are single steps. A \<open>select\<close> with both cases ready may take either.
\<close>

section \<open>The state machine\<close>

datatype once_state = NotStarted | Closing | Finished

record 'w persistence =
  p_stop :: bool
  p_done :: bool
  p_once :: once_state
  p_err :: gerr
  p_world :: 'w

text \<open>With interval 0 there is no goroutine and \<open>done\<close> is closed at once.\<close>

definition configurePersistence :: "int \<Rightarrow> 'w \<Rightarrow> 'w persistence" where
  "configurePersistence interval w =
     \<lparr>p_stop = False, p_done = (interval = 0), p_once = NotStarted, p_err = None, p_world = w\<rparr>"

text \<open>One iteration of the loop of \<open>run\<close>: the ticker fires, or \<open>stop\<close> is closed and the goroutine returns.\<close>

definition run_tick :: "('w \<Rightarrow> gerr \<times> 'w) \<Rightarrow> 'w persistence \<Rightarrow> 'w persistence" where
  "run_tick save p = p\<lparr>p_world := snd (save (p_world p))\<rparr>"

definition run_return :: "'w persistence \<Rightarrow> 'w persistence" where
  "run_return p = p\<lparr>p_done := True\<rparr>"

text \<open>\<open>close\<close> up to the wait for \<open>done\<close>, and the final save after it.\<close>

definition close_begin :: "'w persistence \<Rightarrow> 'w persistence" where
  "close_begin p = p\<lparr>p_stop := True, p_once := Closing\<rparr>"

definition close_finish :: "('w \<Rightarrow> gerr \<times> 'w) \<Rightarrow> 'w persistence \<Rightarrow> 'w persistence" where
  "close_finish save p = (let (err, w) = save (p_world p) in p\<lparr>p_err := err, p_world := w, p_once := Finished\<rparr>)"

text \<open>What \<open>close\<close> returns; \<open>once.Do\<close> makes every caller wait until the first call is finished.\<close>

definition close_result :: "'w persistence \<Rightarrow> gerr option" where
  "close_result p = (if p_once p = Finished then Some (p_err p) else None)"

text \<open>
  The steps. \<open>upd\<close> is what writers may do to the world; as the comment on \<open>Close\<close> asks, no writer is
  active once \<open>Close\<close> has been called. \<open>env\<close> is what the environment may do at any time: choose the
  outcome of the next save. The label says whether the step saves.
\<close>

inductive pstep ::
  "('w \<Rightarrow> gerr \<times> 'w) \<Rightarrow> ('w \<Rightarrow> 'w \<Rightarrow> bool) \<Rightarrow> ('w \<Rightarrow> 'w \<Rightarrow> bool) \<Rightarrow> 'w persistence \<Rightarrow> bool \<Rightarrow> 'w persistence \<Rightarrow> bool"
  for save :: "'w \<Rightarrow> gerr \<times> 'w" and upd env :: "'w \<Rightarrow> 'w \<Rightarrow> bool" where
  tick: "\<not> p_done p \<Longrightarrow> pstep save upd env p True (run_tick save p)"
| returns: "\<not> p_done p \<Longrightarrow> p_stop p \<Longrightarrow> pstep save upd env p False (run_return p)"
| closing: "p_once p = NotStarted \<Longrightarrow> pstep save upd env p False (close_begin p)"
| finish: "p_once p = Closing \<Longrightarrow> p_done p \<Longrightarrow> pstep save upd env p True (close_finish save p)"
| writer: "p_once p = NotStarted \<Longrightarrow> upd (p_world p) w \<Longrightarrow> pstep save upd env p False (p\<lparr>p_world := w\<rparr>)"
| choose: "env (p_world p) w \<Longrightarrow> pstep save upd env p False (p\<lparr>p_world := w\<rparr>)"

inductive_cases pstepE: "pstep save upd env p b p'"

inductive prun ::
  "('w \<Rightarrow> gerr \<times> 'w) \<Rightarrow> ('w \<Rightarrow> 'w \<Rightarrow> bool) \<Rightarrow> ('w \<Rightarrow> 'w \<Rightarrow> bool) \<Rightarrow> 'w persistence \<Rightarrow> bool list \<Rightarrow> 'w persistence \<Rightarrow> bool"
  for save :: "'w \<Rightarrow> gerr \<times> 'w" and upd env :: "'w \<Rightarrow> 'w \<Rightarrow> bool" where
  start: "prun save upd env p [] p"
| more: "prun save upd env p bs p' \<Longrightarrow> pstep save upd env p' b p'' \<Longrightarrow> prun save upd env p (bs @ [b]) p''"

lemmas pstep_defs = run_tick_def run_return_def close_begin_def close_finish_def configurePersistence_def

section \<open>Shutdown\<close>

text \<open>
  What clients need of a save: it keeps what the writers keep, and one that returns nil establishes
  \<open>saved\<close>. Under this contract a closed persistence is at rest with everything saved.
\<close>

locale saver =
  fixes save :: "'w \<Rightarrow> gerr \<times> 'w"
    and upd env :: "'w \<Rightarrow> 'w \<Rightarrow> bool"
    and inv :: "'w \<Rightarrow> bool"
    and saved :: "'w \<Rightarrow> bool"
  assumes save_inv: "inv w \<Longrightarrow> inv (snd (save w))"
    and upd_inv: "inv w \<Longrightarrow> upd w w' \<Longrightarrow> inv w'"
    and env_inv: "inv w \<Longrightarrow> env w w' \<Longrightarrow> inv w'"
    and env_saved: "env w w' \<Longrightarrow> saved w \<Longrightarrow> saved w'"
    and save_ok: "inv w \<Longrightarrow> save w = (None, w') \<Longrightarrow> saved w'"
begin

definition ok :: "'w persistence \<Rightarrow> bool" where
  "ok p \<longleftrightarrow> inv (p_world p) \<and> (p_stop p \<longleftrightarrow> p_once p \<noteq> NotStarted)
     \<and> (p_once p = Finished \<longrightarrow> p_done p \<and> (p_err p = None \<longrightarrow> saved (p_world p)))"

lemma ok_init: "inv w \<Longrightarrow> ok (configurePersistence i w)"
  by (simp add: ok_def configurePersistence_def)

lemma ok_step:
  assumes "pstep save upd env p b p'" "ok p"
  shows "ok p'"
  using assms(1)
proof cases
  case tick
  with assms(2) save_inv show ?thesis by (auto simp: ok_def run_tick_def)
next
  case returns
  with assms(2) show ?thesis by (auto simp: ok_def run_return_def)
next
  case closing
  with assms(2) show ?thesis by (auto simp: ok_def close_begin_def)
next
  case finish
  obtain e w where s: "save (p_world p) = (e, w)" by fastforce
  with save_inv [of "p_world p"] save_ok [of "p_world p" w] assms(2) finish show ?thesis
    by (auto simp: ok_def close_finish_def)
next
  case (writer w)
  with upd_inv assms(2) show ?thesis by (auto simp: ok_def)
next
  case (choose w)
  with env_inv env_saved assms(2) show ?thesis by (auto simp: ok_def)
qed

lemma ok_run: "prun save upd env p bs p' \<Longrightarrow> ok p \<Longrightarrow> ok p'"
  by (induction rule: prun.induct) (auto intro: ok_step)

lemma finished_rests: "ok p \<Longrightarrow> p_once p = Finished \<Longrightarrow> pstep save upd env p b p' \<Longrightarrow> \<not> b \<and> env (p_world p) (p_world p')"
  by (auto simp: ok_def elim: pstepE)

text \<open>A close that has begun can always be completed: at most the return of the goroutine is missing.\<close>

lemma closing_completes:
  assumes "ok p" "p_once p = Closing"
  shows "\<exists>bs p'. prun save upd env p bs p' \<and> p_once p' = Finished \<and> length bs \<le> 2"
proof (cases "p_done p")
  case True
  then have "prun save upd env p ([] @ [True]) (close_finish save p)"
    by (intro prun.more [OF prun.start pstep.finish] assms)
  then show ?thesis by (intro exI conjI) (auto simp: close_finish_def split: prod.split)
next
  case False
  let ?q = "run_return p"
  have "pstep save upd env p False ?q" using False assms by (intro pstep.returns) (auto simp: ok_def)
  moreover have "pstep save upd env ?q True (close_finish save ?q)"
    using assms(2) by (intro pstep.finish) (simp_all add: run_return_def)
  ultimately have "prun save upd env p (([] @ [False]) @ [True]) (close_finish save ?q)"
    by (blast intro: prun.intros)
  then show ?thesis by (intro exI conjI) (auto simp: close_finish_def split: prod.split)
qed

end

section \<open>The in-memory storage\<close>

text \<open>
  The file holds the storage: every restart from it gives the storage back. The file system and the map
  orders of each save are chosen by the environment before it: a writer step ends with an arbitrary
  choice that satisfies \<open>os_ok\<close>, what the operating system and the Go runtime guarantee.
\<close>

definition restorable :: "golib \<Rightarrow> string \<Rightarrow> mem_world \<Rightarrow> bool" where
  "restorable lib path w \<longleftrightarrow> NewMemStorageWithRestore lib None (mw_fs w) path True = Inr (mw_store w)"

definition os_ok :: "string \<Rightarrow> mem_world \<Rightarrow> bool" where
  "os_ok path w \<longleftrightarrow> orders_of (mw_store w) (mw_ord w) \<and> fresh_temp (mw_io w) path (mw_fs w)"

text \<open>A world whose storage survives a restart: its receipts have a metric to be saved with, its strings are UTF-8.\<close>

definition env_ok :: "string \<Rightarrow> mem_world \<Rightarrow> bool" where
  "env_ok path w \<longleftrightarrow> os_ok path w \<and> receipts_anchored (mw_store w) \<and> utf8_storage (mw_store w)"

lemma saveAndHandle_restorable:
  assumes "float_text_ok lib" "env_ok path w" "saveAndHandle lib path w = (None, w')"
  shows "restorable lib path w'"
proof -
  obtain fs' where s: "SaveToFile lib (mw_io w) (mw_ord w) path (mw_store w) (mw_fs w) = (None, fs')"
    and w': "w' = w\<lparr>mw_fs := fs'\<rparr>"
    using assms(3) by (auto simp: saveAndHandle_def split: prod.splits)
  from saved_restores [OF assms(1) _ _ _ _ s] assms(2) show ?thesis
    by (simp add: restorable_def env_ok_def os_ok_def w')
qed

lemma saveAndHandle_env:
  assumes "env_ok path w"
  shows "env_ok path (snd (saveAndHandle lib path w))"
proof -
  obtain err fs' where s: "SaveToFile lib (mw_io w) (mw_ord w) path (mw_store w) (mw_fs w) = (err, fs')" by fastforce
  have "fs' = mw_fs w \<or> (\<exists>x. fs' = (mw_fs w)(path \<mapsto> x))"
    using SaveToFile_result [OF _ s] assms by (auto simp: env_ok_def os_ok_def split: option.splits)
  with assms s show ?thesis by (auto simp: saveAndHandle_def env_ok_def os_ok_def fresh_temp_def)
qed

text \<open>A writer may change the storage and, when it saves or audits, the files.\<close>

definition mem_writer :: "string \<Rightarrow> mem_world \<Rightarrow> mem_world \<Rightarrow> bool" where
  "mem_writer path w w' \<longleftrightarrow> env_ok path w'"

definition mem_env :: "string \<Rightarrow> mem_world \<Rightarrow> mem_world \<Rightarrow> bool" where
  "mem_env path w w' \<longleftrightarrow> mw_store w' = mw_store w \<and> mw_fs w' = mw_fs w \<and> env_ok path w'"

interpretation mem_saver: saver "saveAndHandle lib path" "mem_writer path" "mem_env path"
  "\<lambda>w. float_text_ok lib \<and> env_ok path w" "restorable lib path" for lib path
  by unfold_locales
     (auto simp: mem_writer_def mem_env_def restorable_def saveAndHandle_env
       dest: saveAndHandle_restorable [unfolded restorable_def])



end
