(* ===== verification/Durability.thy ===== *)
theory Durability
  imports Persistence
begin

text \<open>
  A server with in-memory storage and synchronous saving (\<open>STORE_INTERVAL\<close> 0) that crashes and restarts
  from its file: \<open>service/metrics.go\<close>, \<open>service/persistence.go\<close>, \<open>repository/memory.go\<close> and
  \<open>repository/idempotency.go\<close> together. A run is any sequence of keyed deliveries, whose saves may fail
  in any system call, and of restarts. A crash between a save and the reply is a delivery followed by a
  restart.
\<close>

section \<open>Runs\<close>

text \<open>A metric that a storage does not skip; the handlers let no other through.\<close>

definition effective :: "Metrics \<Rightarrow> bool" where
  "effective m \<longleftrightarrow> MType m = Gauge \<and> Value m \<noteq> None \<or> MType m = Counter \<and> Delta m \<noteq> None"

datatype event = Delivered string "Metrics list" "bool \<times> gerr" | Restarted

inductive node_run :: "golib \<Rightarrow> string \<Rightarrow> mem_world \<Rightarrow> event list \<Rightarrow> mem_world \<Rightarrow> bool"
  for lib :: golib and path :: string and w0 :: mem_world where
  boot: "node_run lib path w0 [] w0"
| deliver: "node_run lib path w0 es w \<Longrightarrow> ValidKey k \<Longrightarrow> ms \<noteq> [] \<Longrightarrow> list_all effective ms \<Longrightarrow> list_all utf8_metric ms \<Longrightarrow>
    mw_store w1 = mw_store w \<Longrightarrow> mw_fs w1 = mw_fs w \<Longrightarrow>
    Svc_UpdateMetricsOnce lib (synchronous_service lib path) k ms w1 = (res, w') \<Longrightarrow>
    os_ok path (w'\<lparr>mw_fs := mw_fs w\<rparr>) \<Longrightarrow>
    node_run lib path w0 (es @ [Delivered k ms res]) w'"
| restart: "node_run lib path w0 es w \<Longrightarrow>
    NewMemStorageWithRestore lib None (mw_fs w) path True = Inr s \<Longrightarrow>
    node_run lib path w0 (es @ [Restarted]) (w\<lparr>mw_store := s\<rparr>)"

text \<open>The storage after applying the requests \<open>done\<close>, in this order, to an empty one.\<close>

definition holds :: "request list \<Rightarrow> MemStorage \<Rightarrow> bool" where
  "holds done s \<longleftrightarrow> distinct (map rq_key done)
     \<and> mem_content s = apply_all mem_apply done (Map.empty, Map.empty)
     \<and> ms_receipts s = map_of (map (\<lambda>q. (rq_key q, rq_fp q)) done)"

text \<open>The requests of a trace, and the acknowledged ones among them.\<close>

definition requested :: "golib \<Rightarrow> event list \<Rightarrow> request \<Rightarrow> bool" where
  "requested lib es q \<longleftrightarrow> Fingerprint lib (rq_metrics q) = Inr (rq_fp q)
     \<and> (\<exists>res. Delivered (rq_key q) (rq_metrics q) res \<in> set es)"

definition acknowledged :: "event list \<Rightarrow> string \<Rightarrow> Metrics list \<Rightarrow> bool" where
  "acknowledged es k ms \<longleftrightarrow> (\<exists>a. Delivered k ms (a, None) \<in> set es)"

section \<open>Receipts are saved with their metrics\<close>

lemma update_metric_nonempty:
  "mem_content s \<noteq> (Map.empty, Map.empty) \<or> effective m \<Longrightarrow> mem_content (update_metric m s) \<noteq> (Map.empty, Map.empty)"
  by (auto simp: mem_content_def update_metric_def effective_def map_inc_def Counter_def Gauge_def split: option.splits)

lemma updateMetricsLocked_nonempty:
  "mem_content s \<noteq> (Map.empty, Map.empty) \<or> ms \<noteq> [] \<and> list_all effective ms \<Longrightarrow>
   mem_content (updateMetricsLocked ms s) \<noteq> (Map.empty, Map.empty)"
proof (induction ms arbitrary: s)
  case (Cons m ms)
  then show ?case using Cons.IH [of "update_metric m s"] update_metric_nonempty [of s m] by auto
qed simp

lemma mem_apply_nonempty:
  "c \<noteq> (Map.empty, Map.empty) \<or> ms \<noteq> [] \<and> list_all effective ms \<Longrightarrow> mem_apply ms c \<noteq> (Map.empty, Map.empty)"
  unfolding mem_apply_def by (rule updateMetricsLocked_nonempty) (cases c, auto simp: mem_content_def)

lemma apply_all_nonempty:
  "c \<noteq> (Map.empty, Map.empty) \<or> qs \<noteq> [] \<Longrightarrow> \<forall>q \<in> set qs. rq_metrics q \<noteq> [] \<and> list_all effective (rq_metrics q) \<Longrightarrow>
   apply_all mem_apply qs c \<noteq> (Map.empty, Map.empty)"
proof (induction qs arbitrary: c)
  case (Cons q qs)
  from Cons.prems(2) have "mem_apply (rq_metrics q) c \<noteq> (Map.empty, Map.empty)"
    by (intro mem_apply_nonempty) auto
  with Cons show ?case by (simp add: apply_all_def)
qed (simp add: apply_all_def)

text \<open>The requests that the service passes on: a key and metrics with UTF-8 names, and the fingerprint it computed.\<close>

definition good_request :: "request \<Rightarrow> bool" where
  "good_request q \<longleftrightarrow> ValidKey (rq_key q) \<and> valid_utf8 (rq_fp q) \<and> rq_metrics q \<noteq> []
     \<and> list_all effective (rq_metrics q) \<and> list_all utf8_metric (rq_metrics q)"

lemma holds_anchored:
  assumes "holds done s" "\<forall>q \<in> set done. good_request q"
  shows "receipts_anchored s"
proof -
  have "\<forall>q \<in> set done. rq_metrics q \<noteq> [] \<and> list_all effective (rq_metrics q)"
    using assms(2) by (simp add: good_request_def)
  with assms(1) apply_all_nonempty [of "(Map.empty, Map.empty)" "done"] show ?thesis
    by (cases "done") (auto simp: receipts_anchored_def holds_def mem_content_def)
qed

text \<open>Names of the storage come from the requests.\<close>

definition utf8_content :: "float64 gomap \<times> int64 gomap \<Rightarrow> bool" where
  "utf8_content c \<longleftrightarrow> (\<forall>k. fst c k \<noteq> None \<or> snd c k \<noteq> None \<longrightarrow> valid_utf8 k)"

lemma updateMetricsLocked_utf8:
  "utf8_content (mem_content s) \<Longrightarrow> list_all utf8_metric ms \<Longrightarrow> utf8_content (mem_content (updateMetricsLocked ms s))"
proof (induction ms arbitrary: s)
  case (Cons m ms)
  have "utf8_content (mem_content (update_metric m s))"
    using Cons.prems
    by (auto simp: utf8_content_def mem_content_def update_metric_def map_inc_def utf8_metric_def split: option.splits if_splits)
  with Cons show ?case by simp
qed simp

lemma apply_all_utf8:
  "utf8_content c \<Longrightarrow> \<forall>q \<in> set qs. list_all utf8_metric (rq_metrics q) \<Longrightarrow> utf8_content (apply_all mem_apply qs c)"
proof (induction qs arbitrary: c)
  case (Cons q qs)
  have "utf8_content (mem_apply (rq_metrics q) c)"
    unfolding mem_apply_def using Cons.prems by (intro updateMetricsLocked_utf8) (cases c, auto simp: mem_content_def)
  with Cons show ?case by (simp add: apply_all_def)
qed (simp add: apply_all_def)

lemma holds_utf8:
  assumes "holds done s" "\<forall>q \<in> set done. good_request q"
  shows "utf8_storage s"
proof -
  have "utf8_content (mem_content s)"
    using assms apply_all_utf8 [of "(Map.empty, Map.empty)" "done"]
    by (simp add: holds_def good_request_def utf8_content_def)
  moreover have "utf8_map (ms_receipts s)"
    using assms ValidKey_utf8 by (auto simp: holds_def good_request_def utf8_map_def dest!: map_of_SomeD)
  ultimately show ?thesis by (auto simp: utf8_storage_def utf8_content_def mem_content_def)
qed

lemma holds_snoc:
  assumes "holds done s" "ms_receipts s k = None"
    "mem_content s' = mem_apply ms (mem_content s)" "ms_receipts s' = (ms_receipts s)(k \<mapsto> f)"
  shows "holds (done @ [\<lparr>rq_key = k, rq_fp = f, rq_metrics = ms\<rparr>]) s'"
proof -
  have "k \<notin> rq_key ` set done"
    using assms(1,2) by (force simp: holds_def map_of_eq_None_iff)
  moreover have "[k \<mapsto> f] ++ ms_receipts s = (ms_receipts s)(k \<mapsto> f)"
    using assms(2) by (auto simp: fun_eq_iff map_add_def split: option.splits)
  ultimately show ?thesis using assms by (simp add: holds_def apply_all_def)
qed

section \<open>Every acknowledged batch survives\<close>

text \<open>
  The invariant of runs: the storage and the file each hold the effect of a list of requests of the
  trace, and both have the receipts of all acknowledged ones.
\<close>

definition all_acked :: "golib \<Rightarrow> event list \<Rightarrow> MemStorage \<Rightarrow> bool" where
  "all_acked lib es s \<longleftrightarrow>
     (\<forall>k ms. acknowledged es k ms \<longrightarrow> (\<exists>f. Fingerprint lib ms = Inr f \<and> ms_receipts s k = Some f))"

definition run_ok :: "golib \<Rightarrow> event list \<Rightarrow> MemStorage \<Rightarrow> bool" where
  "run_ok lib es s \<longleftrightarrow> all_acked lib es s
     \<and> (\<exists>done. holds done s \<and> (\<forall>q \<in> set done. requested lib es q)
          \<and> (\<forall>q \<in> set done. good_request q))"

lemma run_ok_mono:
  assumes "run_ok lib es s" "all_acked lib (es @ [e]) s"
  shows "run_ok lib (es @ [e]) s"
proof -
  have "requested lib es q \<Longrightarrow> requested lib (es @ [e]) q" for q by (auto simp: requested_def)
  with assms show ?thesis unfolding run_ok_def by blast
qed

lemma run_ok_survives: "run_ok lib es s \<Longrightarrow> receipts_anchored s \<and> utf8_storage s"
  by (auto simp: run_ok_def intro: holds_anchored holds_utf8)

lemma all_acked_error: "all_acked lib (es @ [Delivered k ms (a, Some e)]) s = all_acked lib es s"
  by (simp add: all_acked_def acknowledged_def)

lemma all_acked_snoc:
  assumes "all_acked lib es s" "Fingerprint lib ms = Inr f" "ms_receipts s k = Some f"
  shows "all_acked lib (es @ [Delivered k ms res]) s"
  using assms by (auto simp: all_acked_def acknowledged_def)

text \<open>What one keyed call of the synchronous service does: nothing, or the storage's step and a save.\<close>

lemma synchronous_once:
  assumes "ValidKey k" "ms \<noteq> []"
    and "Svc_UpdateMetricsOnce lib (synchronous_service lib path) k ms w = ((a, err), w')"
  obtains (refused) e where "err = Some e" "mw_store w' = mw_store w" "mw_fs w' = mw_fs w"
    | (stored) f a' s' where "Fingerprint lib ms = Inr f" "Mem_UpdateMetricsOnce k f ms (mw_store w) = ((a', None), s')"
        "saveAndHandle lib path (w\<lparr>mw_store := s'\<rparr>) = (err, w')"
proof -
  let ?s = "synchronous_service lib path"
  have sv: "svc_save ?s = saveAndHandle lib path" "rp_UpdateMetricsOnce (svc_repo ?s) = Some (\<lambda>k f ms. on_store (Mem_UpdateMetricsOnce k f ms))"
    by (simp_all add: fun_eq_iff svc_save_def synchronous_service_def SetSaveOnUpdate_def NewMetricsService_def mem_repository_def)
  note call = assms(3) [unfolded Svc_UpdateMetricsOnce_keyed [OF assms(1,2) sv(2)]]
  show ?thesis
  proof (cases "Fingerprint lib ms")
    case (Inl e)
    with call show ?thesis by (intro refused) auto
  next
    case (Inr f)
    obtain a' e' s' where o: "Mem_UpdateMetricsOnce k f ms (mw_store w) = ((a', e'), s')" by (metis surj_pair)
    then have os: "on_store (Mem_UpdateMetricsOnce k f ms) w = ((a', e'), w\<lparr>mw_store := s'\<rparr>)" by simp
    show ?thesis
    proof (cases e')
      case (Some e)
      then have "s' = mw_store w"
        using o by (auto simp: Mem_UpdateMetricsOnce_def Let_def split: option.splits if_splits)
      with Some Inr os call show ?thesis by (intro refused) auto
    next
      case None
      with Inr os call sv(1) have "saveAndHandle lib path (w\<lparr>mw_store := s'\<rparr>) = (err, w')"
        by (auto split: prod.splits)
      with Inr o None show ?thesis by (intro stored) auto
    qed
  qed
qed

lemma run_ok_stored:
  assumes "run_ok lib es s" "Fingerprint lib ms = Inr f" "Mem_UpdateMetricsOnce k f ms s = ((a, None), s')"
    and "ValidKey k" "ms \<noteq> []" "list_all effective ms" "list_all utf8_metric ms"
  shows "run_ok lib (es @ [Delivered k ms res]) s'"
proof -
  let ?q = "\<lparr>rq_key = k, rq_fp = f, rq_metrics = ms\<rparr>"
  let ?es = "es @ [Delivered k ms res]"
  have "ms_receipts s' k = Some f" by (rule mem_once.once_ack [OF assms(3)])
  moreover have "all_acked lib es s'"
    using assms(1) mem_once.receipt_stable [OF assms(3)] by (fastforce simp: run_ok_def all_acked_def)
  ultimately have acked: "all_acked lib ?es s'" using assms(2) by (intro all_acked_snoc)
  have req: "requested lib ?es ?q" "requested lib es q \<Longrightarrow> requested lib ?es q" for q
    using assms(2) by (cases res; auto simp: requested_def)+
  from assms(1) obtain dn where d: "holds dn s" "\<forall>q \<in> set dn. requested lib es q"
    "\<forall>q \<in> set dn. good_request q" by (auto simp: run_ok_def)
  have good: "good_request ?q" using assms(4-7) Fingerprint_utf8 [OF assms(2)] by (simp add: good_request_def)
  from mem_once.once_atomic [OF assms(3)] have "holds dn s' \<or> holds (dn @ [?q]) s'"
  proof
    assume "mem_content s' = mem_content s \<and> ms_receipts s' = ms_receipts s"
    with d(1) show ?thesis by (simp add: holds_def)
  qed (blast intro: holds_snoc [OF d(1)])
  then show ?thesis
  proof
    assume "holds dn s'"
    with acked d req(2) show ?thesis unfolding run_ok_def by blast
  next
    assume "holds (dn @ [?q]) s'"
    with acked d req good show ?thesis unfolding run_ok_def by (intro conjI exI [of _ "dn @ [?q]"]) auto
  qed
qed

definition node_ok :: "golib \<Rightarrow> string \<Rightarrow> event list \<Rightarrow> mem_world \<Rightarrow> bool" where
  "node_ok lib path es w \<longleftrightarrow> run_ok lib es (mw_store w)
     \<and> (\<exists>s. NewMemStorageWithRestore lib None (mw_fs w) path True = Inr s \<and> run_ok lib es s)"

lemma node_ok_deliver:
  assumes "float_text_ok lib" "node_ok lib path es w" "ValidKey k" "ms \<noteq> []" "list_all effective ms"
    and "list_all utf8_metric ms" and "mw_store w1 = mw_store w" "mw_fs w1 = mw_fs w"
    and "Svc_UpdateMetricsOnce lib (synchronous_service lib path) k ms w1 = (res, w')"
    and "os_ok path (w'\<lparr>mw_fs := mw_fs w\<rparr>)"
  shows "node_ok lib path (es @ [Delivered k ms res]) w'"
proof -
  obtain a err where res: "res = (a, err)" by fastforce
  let ?es = "es @ [Delivered k ms (a, err)]"
  from assms(2) obtain sd where sd: "NewMemStorageWithRestore lib None (mw_fs w) path True = Inr sd" "run_ok lib es sd"
    and m: "run_ok lib es (mw_store w)" by (auto simp: node_ok_def)
  have keep: "run_ok lib ?es s" if "run_ok lib es s" "err = Some e" for s e
    using that by (intro run_ok_mono) (auto simp: all_acked_error run_ok_def)
  show ?thesis
    using assms(9) [unfolded res]
  proof (cases rule: synchronous_once [OF assms(3,4), consumes 1, case_names refused stored])
    case (refused e)
    with m sd keep assms(7,8) res show ?thesis by (auto simp: node_ok_def)
  next
    case (stored f a' s')
    let ?w = "w1\<lparr>mw_store := s'\<rparr>"
    have ok: "run_ok lib ?es s'"
      using run_ok_stored [OF m stored(1) _ assms(3-6)] stored(2) assms(7) by simp
    have st: "mw_store w' = s'" using saveAndHandle_keeps [OF stored(3)] by simp
    have env: "env_ok path ?w"
      using assms(10,8) saveAndHandle_keeps [OF stored(3)] run_ok_survives [OF ok]
      by (simp add: env_ok_def os_ok_def)
    show ?thesis
    proof (cases err)
      case None
      then have "restorable lib path w'" using saveAndHandle_restorable [OF assms(1) env] stored(3) by simp
      with ok st res show ?thesis by (auto simp: node_ok_def restorable_def)
    next
      case (Some e)
      have "mw_fs w' = mw_fs w"
        using stored(3) Some env assms(8) SaveToFile_result [of "mw_io ?w" path "mw_fs ?w" lib "mw_ord ?w" s']
        by (auto simp: saveAndHandle_def env_ok_def os_ok_def split: prod.splits)
      with ok st res sd keep [OF sd(2) Some] show ?thesis by (auto simp: node_ok_def)
    qed
  qed
qed

lemma node_ok_restart:
  assumes "node_ok lib path es w" "NewMemStorageWithRestore lib None (mw_fs w) path True = Inr s"
  shows "node_ok lib path (es @ [Restarted]) (w\<lparr>mw_store := s\<rparr>)"
proof -
  have "run_ok lib es s" using assms by (auto simp: node_ok_def)
  then have "run_ok lib (es @ [Restarted]) s"
    by (intro run_ok_mono) (auto simp: run_ok_def all_acked_def acknowledged_def)
  with assms(2) show ?thesis by (auto simp: node_ok_def)
qed

lemma run_ok_boot: "run_ok lib [] NewMemStorage"
  by (auto simp: run_ok_def all_acked_def acknowledged_def holds_def apply_all_def mem_content_def NewMemStorage_def
      intro!: exI [of _ "[]"])

lemma node_run_ok:
  assumes "float_text_ok lib" "mw_store w0 = NewMemStorage" "mw_fs w0 path = None" "node_run lib path w0 es w"
  shows "node_ok lib path es w"
  using assms(4)
proof (induction rule: node_run.induct)
  case boot
  have "NewMemStorageWithRestore lib None (mw_fs w0) path True = Inr NewMemStorage"
    using assms(3) by (simp add: NewMemStorageWithRestore_def loadFromFile_def ReadFile_def ErrNotExist_def)
  with assms(2) run_ok_boot show ?case by (auto simp: node_ok_def)
next
  case deliver
  then show ?case by (auto intro: node_ok_deliver [OF assms(1)])
next
  case restart
  then show ?case by (auto intro: node_ok_restart)
qed

text \<open>
  C4. Exactly once across crashes. A server with synchronous saving starts empty and handles any
  sequence of keyed batches with failing saves, crashes and restarts in between. At every moment its
  storage is the effect of a list of different requests it was sent, each applied once, and every
  acknowledged batch is among them, recorded with its fingerprint; moreover a restart from the file
  always succeeds and yields a storage of which the same is true.
\<close>

theorem crash_safe_exactly_once:
  assumes "float_text_ok lib" and "mw_store w0 = NewMemStorage" and "mw_fs w0 path = None"
    and "node_run lib path w0 es w"
  shows "(\<exists>done. holds done (mw_store w) \<and> (\<forall>q \<in> set done. requested lib es q))
     \<and> (\<forall>k ms. acknowledged es k ms \<longrightarrow>
          (\<exists>f. Fingerprint lib ms = Inr f \<and> ms_receipts (mw_store w) k = Some f))
     \<and> (\<exists>s. NewMemStorageWithRestore lib None (mw_fs w) path True = Inr s
          \<and> (\<exists>done. holds done s \<and> (\<forall>q \<in> set done. requested lib es q))
          \<and> (\<forall>k ms. acknowledged es k ms \<longrightarrow> (\<exists>f. Fingerprint lib ms = Inr f \<and> ms_receipts s k = Some f)))"
  using node_run_ok [OF assms] unfolding node_ok_def run_ok_def all_acked_def by blast

text \<open>A run with one batch and a crash after it.\<close>

definition node_fp :: string where
  "node_fp = projr (Fingerprint demo_lib [counter_metric ''c'' 5])"

definition node_store :: MemStorage where
  "node_store = \<lparr>ms_gauges = Map.empty, ms_counters = [''c'' \<mapsto> 5], ms_receipts = [''K1'' \<mapsto> node_fp]\<rparr>"

definition node_orders :: orders where
  "node_orders = \<lparr>ord_gauges = [], ord_counters = [''c''], ord_receipts = [''K1'']\<rparr>"

definition node_doc :: json where
  "node_doc = the (json_of_records demo_lib (records_of node_orders node_store))"

definition node_boot :: mem_world where
  "node_boot = \<lparr>mw_store = NewMemStorage, mw_fs = Map.empty, mw_io = good_io, mw_ord = node_orders\<rparr>"

definition node_saved :: mem_world where
  "node_saved = node_boot\<lparr>mw_store := node_store, mw_fs := [''file'' \<mapsto> json_print node_doc @ newline]\<rparr>"

lemma node_doc_records: "json_of_records demo_lib (records_of node_orders node_store) = Some node_doc"
proof -
  have "list_all (\<lambda>r. encodable (rec_Metrics r)) (records_of node_orders node_store)"
    by (simp add: records_of_def fileSnapshot_def snapshotMetricsLocked_def snapshot_gauges_def snapshot_counters_def
        node_orders_def node_store_def List.map_filter_simps encodable_def)
  then have "json_of_records demo_lib (records_of node_orders node_store) \<noteq> None"
    by (auto simp: json_of_records_None_iff list_all_iff)
  then show ?thesis by (auto simp: node_doc_def)
qed

lemma node_fingerprint: "Fingerprint demo_lib [counter_metric ''c'' 5] = Inr node_fp"
  using Fingerprint_ok_iff [of demo_lib "[counter_metric ''c'' 5]"] by (auto simp: node_fp_def encodable_def)

lemma node_demo_call:
  "Svc_UpdateMetricsOnce demo_lib (synchronous_service demo_lib ''file'') ''K1'' [counter_metric ''c'' 5] node_boot =
     ((True, None), node_saved)"
proof -
  have key: "ValidKey ''K1''" by (simp add: ValidKey_def key_char_def)
  have st: "Mem_UpdateMetricsOnce ''K1'' node_fp [counter_metric ''c'' 5] NewMemStorage = ((True, None), node_store)"
    by (simp add: Mem_UpdateMetricsOnce_def NewMemStorage_def node_store_def update_metric_def counter_metric_def
        map_inc_def map_get0_def Counter_def Gauge_def)
  have sv: "saveAndHandle demo_lib ''file'' (node_boot\<lparr>mw_store := node_store\<rparr>) = (None, node_saved)"
    using demo_SaveToFile [OF node_doc_records] by (simp add: saveAndHandle_def node_boot_def node_saved_def)
  have "on_store (Mem_UpdateMetricsOnce ''K1'' node_fp [counter_metric ''c'' 5]) node_boot =
      ((True, None), node_boot\<lparr>mw_store := node_store\<rparr>)"
    using st by (simp add: node_boot_def)
  with sv show ?thesis
    by (simp add: Svc_UpdateMetricsOnce_def key synchronous_service_def SetSaveOnUpdate_def NewMetricsService_def
        mem_repository_def svc_save_def node_fingerprint)
qed

lemma crash_safe_exactly_once_witness:
  "\<exists>w. node_run demo_lib ''file'' node_boot [Delivered ''K1'' [counter_metric ''c'' 5] (True, None), Restarted] w
     \<and> (\<exists>f. Fingerprint demo_lib [counter_metric ''c'' 5] = Inr f \<and> ms_receipts (mw_store w) ''K1'' = Some f)"
proof -
  let ?m = "[counter_metric ''c'' 5]"
  let ?e = "Delivered ''K1'' ?m (True, None)"
  have "os_ok ''file'' (node_saved\<lparr>mw_fs := mw_fs node_boot\<rparr>)"
    using good_io_fresh
    by (auto simp: os_ok_def orders_of_def range_order_def node_boot_def node_orders_def node_store_def node_saved_def)
  moreover have "list_all utf8_metric ?m"
    by (auto simp: utf8_metric_def counter_metric_def Counter_def intro!: valid_utf8_ascii)
  ultimately have r1: "node_run demo_lib ''file'' node_boot ([] @ [?e]) node_saved"
    by (intro node_run.deliver [OF node_run.boot _ _ _ _ refl refl node_demo_call])
       (simp_all add: ValidKey_def key_char_def effective_def counter_metric_def)
  have b: "mw_store node_boot = NewMemStorage" "mw_fs node_boot ''file'' = None"
    by (simp_all add: node_boot_def)
  from crash_safe_exactly_once [OF demo_lib_float b r1] obtain s where
    s: "NewMemStorageWithRestore demo_lib None (mw_fs node_saved) ''file'' True = Inr s" by blast
  have r2: "node_run demo_lib ''file'' node_boot ([?e] @ [Restarted]) (node_saved\<lparr>mw_store := s\<rparr>)"
    using r1 s by (intro node_run.restart) simp_all
  have "acknowledged ([?e] @ [Restarted]) ''K1'' ?m" by (auto simp: acknowledged_def)
  with crash_safe_exactly_once [OF demo_lib_float b r2] r2 show ?thesis by auto
qed

end
