(* ===== verification/Html_Page.thy ===== *)
theory Html_Page
  imports Metrics_Json
begin

text \<open>
  The page of \<open>handler.ListMetrics\<close>: the template \<open>metricsTemplate\<close> of \<open>internal/handler/metrics.go\<close> written out, with
  the escaping that \<open>html/template\<close> applies to what is inserted into text. Read as HTML the page shows exactly the
  metrics, whatever their names are.
\<close>

section \<open>Escaping\<close>

text \<open>\<open>htmlReplacementTable\<close>; every other byte is copied.\<close>

definition entities :: "(char \<times> string) list" where
  "entities = [(CHR 0x22, ''&#34;''), (CHR ''&'', ''&amp;''), (CHR 0x27, ''&#39;''), (CHR ''+'', ''&#43;''),
     (CHR ''<'', ''&lt;''), (CHR ''>'', ''&gt;'')]"

definition html_escape_char :: "char \<Rightarrow> string" where
  "html_escape_char c = (if c = CHR 0x00 then RuneError else case map_of entities c of Some e \<Rightarrow> e | None \<Rightarrow> [c])"

definition html_escape :: "string \<Rightarrow> string" where
  "html_escape s = concat (map html_escape_char s)"

section \<open>The template\<close>

definition nl_text :: string where
  "nl_text = [CHR 0x0A]"

text \<open>\<open>{{-\<close> removes the white space before it, so an item starts on its own line and nothing stands between the two lists.\<close>

definition page_item :: "string \<Rightarrow> string \<Rightarrow> string" where
  "page_item name val = nl_text @ ''        <li>'' @ html_escape name @ '': '' @ html_escape val @ ''</li>''"

definition page_head :: string where
  "page_head = nl_text @ ''<html>'' @ nl_text @ ''  <body>'' @ nl_text @ ''    <ul>''"

definition page_foot :: string where
  "page_foot = nl_text @ ''    </ul>'' @ nl_text @ ''  </body>'' @ nl_text @ ''</html>'' @ nl_text"

text \<open>\<open>range\<close> over a map visits the keys in order; the values are written by \<open>fmt\<close>.\<close>

definition page_list :: "('v \<Rightarrow> string) \<Rightarrow> 'v gomap \<Rightarrow> (string \<times> string) list" where
  "page_list sprint m = map (\<lambda>k. (k, sprint (the (m k)))) (sorted_list_of_set (dom m))"

definition metrics_page :: "(float64 \<Rightarrow> string) \<Rightarrow> float64 gomap \<Rightarrow> int64 gomap \<Rightarrow> string" where
  "metrics_page sprint gauges counters =
     page_head @ concat (map (\<lambda>(k, v). page_item k v) (page_list sprint gauges @ page_list FormatInt counters)) @ page_foot"

section \<open>Reading the page\<close>

text \<open>Character references are resolved; the items are the texts after \<open>li>\<close> tags.\<close>

definition reference_at :: "string \<Rightarrow> (char \<times> string) option" where
  "reference_at s = find (\<lambda>(d, e). HasPrefix s e) entities"

lemma reference_at_length:
  assumes "reference_at s = Some (d, e)"
  shows "0 < length e \<and> length e \<le> length s"
proof -
  from assms obtain i where "i < length entities" "entities ! i = (d, e)" "HasPrefix s e"
    by (auto simp: reference_at_def find_Some_iff)
  then have "(d, e) \<in> set entities" "HasPrefix s e" by (metis nth_mem)+
  then show ?thesis by (auto simp: entities_def HasPrefix_def)
qed

function html_unescape :: "string \<Rightarrow> string" where
  "html_unescape s =
     (case s of
        [] \<Rightarrow> []
      | c # cs \<Rightarrow>
        (case reference_at s of
           None \<Rightarrow> c # html_unescape cs
         | Some (d, e) \<Rightarrow> d # html_unescape (drop (length e) s)))"
  by pat_completeness auto
termination html_unescape
  by (relation "measure length") (auto dest: reference_at_length)

declare html_unescape.simps [simp del]

definition page_items :: "string \<Rightarrow> string list" where
  "page_items body = map (\<lambda>p. html_unescape (drop 3 p)) (filter (\<lambda>p. HasPrefix p ''li>'') (split_on CHR ''<'' body))"

text \<open>What a reader sees of a text: NUL bytes are replaced.\<close>

definition shown :: "string \<Rightarrow> string" where
  "shown s = concat (map (\<lambda>c. if c = CHR 0x00 then RuneError else [c]) s)"

lemma RuneError_bytes: "RuneError = [CHR 0xEF, CHR 0xBF, CHR 0xBD]"
  by (simp add: RuneError_def encode_rune_def char_of_eq_iff)

lemma reference_at_plain: "c \<noteq> CHR ''&'' \<Longrightarrow> reference_at (c # s) = None"
  by (simp add: reference_at_def entities_def HasPrefix_def)

lemma html_unescape_plain: "c \<noteq> CHR ''&'' \<Longrightarrow> html_unescape (c # s) = c # html_unescape s"
  by (subst html_unescape.simps) (simp add: reference_at_plain)

lemma entities_reference: "list_all (\<lambda>(d, e). reference_at (e @ s) = Some (d, e)) entities"
  by (simp add: reference_at_def entities_def HasPrefix_def)

lemma html_unescape_reference:
  assumes "(d, e) \<in> set entities"
  shows "html_unescape (e @ s) = d # html_unescape s"
proof -
  have "reference_at (e @ s) = Some (d, e)"
    using assms entities_reference [of s] unfolding list_all_iff by blast
  have "e \<noteq> []" using assms by (auto simp: entities_def)
  then obtain c cs where es: "e @ s = c # cs" by (cases e) auto
  have "html_unescape (c # cs) = (case reference_at (c # cs) of None \<Rightarrow> c # html_unescape cs
      | Some (d, e) \<Rightarrow> d # html_unescape (drop (length e) (c # cs)))"
    by (subst html_unescape.simps) simp
  also have "\<dots> = d # html_unescape (drop (length e) (e @ s))"
    using \<open>reference_at (e @ s) = Some (d, e)\<close> unfolding es by simp
  finally show ?thesis unfolding es [symmetric] by simp
qed

lemma html_unescape_escape: "html_unescape (html_escape s @ t) = shown s @ html_unescape t"
proof (induction s)
  case Nil
  then show ?case by (simp add: html_escape_def shown_def)
next
  case (Cons c s)
  have "html_unescape (html_escape_char c @ u) = (if c = CHR 0x00 then RuneError else [c]) @ html_unescape u" for u
  proof (cases "map_of entities c")
    case None
    then have "c \<noteq> CHR ''&''" by (auto simp: entities_def)
    with None show ?thesis by (simp add: html_escape_char_def RuneError_bytes html_unescape_plain)
  next
    case (Some e)
    then have "c \<noteq> CHR 0x00" by (auto simp: entities_def split: if_splits)
    with html_unescape_reference [OF map_of_SomeD [OF Some]] Some show ?thesis by (simp add: html_escape_char_def)
  qed
  with Cons show ?case by (simp add: html_escape_def shown_def)
qed

lemma html_escape_no_tag: "CHR ''<'' \<notin> set (html_escape s)"
proof -
  have "CHR ''<'' \<notin> set (html_escape_char c)" for c
  proof (cases "map_of entities c")
    case None
    then have "c \<noteq> CHR ''<''" by (auto simp: entities_def)
    with None show ?thesis by (simp add: html_escape_char_def RuneError_bytes)
  next
    case (Some e)
    from map_of_SomeD [OF this] Some show ?thesis by (auto simp: entities_def html_escape_char_def RuneError_bytes)
  qed
  then show ?thesis by (simp add: html_escape_def)
qed

definition item_text :: "string \<times> string \<Rightarrow> string" where
  "item_text kv = shown (fst kv) @ '': '' @ shown (snd kv)"

lemma page_items_part:
  "CHR ''<'' \<notin> set p \<Longrightarrow> page_items (p @ CHR ''<'' # t) =
     (if HasPrefix p ''li>'' then [html_unescape (drop 3 p)] else []) @ page_items t"
  by (simp add: page_items_def split_on_part)

lemma page_items_skip:
  "CHR ''<'' \<notin> set p \<Longrightarrow> \<not> HasPrefix p ''li>'' \<Longrightarrow> page_items (p @ CHR ''<'' # t) = page_items t"
  by (simp add: page_items_part)

lemma page_items_rest: "CHR ''<'' \<notin> set p \<Longrightarrow> \<not> HasPrefix p ''li>'' \<Longrightarrow> page_items p = []"
  by (simp add: page_items_def split_on_none)

text \<open>The text before the next tag: the rest of the tag \<open>ul>\<close> or \<open>/li>\<close>.\<close>

lemma page_items_list:
  assumes "p \<in> {''ul>'', ''/li>''}"
  shows "page_items (p @ concat (map (\<lambda>(k, v). page_item k v) kvs) @ page_foot) = map item_text kvs"
  using assms
proof (induction kvs arbitrary: p)
  case Nil
  let ?a = "(''/ul>'' @ nl_text @ ''  '')" and ?b = "''/body>'' @ nl_text" and ?c = "''/html>'' @ nl_text"
  have eq: "p @ page_foot = (p @ nl_text @ ''    '') @ CHR ''<'' # ?a @ CHR ''<'' # ?b @ CHR ''<'' # ?c"
    by (simp add: page_foot_def)
  have "page_items ((p @ nl_text @ ''    '') @ CHR ''<'' # t) = page_items t" for t
    using Nil by (intro page_items_skip) (auto simp: nl_text_def HasPrefix_def)
  moreover have "page_items (?a @ CHR ''<'' # t) = page_items t" "page_items (?b @ CHR ''<'' # t) = page_items t" for t
    by (rule page_items_skip; simp add: nl_text_def HasPrefix_def)+
  moreover have "page_items ?c = []" by (rule page_items_rest) (simp_all add: nl_text_def HasPrefix_def)
  ultimately have "page_items (p @ page_foot) = []" unfolding eq by metis
  then show ?case by simp
next
  case (Cons kv kvs)
  obtain k v where kv: "kv = (k, v)" by fastforce
  let ?x = "html_escape k @ '': '' @ html_escape v"
  let ?rest = "concat (map (\<lambda>(k, v). page_item k v) kvs) @ page_foot"
  have eq: "p @ concat (map (\<lambda>(k, v). page_item k v) (kv # kvs)) @ page_foot
      = (p @ nl_text @ ''        '') @ CHR ''<'' # (''li>'' @ ?x) @ CHR ''<'' # (''/li>'' @ ?rest)"
    by (simp add: kv page_item_def)
  have "page_items ((p @ nl_text @ ''        '') @ CHR ''<'' # t) = page_items t" for t
    using Cons.prems by (intro page_items_skip) (auto simp: nl_text_def HasPrefix_def)
  moreover have "page_items ((''li>'' @ ?x) @ CHR ''<'' # t) = html_unescape ?x # page_items t" for t
    using html_escape_no_tag by (subst page_items_part) (auto simp: HasPrefix_def)
  moreover have "html_unescape ?x = item_text kv"
    using html_unescape_escape [of v "[]"]
    by (simp add: kv item_text_def html_unescape_escape html_unescape_plain html_unescape.simps [of "[]"])
  moreover have "page_items (''/li>'' @ ?rest) = map item_text kvs" by (rule Cons.IH) simp
  ultimately show ?case unfolding eq by simp
qed

lemma metrics_page_items:
  "page_items (metrics_page sprint gauges counters) = map item_text (page_list sprint gauges @ page_list FormatInt counters)"
proof -
  let ?kvs = "page_list sprint gauges @ page_list FormatInt counters"
  let ?rest = "concat (map (\<lambda>(k, v). page_item k v) ?kvs) @ page_foot"
  let ?a = "''html>'' @ nl_text @ ''  ''" and ?b = "''body>'' @ nl_text @ ''    ''"
  have eq: "metrics_page sprint gauges counters = nl_text @ CHR ''<'' # ?a @ CHR ''<'' # ?b @ CHR ''<'' # (''ul>'' @ ?rest)"
    by (simp add: metrics_page_def page_head_def)
  have "page_items (nl_text @ CHR ''<'' # t) = page_items t" "page_items (?a @ CHR ''<'' # t) = page_items t"
    "page_items (?b @ CHR ''<'' # t) = page_items t" for t
    by (rule page_items_skip; simp add: nl_text_def HasPrefix_def)+
  then have "page_items (metrics_page sprint gauges counters) = page_items (''ul>'' @ ?rest)" unfolding eq by metis
  with page_items_list [of "''ul>''" ?kvs] show ?thesis by (metis insertI1)
qed

text \<open>The number of tags depends only on the number of metrics.\<close>

definition tag_count :: "string \<Rightarrow> nat" where
  "tag_count s = count_list s CHR ''<''"

lemma metrics_page_tags:
  assumes "finite (dom gauges)" "finite (dom counters)"
  shows "tag_count (metrics_page sprint gauges counters) = 6 + 2 * (card (dom gauges) + card (dom counters))"
proof -
  have z: "count_list (html_escape s) CHR ''<'' = 0" for s using html_escape_no_tag by (simp add: count_list_0_iff)
  have "count_list (page_item k v) CHR ''<'' = 2" for k v by (simp add: page_item_def nl_text_def z)
  then have "count_list (concat (map (\<lambda>(k, v). page_item k v) kvs)) CHR ''<'' = 2 * length kvs" for kvs
    by (induction kvs) auto
  moreover have "length (page_list sprint gauges @ page_list FormatInt counters) = card (dom gauges) + card (dom counters)"
    using assms by (simp add: page_list_def)
  ultimately show ?thesis
    unfolding tag_count_def metrics_page_def by (simp add: page_head_def page_foot_def nl_text_def del: map_append concat_append)
qed

end
