(* ===== verification/Handler.thy ===== *)
theory Handler
  imports Http Service Audit_Log Durability Html_Page
begin

text \<open>
  \<open>internal/handler/metrics.go\<close>: the HTTP handlers over a service. A handler maps a request and the state
  of the process to a response and the new state. URL parameters of the router are arguments. The clock,
  \<open>net.SplitHostPort\<close>, \<open>strconv.FormatFloat(v, 'f', -1, 64)\<close> and \<open>fmt.Sprint\<close> of a float are arguments
  collected in \<open>http_env\<close>. \<open>log.Printf\<close> has no effect on state or response.
\<close>

section \<open>The handler\<close>

record http_env =
  he_now :: int64
  he_split_host_port :: "string \<Rightarrow> string option"
  he_format_f :: "float64 \<Rightarrow> string"
  he_sprint :: "float64 \<Rightarrow> string"

text \<open>
  The fields of \<open>MetricsHandler\<close>. The interface value \<open>db\<close> is \<^const>\<open>None\<close> when it is nil, and
  \<^term>\<open>Some None\<close> when it holds a nil pointer of type \<open>*sql.DB\<close>, which is not the nil interface.
\<close>

record 'w MetricsHandler =
  h_service :: "'w MetricsService"
  h_db :: "('w \<Rightarrow> gerr \<times> 'w) option option"
  h_auditor :: "'w observer option"

definition NewMetricsHandler :: "'w MetricsService \<Rightarrow> 'w MetricsHandler" where
  "NewMetricsHandler svc = \<lparr>h_service = svc, h_db = None, h_auditor = None\<rparr>"

definition NewMetricsHandlerWithDB :: "'w MetricsService \<Rightarrow> ('w \<Rightarrow> gerr \<times> 'w) option option \<Rightarrow> 'w MetricsHandler" where
  "NewMetricsHandlerWithDB svc db = \<lparr>h_service = svc, h_db = db, h_auditor = None\<rparr>"

definition NewMetricsHandlerWithDBAndAudit ::
  "'w MetricsService \<Rightarrow> ('w \<Rightarrow> gerr \<times> 'w) option option \<Rightarrow> 'w observer option \<Rightarrow> 'w MetricsHandler" where
  "NewMetricsHandlerWithDBAndAudit svc db auditor = \<lparr>h_service = svc, h_db = db, h_auditor = auditor\<rparr>"

type_synonym 'w http_handler = "http_request \<Rightarrow> 'w \<Rightarrow> http_response \<times> 'w"

section \<open>Helpers\<close>

definition validateUpdateMetric :: "Metrics \<Rightarrow> nat" where
  "validateUpdateMetric m =
     (if ID m = [] then StatusNotFound
      else if MType m = Gauge then (if Value m = None then StatusBadRequest else StatusOK)
      else if MType m = Counter then (if Delta m = None then StatusBadRequest else StatusOK)
      else StatusBadRequest)"

definition handler_audit :: "http_env \<Rightarrow> 'w MetricsHandler \<Rightarrow> http_request \<Rightarrow> string list \<Rightarrow> 'w \<Rightarrow> 'w" where
  "handler_audit env h r names w =
     (case h_auditor h of
        None \<Rightarrow> w
      | Some notify \<Rightarrow> if length names = 0 then w
                       else snd (notify (NewEvent (he_split_host_port env) (he_now env) names (hr_RemoteAddr r)) w))"

fun metricNames :: "Metrics list \<Rightarrow> string list" where
  "metricNames [] = []"
| "metricNames (m # ms) = ID m # metricNames ms"

text \<open>\<open>storeBatch\<close>: the response is untouched when it returns true.\<close>

definition storeBatch ::
  "golib \<Rightarrow> http_env \<Rightarrow> 'w MetricsHandler \<Rightarrow> http_request \<Rightarrow> Metrics list \<Rightarrow> http_response \<Rightarrow> 'w \<Rightarrow> bool \<times> http_response \<times> 'w" where
  "storeBatch lib env h r ms resp w =
     (let values = header_Values (hr_Header r) delivery_Header in
      if length values > 0 \<and> (length values \<noteq> 1 \<or> \<not> ValidKey (hd values))
      then (False, http_Error ''invalid idempotency key'' StatusBadRequest resp, w)
      else let key = (if length values > 0 then hd values else []) in
        case Svc_UpdateMetricsOnce lib (h_service h) key ms w of
          ((_, Some e), w') \<Rightarrow>
            if is_conflict e
            then (False, http_Error ''idempotency key reused with different metrics'' StatusConflict resp, w')
            else (False, http_Error ''failed to store metrics'' StatusInternalServerError resp, w')
        | ((applied, None), w') \<Rightarrow> (True, resp, if applied then handler_audit env h r (metricNames ms) w' else w'))"

text \<open>\<open>json.NewEncoder(w).Encode\<close>: nothing is written when the value cannot be encoded.\<close>

definition write_json :: "json option \<Rightarrow> http_response \<Rightarrow> http_response" where
  "write_json j resp = (case j of None \<Rightarrow> resp | Some v \<Rightarrow> write_body (json_print v @ newline) resp)"

definition json_response :: "json option \<Rightarrow> http_response" where
  "json_response j = write_json j (set_header ''Content-Type'' ''application/json'' no_response)"

definition status_response :: "nat \<Rightarrow> http_response" where
  "status_response code = WriteHeader code no_response"

section \<open>Updates\<close>

definition UpdateMetric :: "golib \<Rightarrow> http_env \<Rightarrow> 'w MetricsHandler \<Rightarrow> string \<Rightarrow> string \<Rightarrow> string \<Rightarrow> 'w http_handler" where
  "UpdateMetric lib env h typ name val r w =
     (if name = [] then (status_response StatusNotFound, w)
      else if typ = Gauge then
        (case parse_float lib val of
           None \<Rightarrow> (status_response StatusBadRequest, w)
         | Some v \<Rightarrow>
           (case Svc_UpdateGauge (h_service h) name v w of
              (Some e, w') \<Rightarrow> (http_Error ''failed to store metrics'' StatusInternalServerError no_response, w')
            | (None, w') \<Rightarrow> (status_response StatusOK, handler_audit env h r [name] w')))
      else if typ = Counter then
        (case ParseInt val of
           None \<Rightarrow> (status_response StatusBadRequest, w)
         | Some d \<Rightarrow>
           (case Svc_UpdateCounter (h_service h) name d w of
              (Some e, w') \<Rightarrow> (http_Error ''failed to store metrics'' StatusInternalServerError no_response, w')
            | (None, w') \<Rightarrow> (status_response StatusOK, handler_audit env h r [name] w')))
      else (status_response StatusBadRequest, w))"

text \<open>\<open>json.NewDecoder(r.Body).Decode\<close> reads the first JSON value of the body.\<close>

definition request_json :: "http_request \<Rightarrow> json option" where
  "request_json r = (if hr_BodyErr r then json_read_broken (hr_Body r) else json_read_first (hr_Body r))"

definition decode_metric :: "golib \<Rightarrow> http_request \<Rightarrow> Metrics option" where
  "decode_metric lib r = Option.bind (request_json r) (Metrics_of_json lib)"

definition UpdateMetricJSON :: "golib \<Rightarrow> http_env \<Rightarrow> 'w MetricsHandler \<Rightarrow> 'w http_handler" where
  "UpdateMetricJSON lib env h r w =
     (case decode_metric lib r of
        None \<Rightarrow> (status_response StatusBadRequest, w)
      | Some m \<Rightarrow>
        if validateUpdateMetric m \<noteq> StatusOK then (status_response (validateUpdateMetric m), w)
        else case storeBatch lib env h r [m] no_response w of
               (False, resp, w') \<Rightarrow> (resp, w')
             | (True, _, w') \<Rightarrow> (json_response (json_of_Metrics lib m), w'))"

text \<open>The status of the first metric that is not valid.\<close>

fun validate_all :: "Metrics list \<Rightarrow> nat" where
  "validate_all [] = StatusOK"
| "validate_all (m # ms) = (if validateUpdateMetric m \<noteq> StatusOK then validateUpdateMetric m else validate_all ms)"

text \<open>A body \<open>null\<close> leaves the slice nil, and a nil slice is encoded as \<open>null\<close>.\<close>

definition UpdateMetricsJSON :: "golib \<Rightarrow> http_env \<Rightarrow> 'w MetricsHandler \<Rightarrow> 'w http_handler" where
  "UpdateMetricsJSON lib env h r w =
     (case request_json r of
        None \<Rightarrow> (status_response StatusBadRequest, w)
      | Some j \<Rightarrow>
        (case batch_of_json lib j of
           None \<Rightarrow> (status_response StatusBadRequest, w)
         | Some ms \<Rightarrow>
           if validate_all ms \<noteq> StatusOK then (status_response (validate_all ms), w)
           else case storeBatch lib env h r ms no_response w of
                  (False, resp, w') \<Rightarrow> (resp, w')
                | (True, _, w') \<Rightarrow> (json_response (if j = JNull then Some JNull else json_of_batch lib ms), w')))"

section \<open>Reads\<close>

definition GetValue :: "http_env \<Rightarrow> 'w MetricsHandler \<Rightarrow> string \<Rightarrow> string \<Rightarrow> 'w http_handler" where
  "GetValue env h typ name r w =
     (if name = [] then (status_response StatusNotFound, w)
      else if typ = Gauge then
        (case Svc_GetGauge (h_service h) name w of
           (None, w') \<Rightarrow> (status_response StatusNotFound, w')
         | (Some v, w') \<Rightarrow> (write_body (he_format_f env v) (set_header ''Content-Type'' ''text/plain'' no_response), w'))
      else if typ = Counter then
        (case Svc_GetCounter (h_service h) name w of
           (None, w') \<Rightarrow> (status_response StatusNotFound, w')
         | (Some d, w') \<Rightarrow> (write_body (FormatInt d) (set_header ''Content-Type'' ''text/plain'' no_response), w'))
      else (status_response StatusNotFound, w))"

definition GetValueJSON :: "golib \<Rightarrow> 'w MetricsHandler \<Rightarrow> 'w http_handler" where
  "GetValueJSON lib h r w =
     (case decode_metric lib r of
        None \<Rightarrow> (status_response StatusBadRequest, w)
      | Some q \<Rightarrow>
        if ID q = [] then (status_response StatusNotFound, w)
        else
          (let reply = \<lparr>ID = ID q, MType = MType q, Delta = None, Value = None, Hash = []\<rparr> in
           if MType q = Gauge then
             (case Svc_GetGauge (h_service h) (ID q) w of
                (None, w') \<Rightarrow> (status_response StatusNotFound, w')
              | (Some v, w') \<Rightarrow> (json_response (json_of_Metrics lib (reply\<lparr>Value := Some v\<rparr>)), w'))
           else if MType q = Counter then
             (case Svc_GetCounter (h_service h) (ID q) w of
                (None, w') \<Rightarrow> (status_response StatusNotFound, w')
              | (Some d, w') \<Rightarrow> (json_response (json_of_Metrics lib (reply\<lparr>Delta := Some d\<rparr>)), w'))
           else (status_response StatusNotFound, w)))"

text \<open>\<open>gks\<close> and \<open>cks\<close> are the orders in which the storage copies its maps.\<close>

definition ListMetrics :: "http_env \<Rightarrow> 'w MetricsHandler \<Rightarrow> string list \<Rightarrow> string list \<Rightarrow> 'w http_handler" where
  "ListMetrics env h gks cks r w =
     (let (gauges, w1) = Svc_GetAllGauges (h_service h) gks w;
          (counters, w2) = Svc_GetAllCounters (h_service h) cks w1
      in (write_body (metrics_page (he_sprint env) gauges counters)
            (set_header ''Content-Type'' ''text/html; charset=utf-8'' no_response), w2))"

text \<open>\<open>Ping\<close>; \<^const>\<open>None\<close> is a panic: calling a method of a nil \<open>*sql.DB\<close> dereferences it.\<close>

definition Ping :: "'w MetricsHandler \<Rightarrow> http_request \<Rightarrow> 'w \<Rightarrow> (http_response \<times> 'w) option" where
  "Ping h r w =
     (case h_db h of
        None \<Rightarrow> Some (status_response StatusInternalServerError, w)
      | Some db \<Rightarrow>
        (case db of
           None \<Rightarrow> None
         | Some ping \<Rightarrow>
           (case ping w of
              (Some e, w') \<Rightarrow> Some (status_response StatusInternalServerError, w')
            | (None, w') \<Rightarrow> Some (status_response StatusOK, w'))))"

section \<open>The handler of the server\<close>

text \<open>
  \<open>cmd/server/main.go\<close> passes the pointer \<open>db\<close>, nil without a database, where \<open>DatabasePinger\<close> is
  expected; the conversion makes a non-nil interface value of every pointer. The auditor is only set
  when an observer was subscribed.
\<close>

definition interface_of_pointer :: "'a option \<Rightarrow> 'a option option" where
  "interface_of_pointer p = Some p"

definition main_handler :: "'w MetricsService \<Rightarrow> ('w \<Rightarrow> gerr \<times> 'w) option \<Rightarrow> 'w observer list \<Rightarrow> 'w MetricsHandler" where
  "main_handler svc db observers =
     NewMetricsHandlerWithDBAndAudit svc (interface_of_pointer db)
       (if Enabled (Some observers) then Some (Notifier_Notify observers) else None)"

section \<open>Properties\<close>

lemma validate_iff: "validateUpdateMetric m = StatusOK \<longleftrightarrow> ID m \<noteq> [] \<and> effective m"
  by (auto simp: validateUpdateMetric_def effective_def Counter_def Gauge_def)

lemma validate_range: "validateUpdateMetric m \<in> {200, 400, 404}"
  by (simp add: validateUpdateMetric_def)

lemma validate_all_iff: "validate_all ms = StatusOK \<longleftrightarrow> list_all (\<lambda>m. ID m \<noteq> [] \<and> effective m) ms"
  by (induction ms) (auto simp: validate_iff)

lemma validate_all_range: "validate_all ms \<in> {200, 400, 404}"
  using validate_range by (induction ms) auto

lemma metricNames_eq: "metricNames ms = map ID ms"
  by (induction ms) auto

lemma response_status [simp]:
  "rs_Status (status_response c) = Some c" "final_status (status_response c) = c" "final_status (json_response j) = 200"
  by (auto simp: status_response_def final_status_def json_response_def write_json_def split: option.split)

text \<open>The key of a request as \<open>storeBatch\<close> reads it; \<^const>\<open>None\<close> if it is refused.\<close>

definition key_of :: "http_request \<Rightarrow> string option" where
  "key_of r =
     (let values = header_Values (hr_Header r) delivery_Header in
      case values of [] \<Rightarrow> Some [] | [v] \<Rightarrow> if ValidKey v then Some v else None | _ \<Rightarrow> None)"

lemma storeBatch_cases:
  "storeBatch lib env h r ms no_response w =
     (case key_of r of
        None \<Rightarrow> (False, http_Error ''invalid idempotency key'' StatusBadRequest no_response, w)
      | Some key \<Rightarrow>
        (case Svc_UpdateMetricsOnce lib (h_service h) key ms w of
           ((_, Some e), w') \<Rightarrow>
             if is_conflict e
             then (False, http_Error ''idempotency key reused with different metrics'' StatusConflict no_response, w')
             else (False, http_Error ''failed to store metrics'' StatusInternalServerError no_response, w')
         | ((applied, None), w') \<Rightarrow> (True, no_response, if applied then handler_audit env h r (map ID ms) w' else w')))"
  unfolding storeBatch_def key_of_def metricNames_eq Let_def
  by (cases "header_Values (hr_Header r) delivery_Header" rule: list.exhaust) (simp_all split: list.split)

text \<open>
  C18. The batch endpoint decides everything before it stores anything: a malformed body, an invalid
  metric anywhere in the batch or a bad key gives 400 or 404 and leaves the state alone; otherwise the
  service is called once with the whole batch, and the status reports its result: 200 when stored (with
  one audit event exactly if it was applied now), 409 for a key with other contents, 500 otherwise.
\<close>

theorem batch_endpoint_spec:
  "case UpdateMetricsJSON lib env h r w of (resp, w') \<Rightarrow>
     (case (Option.bind (request_json r) (batch_of_json lib), key_of r) of
        (Some ms, Some key) \<Rightarrow>
          if list_all (\<lambda>m. ID m \<noteq> [] \<and> effective m) ms
          then (case Svc_UpdateMetricsOnce lib (h_service h) key ms w of
                  ((applied, None), w1) \<Rightarrow>
                    final_status resp = 200 \<and> w' = (if applied then handler_audit env h r (map ID ms) w1 else w1)
                | ((_, Some e), w1) \<Rightarrow> final_status resp = (if is_conflict e then 409 else 500) \<and> w' = w1)
          else final_status resp \<in> {400, 404} \<and> w' = w
      | _ \<Rightarrow> final_status resp \<in> {400, 404} \<and> w' = w)"
proof (cases "Option.bind (request_json r) (batch_of_json lib)")
  case None
  then show ?thesis by (cases "request_json r") (auto simp: UpdateMetricsJSON_def)
next
  case (Some ms)
  then obtain j where j: "request_json r = Some j" "batch_of_json lib j = Some ms"
    by (cases "request_json r") auto
  show ?thesis
  proof (cases "validate_all ms = StatusOK")
    case False
    with validate_all_range [of ms] have "validate_all ms \<in> {400, 404}" by auto
    with False j Some show ?thesis by (auto simp: UpdateMetricsJSON_def validate_all_iff split: option.split)
  next
    case True
    then have v: "list_all (\<lambda>m. ID m \<noteq> [] \<and> effective m) ms" by (simp add: validate_all_iff)
    show ?thesis
    proof (cases "key_of r")
      case None
      with True v j Some show ?thesis by (simp add: UpdateMetricsJSON_def storeBatch_cases)
    next
      case (Some key)
      obtain a e w1 where o: "Svc_UpdateMetricsOnce lib (h_service h) key ms w = ((a, e), w1)" by (metis surj_pair)
      with True v j Some show ?thesis
        by (cases e) (simp_all add: UpdateMetricsJSON_def storeBatch_cases)
    qed
  qed
qed


end
