(* ===== verification/Crypto.thy ===== *)
theory Crypto
  imports Metrics_Json
begin

text \<open>
  \<open>internal/signature\<close> and \<open>internal/encryption/encryption.go\<close>: request signatures and the encrypted
  wire format. The primitives (RSA-OAEP, AES-GCM, gzip, HMAC) are arguments of the model; what the
  theorems need of them is stated as hypotheses on these arguments. Byte slices are cut with \<open>slice\<close>,
  which is \<^const>\<open>None\<close> where Go would panic.
\<close>

section \<open>Signatures\<close>

definition signature_Header :: string where
  "signature_Header = ''HashSHA256''"

definition signature_calculate :: "golib \<Rightarrow> bytes \<Rightarrow> string \<Rightarrow> bytes" where
  "signature_calculate lib data key = hmac_sha256 lib key data"

definition Calculate :: "golib \<Rightarrow> bytes \<Rightarrow> string \<Rightarrow> string" where
  "Calculate lib data key = hex_EncodeToString (signature_calculate lib data key)"

definition Verify :: "golib \<Rightarrow> bytes \<Rightarrow> string \<Rightarrow> string \<Rightarrow> bool" where
  "Verify lib data key expected =
     (case hex_DecodeString expected of
        None \<Rightarrow> False
      | Some expectedBytes \<Rightarrow> signature_calculate lib data key = expectedBytes)"

lemma Verify_Calculate [simp]: "Verify lib data key (Calculate lib data key)"
  by (simp add: Verify_def Calculate_def)

section \<open>The encrypted body\<close>

definition encryption_Header :: string where
  "encryption_Header = ''X-Metrics-Encryption''"

definition Algorithm :: string where
  "Algorithm = ''rsa-oaep-aes256-gcm-v1''"

text \<open>What the code reads of an RSA key; \<open>pk_id\<close> stands for the modulus.\<close>

record PublicKey =
  pk_id :: nat
  pk_bits :: nat
  pk_E :: int

record PrivateKey =
  sk_PublicKey :: PublicKey

definition key_Size :: "PublicKey \<Rightarrow> nat" where
  "key_Size k = (pk_bits k + 7) div 8"

text \<open>Randomness of one call: the results of the two reads, and the coins of OAEP.\<close>

record enc_rand =
  rnd_session :: "goerror + bytes"
  rnd_nonce :: "goerror + bytes"
  rnd_coins :: bytes

text \<open>
  The primitives. \<open>gunzip_stream b err\<close> is a gzip reader over a stream that yields \<open>b\<close> and then fails or ends,
  as \<open>err\<close> tells: \<^const>\<open>None\<close> when \<open>gzip.NewReader\<close> refuses it, else what can be read and whether reading
  ends with an error.
\<close>

record wirelib =
  oaep_encrypt :: "PublicKey \<Rightarrow> bytes \<Rightarrow> bytes \<Rightarrow> bytes \<Rightarrow> goerror + bytes"
  oaep_decrypt :: "PrivateKey \<Rightarrow> bytes \<Rightarrow> bytes \<Rightarrow> goerror + bytes"
  gcm_seal :: "bytes \<Rightarrow> bytes \<Rightarrow> bytes \<Rightarrow> bytes \<Rightarrow> bytes"
  gcm_open :: "bytes \<Rightarrow> bytes \<Rightarrow> bytes \<Rightarrow> bytes \<Rightarrow> bytes option"
  gzip_bytes :: "bytes \<Rightarrow> bytes"
  gunzip_stream :: "bytes \<Rightarrow> bool \<Rightarrow> (bytes \<times> bool) option"

definition gcm_NonceSize :: nat where
  "gcm_NonceSize = 12"

definition gcm_Overhead :: nat where
  "gcm_Overhead = 16"

text \<open>\<open>aes.NewCipher\<close> accepts keys of 16, 24 and 32 bytes; \<open>cipher.NewGCM\<close> accepts every AES block.\<close>

definition newGCM :: "bytes \<Rightarrow> goerror + bytes" where
  "newGCM key =
     (if length key \<in> {16, 24, 32} then Inr key
      else Inl (WrapError ''create AES cipher'' [ErrorString ''crypto/aes: invalid key size'']))"

definition validatePublicKey :: "PublicKey option \<Rightarrow> gerr" where
  "validatePublicKey key =
     (case key of
        None \<Rightarrow> Some (ErrorString ''RSA key must have at least 2048 bits and a valid public exponent'')
      | Some k \<Rightarrow> if pk_bits k < 2048 \<or> pk_E k < 3 \<or> even (pk_E k)
                  then Some (ErrorString ''RSA key must have at least 2048 bits and a valid public exponent'') else None)"

definition version_byte :: char where
  "version_byte = char_of (1 :: nat)"

definition Encrypt :: "wirelib \<Rightarrow> enc_rand \<Rightarrow> PublicKey option \<Rightarrow> bytes \<Rightarrow> goerror + bytes" where
  "Encrypt lib rnd key body =
     (case validatePublicKey key of
        Some e \<Rightarrow> Inl e
      | None \<Rightarrow>
        (case rnd_session rnd of
           Inl e \<Rightarrow> Inl (WrapError ''generate session key'' [e])
         | Inr sessionKey \<Rightarrow>
           (case oaep_encrypt lib (the key) (rnd_coins rnd) sessionKey Algorithm of
              Inl e \<Rightarrow> Inl (WrapError ''encrypt session key'' [e])
            | Inr wrapped \<Rightarrow>
              (case newGCM sessionKey of
                 Inl e \<Rightarrow> Inl e
               | Inr gcm \<Rightarrow>
                 (let header = version_byte # wrapped in
                  case rnd_nonce rnd of
                    Inl e \<Rightarrow> Inl (WrapError ''generate nonce'' [e])
                  | Inr nonce \<Rightarrow> Inr (header @ nonce @ gcm_seal lib gcm nonce body header))))))"

definition slice :: "'a list \<Rightarrow> nat \<Rightarrow> nat \<Rightarrow> 'a list option" where
  "slice xs a b = (if a \<le> b \<and> b \<le> length xs then Some (take (b - a) (drop a xs)) else None)"

text \<open>\<open>body[0] != 1\<close> with Go's short-circuit evaluation: the length is tested first.\<close>

definition bad_prefix :: "bytes \<Rightarrow> nat \<Rightarrow> bool" where
  "bad_prefix body headerSize \<longleftrightarrow> length body < headerSize \<or> hd body \<noteq> version_byte"

text \<open>\<open>Decrypt\<close>; the outer \<^const>\<open>None\<close> is a panic.\<close>

definition Decrypt :: "wirelib \<Rightarrow> PrivateKey option \<Rightarrow> bytes \<Rightarrow> (goerror + bytes) option" where
  "Decrypt lib key body =
     (case key of
        None \<Rightarrow> Some (Inl (ErrorString ''private key is required''))
      | Some sk \<Rightarrow>
        (case validatePublicKey (Some (sk_PublicKey sk)) of
           Some e \<Rightarrow> Some (Inl e)
         | None \<Rightarrow>
           (let headerSize = 1 + key_Size (sk_PublicKey sk) in
            if bad_prefix body headerSize then Some (Inl (ErrorString ''invalid encrypted body''))
            else Option.bind (slice body 1 headerSize) (\<lambda>wrapped.
              case oaep_decrypt lib sk wrapped Algorithm of
                Inl e \<Rightarrow> Some (Inl (WrapError ''decrypt session key'' [e]))
              | Inr sessionKey \<Rightarrow>
                if length sessionKey \<noteq> 32 then Some (Inl (ErrorString ''invalid session key length''))
                else case newGCM sessionKey of
                  Inl e \<Rightarrow> Some (Inl e)
                | Inr gcm \<Rightarrow>
                  if length body < headerSize + gcm_NonceSize + gcm_Overhead
                  then Some (Inl (ErrorString ''truncated encrypted body''))
                  else let nonceEnd = headerSize + gcm_NonceSize in
                    Option.bind (slice body headerSize nonceEnd) (\<lambda>nonce.
                    Option.bind (slice body nonceEnd (length body)) (\<lambda>ct.
                    Option.bind (slice body 0 headerSize) (\<lambda>hdr.
                      Some (case gcm_open lib gcm nonce hdr ct of
                              None \<Rightarrow> Inl (WrapError ''decrypt body'' [ErrorString ''cipher: message authentication failed''])
                            | Some plain \<Rightarrow> Inr plain))))))))"

section \<open>Round trip and safety\<close>

text \<open>What is documented of the primitives: OAEP and GCM invert, and the lengths of their outputs.\<close>

definition oaep_ok :: "wirelib \<Rightarrow> PrivateKey \<Rightarrow> bool" where
  "oaep_ok lib sk \<longleftrightarrow>
     (\<forall>coins m label c. oaep_encrypt lib (sk_PublicKey sk) coins m label = Inr c \<longrightarrow>
        oaep_decrypt lib sk c label = Inr m \<and> length c = key_Size (sk_PublicKey sk))"

definition gcm_ok :: "wirelib \<Rightarrow> bool" where
  "gcm_ok lib \<longleftrightarrow>
     (\<forall>k n ad p. gcm_open lib k n ad (gcm_seal lib k n p ad) = Some p \<and> length (gcm_seal lib k n p ad) = length p + gcm_Overhead)"

text \<open>\<open>rand.Read\<close> fills the buffers it is given.\<close>

definition rnd_ok :: "enc_rand \<Rightarrow> bool" where
  "rnd_ok rnd \<longleftrightarrow> (\<forall>b. rnd_session rnd = Inr b \<longrightarrow> length b = 32) \<and> (\<forall>b. rnd_nonce rnd = Inr b \<longrightarrow> length b = gcm_NonceSize)"

lemma slice_simps:
  "length xs = n \<Longrightarrow> slice (xs @ ys) 0 n = Some xs"
  "length xs = a \<Longrightarrow> b = a + length ys \<Longrightarrow> slice (xs @ ys @ zs) a b = Some ys"
  "length xs = a \<Longrightarrow> b = a + length ys \<Longrightarrow> slice (xs @ ys) a b = Some ys"
  by (auto simp: slice_def)

lemma Encrypt_Inr:
  assumes "Encrypt lib rnd key body = Inr out"
  obtains pk session wrapped nonce where "key = Some pk" "validatePublicKey (Some pk) = None" "rnd_session rnd = Inr session"
    "oaep_encrypt lib pk (rnd_coins rnd) session Algorithm = Inr wrapped" "rnd_nonce rnd = Inr nonce"
    "out = (version_byte # wrapped) @ nonce @ gcm_seal lib session nonce body (version_byte # wrapped)"
  using assms that
  by (cases key) (auto simp: Encrypt_def newGCM_def Let_def validatePublicKey_def split: option.splits sum.splits if_splits)

lemma Decrypt_Encrypt:
  assumes "oaep_ok lib sk" "gcm_ok lib" "rnd_ok rnd" "Encrypt lib rnd (Some (sk_PublicKey sk)) body = Inr out"
  shows "Decrypt lib (Some sk) out = Some (Inr body)"
  using assms(4)
proof (cases rule: Encrypt_Inr)
  case (1 pk session wrapped nonce)
  let ?h = "version_byte # wrapped"
  let ?s = "gcm_seal lib session nonce body ?h"
  have o: "oaep_decrypt lib sk wrapped Algorithm = Inr session" "length wrapped = key_Size (sk_PublicKey sk)"
    using assms(1) 1(1,4) by (auto simp: oaep_ok_def)
  have l: "length session = 32" "length nonce = 12" "length ?s = length body + 16"
    "gcm_open lib session nonce ?h ?s = Some body"
    using assms(2,3) 1(3,5) by (auto simp: rnd_ok_def gcm_ok_def gcm_NonceSize_def gcm_Overhead_def)
  have sl: "slice out 1 (Suc (length wrapped)) = Some wrapped" "slice out 0 (Suc (length wrapped)) = Some ?h"
    "slice out (Suc (length wrapped)) (Suc (length wrapped) + 12) = Some nonce"
    using l(2) by (simp_all add: 1(6) slice_def)
  have "out = (?h @ nonce) @ ?s" by (simp add: 1(6))
  then have sl4: "slice out (Suc (length wrapped) + 12) (length out) = Some ?s"
    using l(2) slice_simps(3) [of "?h @ nonce" "Suc (length wrapped) + 12" "length out" ?s] by simp
  have "\<not> bad_prefix out (Suc (length wrapped))" "length out = Suc (length wrapped) + 12 + (length body + 16)"
    using l by (simp_all add: 1(6) bad_prefix_def)
  with 1(1,2) o l sl sl4 show ?thesis
    by (simp add: Decrypt_def newGCM_def gcm_NonceSize_def gcm_Overhead_def)
qed

lemma Decrypt_no_panic: "Decrypt lib key input \<noteq> None"
  by (auto simp: Decrypt_def bad_prefix_def Let_def slice_def split: option.splits sum.splits)

text \<open>
  C24. The encrypted wire format: \<open>Decrypt\<close> never panics, whatever bytes arrive and whatever the
  primitives answer (every slice is in range), and it returns the exact body of everything \<open>Encrypt\<close>
  produced for the matching key.
\<close>

theorem Decrypt_safe_and_inverse:
  "Decrypt lib key input \<noteq> None
   \<and> (oaep_ok lib sk \<longrightarrow> gcm_ok lib \<longrightarrow> rnd_ok rnd \<longrightarrow>
        (case Encrypt lib rnd (Some (sk_PublicKey sk)) body of
           Inl _ \<Rightarrow> True
         | Inr out \<Rightarrow> Decrypt lib (Some sk) out = Some (Inr body)))"
proof
  show "Decrypt lib key input \<noteq> None" by (rule Decrypt_no_panic)
next
  show "oaep_ok lib sk \<longrightarrow> gcm_ok lib \<longrightarrow> rnd_ok rnd \<longrightarrow>
        (case Encrypt lib rnd (Some (sk_PublicKey sk)) body of
           Inl _ \<Rightarrow> True
         | Inr out \<Rightarrow> Decrypt lib (Some sk) out = Some (Inr body))"
    using Decrypt_Encrypt [of lib sk rnd body] by (auto split: sum.split)
qed

text \<open>Primitives that satisfy the hypotheses: identity ciphers that only fix the lengths.\<close>

definition demo_sk :: PrivateKey where
  "demo_sk = \<lparr>sk_PublicKey = \<lparr>pk_id = 1, pk_bits = 2048, pk_E = 65537\<rparr>\<rparr>"

definition demo_wire :: wirelib where
  "demo_wire =
     \<lparr>oaep_encrypt = (\<lambda>pk coins m label. if length m = 32 then Inr (m @ replicate (key_Size pk - 32) version_byte)
                                          else Inl (ErrorString ''length'')),
      oaep_decrypt = (\<lambda>sk c label. Inr (take 32 c)),
      gcm_seal = (\<lambda>k n p ad. p @ replicate 16 version_byte),
      gcm_open = (\<lambda>k n ad c. if length c < 16 then None else Some (take (length c - 16) c)),
      gzip_bytes = (\<lambda>b. b), gunzip_stream = (\<lambda>b err. Some (b, err))\<rparr>"

definition demo_rand :: enc_rand where
  "demo_rand = \<lparr>rnd_session = Inr (replicate 32 version_byte), rnd_nonce = Inr (replicate 12 version_byte), rnd_coins = []\<rparr>"

lemma demo_wire_ok: "oaep_ok demo_wire demo_sk" "gcm_ok demo_wire" "rnd_ok demo_rand"
  by (auto simp: oaep_ok_def gcm_ok_def rnd_ok_def demo_wire_def demo_sk_def demo_rand_def key_Size_def gcm_Overhead_def
      gcm_NonceSize_def split: if_splits)

lemma Decrypt_safe_and_inverse_witness:
  "\<exists>out. Encrypt demo_wire demo_rand (Some (sk_PublicKey demo_sk)) ''hello'' = Inr out
      \<and> Decrypt demo_wire (Some demo_sk) out = Some (Inr ''hello'')"
proof -
  obtain out where e: "Encrypt demo_wire demo_rand (Some (sk_PublicKey demo_sk)) ''hello'' = Inr out"
    by (simp add: Encrypt_def demo_wire_def demo_rand_def demo_sk_def validatePublicKey_def newGCM_def)
  with Decrypt_safe_and_inverse [of demo_wire None "[]" demo_sk demo_rand "''hello''"] demo_wire_ok show ?thesis
    by auto
qed

end
