(* ===== verification/Net_Ip.thy ===== *)
theory Net_Ip
  imports Go_Strings
begin

text \<open>
  The part of Go's package \<open>net\<close> the trusted subnet uses: \<open>ParseIP\<close>, \<open>ParseCIDR\<close>, \<open>CIDRMask\<close>,
  \<open>IP.To4\<close>, \<open>IP.Mask\<close> and \<open>IPNet.Contains\<close>, for IPv4 and IPv6. An address is the list of its 4 or 16 bytes;
  \<^term>\<open>[]\<close> is the nil address. The theory ends with what membership means: equal leading bits.
\<close>

unbundle bit_operations_syntax

type_synonym ip = "8 word list"

section \<open>Parsing addresses\<close>

text \<open>\<open>parseIPv4Fields\<close>: \<open>val\<close> is the number read so far in the current octet, \<open>digLen\<close> the number of its
  digits, \<open>fs\<close> the octets before it.\<close>

fun parseIPv4Fields :: "nat \<Rightarrow> nat \<Rightarrow> ip \<Rightarrow> string \<Rightarrow> ip option" where
  "parseIPv4Fields val digLen fs [] = (if length fs < 3 then None else Some (fs @ [of_nat val]))"
| "parseIPv4Fields val digLen fs (c # s) =
     (if is_digit c
      then if digLen = 1 \<and> val = 0 then None
           else if val * 10 + digit_val c > 255 then None
           else parseIPv4Fields (val * 10 + digit_val c) (Suc digLen) fs s
      else if c = CHR ''.''
      then if digLen = 0 \<or> s = [] \<or> length fs = 3 then None
           else parseIPv4Fields 0 0 (fs @ [of_nat val]) s
      else None)"

text \<open>The digits of a group of an IPv6 address; more than four of them are an error.\<close>

definition is_hex :: "char \<Rightarrow> bool" where
  "is_hex c \<longleftrightarrow> hex_val c \<noteq> None"

definition hex_group :: "string \<Rightarrow> nat" where
  "hex_group ds = foldl (\<lambda>acc c. acc * 16 + the (hex_val c)) 0 ds"

lemma after_dropWhile:
  assumes "xs = dropWhile P s" "xs = c # s1"
  shows "length s1 < length s \<and> length (tl s1) < length s"
proof -
  have "length xs \<le> length s" by (simp add: assms(1) length_dropWhile_le)
  then show ?thesis using assms(2) by auto
qed

text \<open>
  The loop of \<open>parseIPv6\<close>: \<open>acc\<close> holds the bytes read, \<open>ellipsis\<close> the position of \<open>::\<close>. The result is
  \<^const>\<open>None\<close> on an error, else the bytes, the ellipsis and what is left of the string.
\<close>

function parseIPv6Loop :: "ip \<Rightarrow> nat option \<Rightarrow> string \<Rightarrow> (ip \<times> nat option \<times> string) option" where
  "parseIPv6Loop acc ellipsis s =
     (if length acc \<ge> 16 then Some (acc, ellipsis, s)
      else let ds = takeWhile is_hex s; rest = dropWhile is_hex s in
        if ds = [] \<or> length ds > 4 then None
        else if rest \<noteq> [] \<and> hd rest = CHR ''.''
        then if ellipsis = None \<and> length acc \<noteq> 12 then None
             else if length acc + 4 > 16 then None
             else (case parseIPv4Fields 0 0 [] s of None \<Rightarrow> None | Some v4 \<Rightarrow> Some (acc @ v4, ellipsis, []))
        else let acc' = acc @ [of_nat (hex_group ds div 256), of_nat (hex_group ds mod 256)] in
          case rest of
            [] \<Rightarrow> Some (acc', ellipsis, [])
          | c # s1 \<Rightarrow>
            if c \<noteq> CHR '':'' \<or> s1 = [] then None
            else if hd s1 = CHR '':''
            then if ellipsis \<noteq> None then None
                 else if tl s1 = [] then Some (acc', Some (length acc'), [])
                 else parseIPv6Loop acc' (Some (length acc')) (tl s1)
            else parseIPv6Loop acc' ellipsis s1)"
  by pat_completeness auto

termination parseIPv6Loop
proof (relation "measure (\<lambda>(acc, ellipsis, s). length s)", goal_cases)
  case (2 acc ellipsis s ds rest acc' c s1)
  then show ?case using after_dropWhile [OF 2(3,7)] by simp
next
  case (3 acc ellipsis s ds rest acc' c s1)
  then show ?case using after_dropWhile [OF 3(3,7)] by simp
qed simp

declare parseIPv6Loop.simps [simp del]

definition parseIPv6 :: "string \<Rightarrow> ip option" where
  "parseIPv6 s =
     (let (ellipsis, s1) = (if HasPrefix s ''::'' then (Some 0, drop 2 s) else (None, s)) in
      if ellipsis \<noteq> None \<and> s1 = [] then Some (replicate 16 0)
      else case parseIPv6Loop [] ellipsis s1 of
        None \<Rightarrow> None
      | Some (acc, e, rest) \<Rightarrow>
        if rest \<noteq> [] then None
        else if length acc < 16
        then (case e of None \<Rightarrow> None | Some p \<Rightarrow> Some (take p acc @ replicate (16 - length acc) 0 @ drop p acc))
        else if e \<noteq> None then None else Some acc)"

text \<open>\<open>netip.ParseAddr\<close>: the first of the characters \<open>.\<close>, \<open>:\<close> and \<open>%\<close> decides. An IPv4 address keeps its four
  bytes here. Addresses with a zone are an error for both callers in \<open>net\<close>.\<close>

definition ParseAddr :: "string \<Rightarrow> ip option" where
  "ParseAddr s =
     (case dropWhile (\<lambda>c. c \<noteq> CHR ''.'' \<and> c \<noteq> CHR '':'' \<and> c \<noteq> CHR ''%'') s of
        [] \<Rightarrow> None
      | c # _ \<Rightarrow> if c = CHR ''.'' then parseIPv4Fields 0 0 [] s
                 else if c = CHR ''%'' \<or> CHR ''%'' \<in> set s then None
                 else parseIPv6 s)"

definition v4InV6Prefix :: ip where
  "v4InV6Prefix = replicate 10 0 @ [0xff, 0xff]"

definition As16 :: "ip \<Rightarrow> ip" where
  "As16 a = (if length a = 4 then v4InV6Prefix @ a else a)"

definition ParseIP :: "string \<Rightarrow> ip" where
  "ParseIP s = (case ParseAddr s of None \<Rightarrow> [] | Some a \<Rightarrow> As16 a)"

section \<open>Networks\<close>

record IPNet =
  net_IP :: ip
  net_Mask :: "8 word list"

definition To4 :: "ip \<Rightarrow> ip option" where
  "To4 a = (if length a = 4 then Some a
            else if length a = 16 \<and> take 12 a = v4InV6Prefix then Some (drop 12 a) else None)"

text \<open>One byte of a mask with \<open>k\<close> leading ones, and \<open>CIDRMask\<close>.\<close>

definition mask_byte :: "nat \<Rightarrow> 8 word" where
  "mask_byte k = NOT (drop_bit k 0xff)"

fun mask_bytes :: "nat \<Rightarrow> nat \<Rightarrow> 8 word list" where
  "mask_bytes ones 0 = []"
| "mask_bytes ones (Suc l) = (if ones \<ge> 8 then 0xff # mask_bytes (ones - 8) l else mask_byte ones # mask_bytes 0 l)"

definition CIDRMask :: "nat \<Rightarrow> nat \<Rightarrow> 8 word list" where
  "CIDRMask ones bits = mask_bytes ones (bits div 8)"

definition and_bytes :: "8 word list \<Rightarrow> 8 word list \<Rightarrow> 8 word list" where
  "and_bytes a m = map2 (AND) a m"

text \<open>\<open>IP.Mask\<close> for the masks and addresses of \<open>ParseCIDR\<close>: a mask of 4 bytes takes the last four of a
  16-byte address.\<close>

definition ip_Mask :: "ip \<Rightarrow> 8 word list \<Rightarrow> ip" where
  "ip_Mask a m = and_bytes (if length m = 4 \<and> length a = 16 \<and> take 12 a = v4InV6Prefix then drop 12 a else a) m"

text \<open>\<open>dtoi\<close>: decimal digits up to 24 bits.\<close>

definition dtoi :: "string \<Rightarrow> nat option" where
  "dtoi s = (if s = [] then None else case parse_digits 0 s of None \<Rightarrow> None | Some n \<Rightarrow> if n \<ge> 0xFFFFFF then None else Some n)"

definition ParseCIDR :: "string \<Rightarrow> IPNet option" where
  "ParseCIDR s =
     (case dropWhile (\<lambda>c. c \<noteq> CHR ''/'') s of
        [] \<Rightarrow> None
      | _ # bits \<Rightarrow>
        (case ParseAddr (takeWhile (\<lambda>c. c \<noteq> CHR ''/'') s) of
           None \<Rightarrow> None
         | Some a \<Rightarrow>
           (case dtoi bits of
              None \<Rightarrow> None
            | Some n \<Rightarrow> if n > 8 * length a then None
                        else let m = CIDRMask n (8 * length a) in Some \<lparr>net_IP = ip_Mask (As16 a) m, net_Mask = m\<rparr>)))"

definition networkNumberAndMask :: "IPNet \<Rightarrow> (ip \<times> 8 word list) option" where
  "networkNumberAndMask n =
     (let (a, l) = (case To4 (net_IP n) of Some a \<Rightarrow> (a, 4) | None \<Rightarrow> (net_IP n, length (net_IP n))) in
      if l \<noteq> 4 \<and> l \<noteq> 16 then None
      else if length (net_Mask n) = 4 then (if length a \<noteq> 4 then None else Some (a, net_Mask n))
      else if length (net_Mask n) = 16 then Some (a, if length a = 4 then drop 12 (net_Mask n) else net_Mask n)
      else None)"

definition Contains :: "IPNet \<Rightarrow> ip \<Rightarrow> bool" where
  "Contains n a =
     (case networkNumberAndMask n of
        None \<Rightarrow> a = []
      | Some (nn, m) \<Rightarrow>
        (let x = (case To4 a of Some v \<Rightarrow> v | None \<Rightarrow> a) in
         length x = length nn \<and> and_bytes nn m = and_bytes x m))"

section \<open>Masked bytes are leading bits\<close>

text \<open>The bits of an address, the most significant first.\<close>

definition byte_bits :: "8 word \<Rightarrow> bool list" where
  "byte_bits b = map (bit b) [7, 6, 5, 4, 3, 2, 1, 0]"

lemma top_bits: "k \<le> 8 \<Longrightarrow> set (take k [7, 6, 5, 4, 3, 2, 1, 0]) = {n :: nat. n < 8 \<and> 8 \<le> n + k}"
proof -
  assume "k \<le> 8"
  then have "k \<in> {0, 1, 2, 3, 4, 5, 6, 7, 8}" by auto
  then show ?thesis by (elim insertE emptyE) (simp_all, auto)
qed

lemma take_byte_bits_iff:
  "k \<le> 8 \<Longrightarrow> take k (byte_bits x) = take k (byte_bits y) \<longleftrightarrow> (\<forall>n < 8. 8 \<le> n + k \<longrightarrow> (bit x n \<longleftrightarrow> bit y n))"
  unfolding byte_bits_def take_map map_eq_conv top_bits by auto

lemma bit_mask_byte: "n < 8 \<Longrightarrow> bit (mask_byte k) n \<longleftrightarrow> 8 \<le> n + k"
proof -
  assume n: "n < 8"
  have m: "(0xff :: 8 word) = mask 8" by (simp add: mask_eq_exp_minus_1)
  from n show ?thesis unfolding mask_byte_def m bit_not_iff bit_drop_bit_eq by (auto simp: bit_mask_iff)
qed

lemma masked_byte:
  assumes "k \<le> 8"
  shows "x AND mask_byte k = y AND mask_byte k \<longleftrightarrow> take k (byte_bits x) = take k (byte_bits y)"
proof -
  have "x AND mask_byte k = y AND mask_byte k \<longleftrightarrow> (\<forall>n < 8. bit (x AND mask_byte k) n \<longleftrightarrow> bit (y AND mask_byte k) n)"
    by (auto intro!: bit_word_eqI)
  also have "\<dots> \<longleftrightarrow> (\<forall>n < 8. 8 \<le> n + k \<longrightarrow> (bit x n \<longleftrightarrow> bit y n))"
    by (auto simp: bit_and_iff bit_mask_byte)
  finally show ?thesis by (simp add: take_byte_bits_iff [OF assms])
qed

lemma mask_byte_8: "mask_byte 8 = 0xff"
  by (simp add: mask_byte_def)

definition ip_bits :: "ip \<Rightarrow> bool list" where
  "ip_bits a = concat (map byte_bits a)"

lemma masked_bytes:
  assumes "length a = l" "length b = l"
  shows "and_bytes a (mask_bytes k l) = and_bytes b (mask_bytes k l) \<longleftrightarrow> take k (ip_bits a) = take k (ip_bits b)"
  using assms
proof (induction l arbitrary: a b k)
  case 0
  then show ?case by (simp add: and_bytes_def)
next
  case (Suc l)
  then obtain x a' y b' where ab: "a = x # a'" "b = y # b'" "length a' = l" "length b' = l"
    by (auto simp: length_Suc_conv)
  have len: "length (byte_bits z) = 8" for z by (simp add: byte_bits_def)
  show ?case
  proof (cases "k \<ge> 8")
    case True
    have "x AND 0xff = y AND 0xff \<longleftrightarrow> byte_bits x = byte_bits y"
      using masked_byte [of 8 x y] by (simp add: mask_byte_8 len)
    with True Suc.IH [OF ab(3,4), of "k - 8"] show ?thesis
      by (simp add: ab and_bytes_def ip_bits_def len)
  next
    case False
    have "and_bytes a' (mask_bytes 0 l) = and_bytes b' (mask_bytes 0 l)" using Suc.IH [OF ab(3,4), of 0] by simp
    with False masked_byte [of k x y] show ?thesis
      by (simp add: ab and_bytes_def ip_bits_def len)
  qed
qed

lemma length_mask_bytes [simp]: "length (mask_bytes k l) = l"
  by (induction k l rule: mask_bytes.induct) auto

lemma length_and_bytes [simp]: "length (and_bytes a m) = min (length a) (length m)"
  by (simp add: and_bytes_def)

lemma and_bytes_idem: "and_bytes (and_bytes a m) m = and_bytes a m"
  by (induction a m rule: list_induct2') (simp_all add: and_bytes_def and.assoc)

section \<open>Text of an IPv4 address\<close>

definition dotted :: "ip \<Rightarrow> string" where
  "dotted a = format_nat (unat (a ! 0)) @ ''.'' @ format_nat (unat (a ! 1)) @ ''.'' @ format_nat (unat (a ! 2)) @ ''.''
     @ format_nat (unat (a ! 3))"

lemma dot_no_digit: "\<not> is_digit CHR ''.''" "\<not> is_digit CHR '':''" "\<not> is_digit CHR ''%''" "\<not> is_digit CHR ''/''"
  by (simp_all add: is_digit_def)

text \<open>The digits of one octet, whatever follows them.\<close>

lemma parse_octet:
  assumes "n < 256" "rest = [] \<or> \<not> is_digit (hd rest)"
  shows "\<exists>k > 0. parseIPv4Fields 0 0 fs (format_nat n @ rest) = parseIPv4Fields n k fs rest"
proof -
  consider (one) "n < 10" | (two) "10 \<le> n" "n < 100" | (three) "100 \<le> n" "n < 256" using assms by linarith
  then show ?thesis
  proof cases
    case one
    then have "parseIPv4Fields 0 0 fs (format_nat n @ rest) = parseIPv4Fields n 1 fs rest"
      by (simp add: format_nat.simps [of n])
    then show ?thesis by (intro exI [of _ 1]) simp
  next
    case two
    then have "format_nat n = [digit_char (n div 10), digit_char (n mod 10)]"
      by (subst format_nat.simps) (simp add: format_nat.simps [of "n div 10"])
    moreover have "0 < n div 10" "n div 10 < 10" using two by simp_all
    ultimately have "parseIPv4Fields 0 0 fs (format_nat n @ rest) = parseIPv4Fields n 2 fs rest"
      using two by (simp add: numeral_2_eq_2)
    then show ?thesis by (intro exI [of _ 2]) simp
  next
    case three
    then have d: "10 \<le> n" "10 \<le> n div 10" "n div 10 div 10 < 10" by linarith+
    then have "format_nat n = [digit_char (n div 10 div 10), digit_char (n div 10 mod 10), digit_char (n mod 10)]"
      by (subst format_nat.simps) (simp add: format_nat.simps [of "n div 10"] format_nat.simps [of "n div 10 div 10"])
    moreover have "n div 10 div 10 * 10 + n div 10 mod 10 = n div 10" "n div 10 * 10 + n mod 10 = n" by simp_all
    moreover have "n div 10 \<le> 25" "0 < n div 10 div 10" using three by simp_all
    ultimately have "parseIPv4Fields 0 0 fs (format_nat n @ rest) = parseIPv4Fields n 3 fs rest"
      using three d(3) by (simp add: numeral_3_eq_3)
    then show ?thesis by (intro exI [of _ 3]) simp
  qed
qed

lemma unat_octet: "unat (x :: 8 word) < 256"
  using unsigned_less [of x] by simp

lemma parse_octet_dot:
  assumes "length fs < 3" "s \<noteq> []"
  shows "parseIPv4Fields 0 0 fs (format_nat (unat x) @ CHR ''.'' # s) = parseIPv4Fields 0 0 (fs @ [x]) s"
proof -
  have "unat x < 256" by (rule unat_octet)
  from parse_octet [OF this, of "CHR ''.'' # s" fs] obtain k where
    "k > 0" "parseIPv4Fields 0 0 fs (format_nat (unat x) @ CHR ''.'' # s) = parseIPv4Fields (unat x) k fs (CHR ''.'' # s)"
    by (auto simp: dot_no_digit)
  with assms show ?thesis by (simp add: dot_no_digit)
qed

lemma parse_last_octet:
  assumes "length fs = 3"
  shows "parseIPv4Fields 0 0 fs (format_nat (unat x)) = Some (fs @ [x])"
proof -
  have "unat x < 256" by (rule unat_octet)
  from parse_octet [OF this, of "[]" fs] assms show ?thesis by auto
qed

lemma parse_dotted:
  assumes "length a = 4"
  shows "parseIPv4Fields 0 0 [] (dotted a) = Some a"
proof -
  obtain x y z u where "a = [x, y, z, u]" using assms by (auto simp: numeral_eq_Suc length_Suc_conv)
  then show ?thesis by (simp add: dotted_def parse_octet_dot parse_last_octet)
qed

lemma dropWhile_digits:
  assumes "\<And>c. is_digit c \<Longrightarrow> P c" "\<not> P d"
  shows "dropWhile P (format_nat n @ d # s) = d # s" "takeWhile P (format_nat n @ d # s) = format_nat n"
  using assms format_nat_digits by (auto simp: dropWhile_append takeWhile_append)

lemma ParseAddr_dotted:
  assumes "length a = 4"
  shows "ParseAddr (dotted a) = Some a"
proof -
  have d: "c \<noteq> CHR ''.'' \<and> c \<noteq> CHR '':'' \<and> c \<noteq> CHR ''%''" if "is_digit c" for c
    using that dot_no_digit by auto
  have "\<exists>s. dropWhile (\<lambda>c. c \<noteq> CHR ''.'' \<and> c \<noteq> CHR '':'' \<and> c \<noteq> CHR ''%'') (dotted a) = CHR ''.'' # s"
    unfolding dotted_def using dropWhile_digits(1) [of "\<lambda>c. c \<noteq> CHR ''.'' \<and> c \<noteq> CHR '':'' \<and> c \<noteq> CHR ''%''" "CHR ''.''"] d
    by simp
  then show ?thesis using parse_dotted [OF assms] by (auto simp: ParseAddr_def)
qed

lemma ParseIP_dotted: "length a = 4 \<Longrightarrow> ParseIP (dotted a) = v4InV6Prefix @ a"
  by (simp add: ParseIP_def ParseAddr_dotted As16_def)

lemma ParseCIDR_dotted:
  assumes "length a = 4" "n \<le> 32"
  shows "ParseCIDR (dotted a @ CHR ''/'' # format_nat n) = Some \<lparr>net_IP = and_bytes a (mask_bytes n 4), net_Mask = mask_bytes n 4\<rparr>"
proof -
  have no_slash: "\<And>c. c \<in> set (dotted a) \<Longrightarrow> c \<noteq> CHR ''/''"
    unfolding dotted_def using format_nat_digits dot_no_digit(4) by auto
  then have "dropWhile (\<lambda>c. c \<noteq> CHR ''/'') (dotted a @ CHR ''/'' # format_nat n) = CHR ''/'' # format_nat n"
    "takeWhile (\<lambda>c. c \<noteq> CHR ''/'') (dotted a @ CHR ''/'' # format_nat n) = dotted a"
    by (auto simp: dropWhile_append takeWhile_append)
  moreover have "dtoi (format_nat n) = Some n" using assms(2) by (simp add: dtoi_def)
  moreover have "ip_Mask (v4InV6Prefix @ a) (mask_bytes n 4) = and_bytes a (mask_bytes n 4)"
    using assms(1) by (simp add: ip_Mask_def v4InV6Prefix_def)
  ultimately show ?thesis
    using assms by (simp add: ParseCIDR_def ParseAddr_dotted As16_def CIDRMask_def Let_def)
qed

text \<open>Membership of IPv4 addresses is equality of the leading bits; no other address is a member.\<close>

lemma Contains_v4:
  assumes "length a = 4"
  shows "Contains \<lparr>net_IP = and_bytes a (mask_bytes n 4), net_Mask = mask_bytes n 4\<rparr> x \<longleftrightarrow>
     (\<exists>b. To4 x = Some b \<and> take n (ip_bits a) = take n (ip_bits b))"
proof -
  have nn: "networkNumberAndMask \<lparr>net_IP = and_bytes a (mask_bytes n 4), net_Mask = mask_bytes n 4\<rparr> =
      Some (and_bytes a (mask_bytes n 4), mask_bytes n 4)"
    using assms by (simp add: networkNumberAndMask_def To4_def)
  show ?thesis
  proof (cases "To4 x")
    case None
    then have "length x \<noteq> 4" by (auto simp: To4_def)
    with None nn assms show ?thesis by (simp add: Contains_def)
  next
    case (Some b)
    then have "length b = 4" by (auto simp: To4_def split: if_splits)
    with Some nn assms masked_bytes [of a 4 b n] show ?thesis by (simp add: Contains_def and_bytes_idem)
  qed
qed


section \<open>The local address of a connection\<close>

text \<open>
  \<open>netip.ParseAddr(host)\<close>, then \<open>ip.WithZone("").Unmap().String()\<close>, as both clients compute the address they
  announce. The text of an IPv6 address is the argument \<open>fmt6\<close>.
\<close>

definition strip_zone :: "string \<Rightarrow> string" where
  "strip_zone s = (if CHR '':'' \<in> set (takeWhile (\<lambda>c. c \<noteq> CHR ''%'') s) \<and> tl (dropWhile (\<lambda>c. c \<noteq> CHR ''%'') s) \<noteq> []
     then takeWhile (\<lambda>c. c \<noteq> CHR ''%'') s else s)"

definition local_ip :: "(ip \<Rightarrow> string) \<Rightarrow> string \<Rightarrow> string option" where
  "local_ip fmt6 host =
     (case ParseAddr (strip_zone host) of
        None \<Rightarrow> None
      | Some a \<Rightarrow> (case To4 a of Some v \<Rightarrow> Some (dotted v) | None \<Rightarrow> Some (fmt6 a)))"

lemma dotted_chars: "c \<in> set (dotted a) \<Longrightarrow> is_digit c \<or> c = CHR ''.''"
  unfolding dotted_def using format_nat_digits by auto

lemma local_ip_dotted: "length a = 4 \<Longrightarrow> local_ip fmt6 (dotted a) = Some (dotted a)"
proof -
  assume a: "length a = 4"
  have "CHR '':'' \<notin> set (dotted a)" using dotted_chars [of "CHR '':''" a] by (auto simp: is_digit_def)
  then have "strip_zone (dotted a) = dotted a" using set_takeWhileD by (fastforce simp: strip_zone_def)
  with a show ?thesis by (simp add: local_ip_def ParseAddr_dotted To4_def)
qed

lemma To4_mapped: "length a = 4 \<Longrightarrow> To4 (v4InV6Prefix @ a) = Some a"
  by (simp add: To4_def v4InV6Prefix_def)

end
