(* ===== verification/Middleware.thy ===== *)
theory Middleware
  imports Handler Crypto Net_Ip
begin

text \<open>
  \<open>internal/middleware\<close>: request logging, the trusted subnet, decryption, gzip and signatures, and how
  \<open>cmd/server/main.go\<close> stacks them around the handlers. A response writer is a value of the datatype
  \<open>response_writer\<close>: the connection, or one of the wrappers of the package around another writer, whose
  methods are dispatched as Go dispatches interface calls. Writes to the connection succeed, and a
  handler's calls on its writer are one \<open>WriteHeader\<close> and one \<open>Write\<close> with all it wrote. \<^const>\<open>None\<close> as the
  result of serving is a panic, which ends the connection.
\<close>

section \<open>Response writers\<close>

record loggingResponseWriter =
  lw_statusCode :: nat
  lw_size :: nat
  lw_wroteHeader :: bool

text \<open>\<open>gw_writer\<close> is the \<open>gzip.Writer\<close> with what was written to it, \<^const>\<open>None\<close> when it is nil.\<close>

record gzipResponseWriter =
  gw_acceptsGzip :: bool
  gw_wroteHeader :: bool
  gw_compressing :: bool
  gw_writer :: "bytes option"

record hashResponseWriter =
  hw_body :: bytes
  hw_statusCode :: nat
  hw_wroteHeader :: bool

datatype response_writer =
    Connection http_response
  | Logging loggingResponseWriter response_writer
  | Gzipping gzipResponseWriter response_writer
  | Hashing hashResponseWriter response_writer

text \<open>\<open>w.Header()\<close> is promoted from the innermost writer; changes after the status was sent are not sent.\<close>

fun rw_Header :: "response_writer \<Rightarrow> header" where
  "rw_Header (Connection r) = rs_Header r"
| "rw_Header (Logging l w) = rw_Header w"
| "rw_Header (Gzipping g w) = rw_Header w"
| "rw_Header (Hashing h w) = rw_Header w"

fun change_header :: "(header \<Rightarrow> header) \<Rightarrow> response_writer \<Rightarrow> response_writer" where
  "change_header f (Connection r) = Connection (if rs_Status r = None then r\<lparr>rs_Header := f (rs_Header r)\<rparr> else r)"
| "change_header f (Logging l w) = Logging l (change_header f w)"
| "change_header f (Gzipping g w) = Gzipping g (change_header f w)"
| "change_header f (Hashing h w) = Hashing h (change_header f w)"

lemma size_change_header [simp, termination_simp]: "size (change_header f w) = size w"
  by (induction w) auto

definition canCompressContentType :: "string \<Rightarrow> bool" where
  "canCompressContentType contentType \<longleftrightarrow> HasPrefix contentType ''application/json'' \<or> HasPrefix contentType ''text/html''"

text \<open>The state a \<open>gzipResponseWriter\<close> takes, and the header changes it makes, in its first \<open>WriteHeader\<close>.\<close>

definition gzip_start :: "gzipResponseWriter \<Rightarrow> header \<Rightarrow> gzipResponseWriter \<times> (header \<Rightarrow> header)" where
  "gzip_start g h =
     (if gw_acceptsGzip g \<and> canCompressContentType (header_Get h ''Content-Type'')
      then (g\<lparr>gw_wroteHeader := True, gw_compressing := True, gw_writer := Some []\<rparr>,
            \<lambda>h. header_Del ''Content-Length'' (header_Add ''Vary'' ''Accept-Encoding'' (header_Set ''Content-Encoding'' ''gzip'' h)))
      else (g\<lparr>gw_wroteHeader := True\<rparr>, \<lambda>h. h))"

text \<open>
  What \<open>WriteHeader\<close> and \<open>Write\<close> of the other two writers do to their own fields; \<open>loggingResponseWriter\<close> passes the
  call on (below), \<open>hashResponseWriter\<close> keeps it back.
\<close>

definition logging_WriteHeader :: "nat \<Rightarrow> loggingResponseWriter \<Rightarrow> loggingResponseWriter" where
  "logging_WriteHeader statusCode l =
     (if lw_wroteHeader l then l else l\<lparr>lw_wroteHeader := True, lw_statusCode := statusCode\<rparr>)"

definition logging_Write :: "bytes \<Rightarrow> loggingResponseWriter \<Rightarrow> loggingResponseWriter" where
  "logging_Write body l =
     (let l' = (if lw_wroteHeader l then l else l\<lparr>lw_wroteHeader := True, lw_statusCode := StatusOK\<rparr>)
      in l'\<lparr>lw_size := lw_size l' + length body\<rparr>)"

definition hash_WriteHeader :: "nat \<Rightarrow> hashResponseWriter \<Rightarrow> hashResponseWriter" where
  "hash_WriteHeader statusCode h =
     (if hw_wroteHeader h then h else h\<lparr>hw_wroteHeader := True, hw_statusCode := statusCode\<rparr>)"

definition hash_Write :: "bytes \<Rightarrow> hashResponseWriter \<Rightarrow> hashResponseWriter" where
  "hash_Write body h =
     (let h' = (if hw_wroteHeader h then h else h\<lparr>hw_wroteHeader := True, hw_statusCode := StatusOK\<rparr>)
      in h'\<lparr>hw_body := hw_body h' @ body\<rparr>)"

declare logging_WriteHeader_def [simp] logging_Write_def [simp] hash_WriteHeader_def [simp] hash_Write_def [simp]

fun rw_WriteHeader :: "nat \<Rightarrow> response_writer \<Rightarrow> response_writer" where
  "rw_WriteHeader code (Connection r) = Connection (WriteHeader code r)"
| "rw_WriteHeader code (Logging l w) =
     Logging (logging_WriteHeader code l) (if lw_wroteHeader l then w else rw_WriteHeader code w)"
| "rw_WriteHeader code (Gzipping g w) =
     (if gw_wroteHeader g then Gzipping g w
      else let (g', f) = gzip_start g (rw_Header w) in Gzipping g' (rw_WriteHeader code (change_header f w)))"
| "rw_WriteHeader code (Hashing h w) =
     Hashing (hash_WriteHeader code h) w"

lemma size_rw_WriteHeader [simp, termination_simp]: "size (rw_WriteHeader code w) = size w"
  by (induction code w rule: rw_WriteHeader.induct) (auto split: prod.split)

fun rw_Write :: "bytes \<Rightarrow> response_writer \<Rightarrow> response_writer" where
  "rw_Write b (Connection r) = Connection (write_body b r)"
| "rw_Write b (Logging l w) =
     Logging (logging_Write b l) (rw_Write b w)"
| "rw_Write b (Gzipping g w) =
     (let (g', f) = (if gw_wroteHeader g then (g, \<lambda>h. h) else gzip_start g (rw_Header w));
          w' = (if gw_wroteHeader g then w else rw_WriteHeader StatusOK (change_header f w))
      in if gw_compressing g' then Gzipping (g'\<lparr>gw_writer := map_option (\<lambda>x. x @ b) (gw_writer g')\<rparr>) w'
         else Gzipping g' (rw_Write b w'))"
| "rw_Write b (Hashing h w) =
     Hashing (hash_Write b h) w"

definition newLoggingResponseWriter :: "response_writer \<Rightarrow> response_writer" where
  "newLoggingResponseWriter w = Logging \<lparr>lw_statusCode = StatusOK, lw_size = 0, lw_wroteHeader = False\<rparr> w"

definition newGzipResponseWriter :: "response_writer \<Rightarrow> bool \<Rightarrow> response_writer" where
  "newGzipResponseWriter w acceptsGzip =
     Gzipping \<lparr>gw_acceptsGzip = acceptsGzip, gw_wroteHeader = False, gw_compressing = False, gw_writer = None\<rparr> w"

definition newHashResponseWriter :: "response_writer \<Rightarrow> response_writer" where
  "newHashResponseWriter w = Hashing \<lparr>hw_body = [], hw_statusCode = StatusOK, hw_wroteHeader = False\<rparr> w"

text \<open>\<open>gzipResponseWriter.Close\<close> writes what is left of the compressed stream to the inner writer; the
  model writes all of it here. \<open>hashResponseWriter.flush\<close> signs and sends the collected response.\<close>

fun gzip_Close :: "wirelib \<Rightarrow> response_writer \<Rightarrow> response_writer" where
  "gzip_Close wl (Gzipping g w) =
     (case gw_writer g of None \<Rightarrow> Gzipping g w | Some plain \<Rightarrow> Gzipping g (rw_Write (gzip_bytes wl plain) w))"
| "gzip_Close wl w = w"

fun hash_flush :: "golib \<Rightarrow> string \<Rightarrow> response_writer \<Rightarrow> response_writer" where
  "hash_flush lib key (Hashing h w) =
     Hashing h (rw_Write (hw_body h)
       (rw_WriteHeader (hw_statusCode h)
         (change_header (header_Set signature_Header (Calculate lib (hw_body h) key)) w)))"
| "hash_flush lib key w = w"

text \<open>The writer a wrapper was made from, with what was written through the wrapper.\<close>

fun unwrap :: "response_writer \<Rightarrow> response_writer" where
  "unwrap (Connection r) = Connection r"
| "unwrap (Logging l w) = w"
| "unwrap (Gzipping g w) = w"
| "unwrap (Hashing h w) = w"

fun connection :: "response_writer \<Rightarrow> http_response" where
  "connection (Connection r) = r"
| "connection (Logging l w) = connection w"
| "connection (Gzipping g w) = connection w"
| "connection (Hashing h w) = connection w"

section \<open>Serving a request\<close>

type_synonym 'w serve = "http_request \<Rightarrow> response_writer \<Rightarrow> 'w \<Rightarrow> (response_writer \<times> 'w) option"

text \<open>\<open>http.Error\<close> on a writer.\<close>

definition rw_Error :: "string \<Rightarrow> nat \<Rightarrow> response_writer \<Rightarrow> response_writer" where
  "rw_Error msg code w =
     rw_Write (msg @ [char_of (10 :: nat)])
       (rw_WriteHeader code
         (change_header (\<lambda>h. header_Set ''X-Content-Type-Options'' ''nosniff''
             (header_Set ''Content-Type'' ''text/plain; charset=utf-8'' (header_Del ''Content-Length'' h))) w))"

text \<open>A response of a handler, which starts from an empty header, on its way through a writer.\<close>

definition send_response :: "http_response \<Rightarrow> response_writer \<Rightarrow> response_writer" where
  "send_response resp w =
     (let w1 = change_header (\<lambda>h k. if rs_Header resp k = [] then h k else rs_Header resp k) w;
          w2 = (case rs_Status resp of None \<Rightarrow> w1 | Some c \<Rightarrow> rw_WriteHeader c w1)
      in if rs_Body resp = [] then w2 else rw_Write (rs_Body resp) w2)"

definition serve_handler :: "'w http_handler \<Rightarrow> 'w serve" where
  "serve_handler h r w s = (let (resp, s') = h r s in Some (send_response resp w, s'))"

section \<open>The middleware\<close>

text \<open>\<open>RequestLogger\<close>: the log line itself is not modelled.\<close>

definition RequestLogger :: "'w serve \<Rightarrow> 'w serve" where
  "RequestLogger next r w s = map_option (\<lambda>(w', s'). (unwrap w', s')) (next r (newLoggingResponseWriter w) s)"

text \<open>\<open>TrustedSubnet\<close>; the error is that of a CIDR that cannot be parsed.\<close>

definition in_subnet :: "IPNet option \<Rightarrow> string list \<Rightarrow> bool" where
  "in_subnet subnet values =
     (case subnet of None \<Rightarrow> True | Some n \<Rightarrow> length values = 1 \<and> Contains n (ParseIP (hd values)))"

definition subnet_of :: "string \<Rightarrow> string \<Rightarrow> goerror + IPNet option" where
  "subnet_of what cidr =
     (if cidr = [] then Inr None
      else case ParseCIDR cidr of
        None \<Rightarrow> Inl (WrapError what [ErrorString ''invalid CIDR address''])
      | Some n \<Rightarrow> Inr (Some n))"

definition Http_TrustedSubnet :: "string \<Rightarrow> goerror + ('w serve \<Rightarrow> 'w serve)" where
  "Http_TrustedSubnet cidr =
     (case subnet_of ''parse trusted subnet'' cidr of
        Inl e \<Rightarrow> Inl e
      | Inr subnet \<Rightarrow> Inr (\<lambda>next r w s.
          if in_subnet subnet (header_Values (hr_Header r) ''X-Real-IP'') then next r w s
          else Some (rw_Error ''Forbidden'' StatusForbidden w, s)))"

text \<open>\<open>Decrypt\<close>; \<open>http.MaxBytesReader\<close> fails when the body is longer than 16 MiB. The outer \<^const>\<open>None\<close> would be
  a panic of \<^const>\<open>Decrypt\<close>.\<close>

definition max_body :: nat where
  "max_body = 16777216"

definition invalid_encrypted :: "response_writer \<Rightarrow> response_writer" where
  "invalid_encrypted = rw_Error ''invalid encrypted request'' StatusBadRequest"

definition Http_Decrypt :: "wirelib \<Rightarrow> PrivateKey option \<Rightarrow> 'w serve \<Rightarrow> 'w serve" where
  "Http_Decrypt wl key next r w s =
     (let algorithm = header_Get (hr_Header r) encryption_Header in
      if algorithm = [] then next r w s
      else if algorithm \<noteq> Algorithm \<or> key = None then Some (invalid_encrypted w, s)
      else if hr_BodyErr r \<or> length (hr_Body r) > max_body then Some (invalid_encrypted w, s)
      else case Decrypt wl key (hr_Body r) of
        None \<Rightarrow> None
      | Some (Inl e) \<Rightarrow> Some (invalid_encrypted w, s)
      | Some (Inr plain) \<Rightarrow>
          next (r\<lparr>hr_Body := plain, hr_BodyErr := False,
                  hr_Header := header_Del encryption_Header (header_Del ''Content-Length'' (hr_Header r))\<rparr>) w s)"

text \<open>\<open>headerContainsToken\<close>: \<open>strings.Split\<close> at commas, \<open>strings.ToLower\<close> and \<open>strings.TrimSpace\<close> on ASCII.\<close>

fun any_token :: "string \<Rightarrow> string list \<Rightarrow> bool" where
  "any_token token [] = False"
| "any_token token (part # parts) = (if TrimSpace part = fold_name token then True else any_token token parts)"

definition headerContainsToken :: "string \<Rightarrow> string \<Rightarrow> bool" where
  "headerContainsToken headerValue token = any_token token (split_on CHR '','' (fold_name headerValue))"

definition Http_Gzip :: "wirelib \<Rightarrow> 'w serve \<Rightarrow> 'w serve" where
  "Http_Gzip wl next r w s =
     (let wrapped = newGzipResponseWriter w (headerContainsToken (header_Get (hr_Header r) ''Accept-Encoding'') ''gzip'');
          go = (\<lambda>r. map_option (\<lambda>(w', s'). (unwrap (gzip_Close wl w'), s')) (next r wrapped s))
      in if headerContainsToken (header_Get (hr_Header r) ''Content-Encoding'') ''gzip''
         then (case gunzip_stream wl (hr_Body r) (hr_BodyErr r) of
                 None \<Rightarrow> Some (rw_WriteHeader StatusBadRequest w, s)
               | Some (plain, err) \<Rightarrow> go (r\<lparr>hr_Body := plain, hr_BodyErr := err\<rparr>))
         else go r)"

definition requestRequiresSignature :: "string \<Rightarrow> bool" where
  "requestRequiresSignature m \<longleftrightarrow> m \<noteq> ''GET'' \<and> m \<noteq> ''HEAD'' \<and> m \<noteq> ''OPTIONS''"

text \<open>The body is read completely and put back, so it is unchanged for the next handler.\<close>

definition verifyRequestSignature :: "golib \<Rightarrow> http_request \<Rightarrow> string \<Rightarrow> bool" where
  "verifyRequestSignature lib r key \<longleftrightarrow>
     \<not> hr_BodyErr r \<and> Verify lib (hr_Body r) key (header_Get (hr_Header r) signature_Header)"

definition Http_HashSHA256 :: "golib \<Rightarrow> string \<Rightarrow> 'w serve \<Rightarrow> 'w serve" where
  "Http_HashSHA256 lib key next r w s =
     (if key = [] then next r w s
      else let rw = newHashResponseWriter w in
        if requestRequiresSignature (hr_Method r) \<and> header_Get (hr_Header r) signature_Header \<noteq> []
           \<and> \<not> verifyRequestSignature lib r key
        then Some (unwrap (hash_flush lib key (rw_WriteHeader StatusBadRequest rw)), s)
        else map_option (\<lambda>(w', s'). (unwrap (hash_flush lib key w'), s')) (next r rw s))"

end
