(* ===== verification/Server_Stack.thy ===== *)
theory Server_Stack
  imports Middleware
begin

text \<open>
  The middleware as \<open>cmd/server/main.go\<close> stacks it: what each layer does to a request (\<open>admit\<close>), that the
  four response writers together keep status and body (\<open>answers\<close>, \<open>guards\<close>), and the description of the whole
  stack that follows.
\<close>

section \<open>The server's stack\<close>

text \<open>
  The router of \<open>cmd/server/main.go\<close>: the subnet and the decryption are mounted only when configured.
\<close>

definition server_stack :: "golib \<Rightarrow> wirelib \<Rightarrow> string \<Rightarrow> PrivateKey option \<Rightarrow> string \<Rightarrow> 'w serve \<Rightarrow> goerror + 'w serve" where
  "server_stack lib wl cfgKey privateKey trusted handlers =
     (let inner = Http_Gzip wl (Http_HashSHA256 lib cfgKey handlers);
          decrypted = (if privateKey \<noteq> None then Http_Decrypt wl privateKey inner else inner)
      in if trusted \<noteq> []
         then (case Http_TrustedSubnet trusted of
                 Inl e \<Rightarrow> Inl e
               | Inr mw \<Rightarrow> Inr (RequestLogger (mw decrypted)))
         else Inr (RequestLogger decrypted))"

text \<open>What the client of a connection receives.\<close>

definition respond :: "'w serve \<Rightarrow> http_request \<Rightarrow> 'w \<Rightarrow> (http_response \<times> 'w) option" where
  "respond serve r s = map_option (\<lambda>(w, s'). (connection w, s')) (serve r (Connection no_response) s)"

section \<open>Writers keep the status\<close>

text \<open>The status that was decided through a writer; inside a \<open>hashResponseWriter\<close> it is still held back.\<close>

fun rw_status :: "response_writer \<Rightarrow> nat option" where
  "rw_status (Connection r) = rs_Status r"
| "rw_status (Logging l w) = rw_status w"
| "rw_status (Gzipping g w) = rw_status w"
| "rw_status (Hashing h w) = (if hw_wroteHeader h then Some (hw_statusCode h) else None)"

fun consistent :: "response_writer \<Rightarrow> bool" where
  "consistent (Connection r) = True"
| "consistent (Logging l w) = (consistent w \<and> (lw_wroteHeader l \<longleftrightarrow> rw_status w \<noteq> None))"
| "consistent (Gzipping g w) = (consistent w \<and> (gw_wroteHeader g \<longleftrightarrow> rw_status w \<noteq> None))"
| "consistent (Hashing h w) = (consistent w \<and> rw_status w = None \<and> (\<not> hw_wroteHeader h \<longrightarrow> hw_statusCode h = StatusOK))"

fun same_stack :: "response_writer \<Rightarrow> response_writer \<Rightarrow> bool" where
  "same_stack (Connection r) (Connection r') = True"
| "same_stack (Logging l w) (Logging l' w') = same_stack w w'"
| "same_stack (Gzipping g w) (Gzipping g' w') = same_stack w w'"
| "same_stack (Hashing h w) (Hashing h' w') = same_stack w w'"
| "same_stack _ _ = False"

lemma same_stack_refl [simp, intro]: "same_stack w w"
  by (induction w) auto

lemma same_stack_trans: "same_stack a b \<Longrightarrow> same_stack b c \<Longrightarrow> same_stack a c"
proof (induction a arbitrary: b c)
  case (Connection r)
  then show ?case by (cases b; cases c) auto
next
  case (Logging l w)
  then show ?case by (cases b; cases c) auto
next
  case (Gzipping g w)
  then show ?case by (cases b; cases c) auto
next
  case (Hashing h w)
  then show ?case by (cases b; cases c) auto
qed

lemma change_header_keeps [simp]:
  "rw_status (change_header f w) = rw_status w"
  "consistent (change_header f w) = consistent w"
  "same_stack w (change_header f w)"
  by (induction w) auto

lemma same_stack_change_header [simp]: "same_stack (change_header f w) x = same_stack w x"
  by (induction w x rule: same_stack.induct) auto

lemma gzip_start_wrote: "gzip_start g h = (g', f) \<Longrightarrow> gw_wroteHeader g'"
  by (auto simp: gzip_start_def split: if_splits)

lemma rw_WriteHeader_keeps:
  "consistent w \<Longrightarrow>
     rw_status (rw_WriteHeader c w) = (case rw_status w of None \<Rightarrow> Some c | Some d \<Rightarrow> Some d)
   \<and> consistent (rw_WriteHeader c w) \<and> same_stack w (rw_WriteHeader c w)"
proof (induction c w rule: rw_WriteHeader.induct)
  case (3 c g w)
  show ?case
  proof (cases "gw_wroteHeader g")
    case False
    obtain g' f where s: "gzip_start g (rw_Header w) = (g', f)" by fastforce
    have "gw_wroteHeader g'" by (rule gzip_start_wrote [OF s])
    with 3(1) [OF False s [symmetric] refl] 3(2) False s show ?thesis
      by (auto intro: same_stack_trans [OF change_header_keeps(3)])
  qed (use 3(2) in auto)
qed (auto split: option.split)

lemma rw_Write_keeps:
  "consistent w \<Longrightarrow>
     rw_status (rw_Write b w) = (case rw_status w of None \<Rightarrow> Some 200 | Some d \<Rightarrow> Some d)
   \<and> consistent (rw_Write b w) \<and> same_stack w (rw_Write b w)"
proof (induction b w rule: rw_Write.induct)
  case (3 b g w)
  obtain g' f where s: "(if gw_wroteHeader g then (g, \<lambda>h. h) else gzip_start g (rw_Header w)) = (g', f)" by fastforce
  let ?w = "if gw_wroteHeader g then w else rw_WriteHeader 200 (change_header f w)"
  have g': "gw_wroteHeader g'" using gzip_start_wrote s by (auto split: if_splits)
  have cw: "consistent w" using 3(2) by simp
  have st: "rw_status w = None" if "\<not> gw_wroteHeader g" using that 3(2) by auto
  have w: "consistent ?w" "same_stack w ?w" "rw_status ?w \<noteq> None"
    "rw_status ?w = (case rw_status w of None \<Rightarrow> Some 200 | Some d \<Rightarrow> Some d)"
    using rw_WriteHeader_keeps [of "change_header f w" 200] cw 3(2) st
    by (auto intro: same_stack_trans [OF change_header_keeps(3)] split: option.split)
  show ?case
  proof (cases "gw_compressing g'")
    case True
    then show ?thesis using w g' by (simp add: s)
  next
    case False
    from 3(1) [OF s [symmetric] refl refl False w(1)] w g' False show ?thesis
      by (auto simp: s intro: same_stack_trans split: option.splits)
  qed
qed (auto split: option.split simp: Let_def)


section \<open>What a layer answers\<close>

text \<open>
  \<open>answers serve r s c s'\<close>: whatever fresh writer it is given, \<open>serve\<close> ends without a panic in state \<open>s'\<close>, and
  the status its client gets is \<open>c\<close>.
\<close>

definition answers :: "'w serve \<Rightarrow> http_request \<Rightarrow> 'w \<Rightarrow> nat \<Rightarrow> 'w \<Rightarrow> bool" where
  "answers serve r s c s' \<longleftrightarrow>
     (\<forall>w. consistent w \<and> rw_status w = None \<longrightarrow>
        (\<exists>w'. serve r w s = Some (w', s') \<and> consistent w' \<and> same_stack w w'
            \<and> (case rw_status w' of None \<Rightarrow> 200 | Some d \<Rightarrow> d) = c))"

lemma answersI:
  assumes "\<And>w. consistent w \<Longrightarrow> rw_status w = None \<Longrightarrow>
     \<exists>w'. serve r w s = Some (w', s') \<and> consistent w' \<and> same_stack w w' \<and> (case rw_status w' of None \<Rightarrow> 200 | Some d \<Rightarrow> d) = c"
  shows "answers serve r s c s'"
  using assms by (simp add: answers_def)

lemma answersD:
  assumes "answers serve r s c s'" "consistent w" "rw_status w = None"
  obtains w' where "serve r w s = Some (w', s')" "consistent w'" "same_stack w w'"
    "(case rw_status w' of None \<Rightarrow> 200 | Some d \<Rightarrow> d) = c"
  using assms unfolding answers_def by blast

lemma answers_respond:
  assumes "answers serve r s c s'"
  shows "\<exists>resp. respond serve r s = Some (resp, s') \<and> final_status resp = c"
proof -
  from answersD [OF assms, of "Connection no_response"] obtain w' where
    w: "serve r (Connection no_response) s = Some (w', s')" "same_stack (Connection no_response) w'"
      "(case rw_status w' of None \<Rightarrow> 200 | Some d \<Rightarrow> d) = c" by auto
  from w(2) obtain resp where "w' = Connection resp" by (cases w') auto
  with w show ?thesis by (simp add: respond_def final_status_def)
qed

lemma same_stack_cases:
  "same_stack (Logging l w) x \<Longrightarrow> \<exists>l' w'. x = Logging l' w' \<and> same_stack w w'"
  "same_stack (Gzipping g w) x \<Longrightarrow> \<exists>g' w'. x = Gzipping g' w' \<and> same_stack w w'"
  "same_stack (Hashing h w) x \<Longrightarrow> \<exists>h' w'. x = Hashing h' w' \<and> same_stack w w'"
  by (cases x; simp)+

lemma rw_Error_keeps:
  assumes "consistent w" "rw_status w = None"
  shows "rw_status (rw_Error m c w) = Some c \<and> consistent (rw_Error m c w) \<and> same_stack w (rw_Error m c w)"
proof -
  let ?w1 = "change_header (\<lambda>h. header_Set ''X-Content-Type-Options'' ''nosniff''
             (header_Set ''Content-Type'' ''text/plain; charset=utf-8'' (header_Del ''Content-Length'' h))) w"
  have "consistent ?w1" using assms by simp
  from rw_WriteHeader_keeps [OF this, of c] assms
  have "rw_status (rw_WriteHeader c ?w1) = Some c \<and> consistent (rw_WriteHeader c ?w1) \<and> same_stack w (rw_WriteHeader c ?w1)"
    by (auto intro: same_stack_trans [OF change_header_keeps(3)])
  with rw_Write_keeps [of "rw_WriteHeader c ?w1" "m @ [char_of (10 :: nat)]"] show ?thesis
    unfolding rw_Error_def by (auto intro: same_stack_trans)
qed

lemma answers_Error: "answers (\<lambda>r w s. Some (rw_Error m c w, s)) r s c s"
  by (rule answersI) (use rw_Error_keeps in auto)

lemma answers_handler:
  assumes "h r s = (resp, s')"
  shows "answers (serve_handler h) r s (if rs_Status resp = None then 200 else final_status resp) s'"
proof (rule answersI)
  fix w assume w: "consistent w" "rw_status w = None"
  let ?w1 = "change_header (\<lambda>h k. if rs_Header resp k = [] then h k else rs_Header resp k) w"
  let ?w2 = "case rs_Status resp of None \<Rightarrow> ?w1 | Some c \<Rightarrow> rw_WriteHeader c ?w1"
  have w2: "consistent ?w2 \<and> same_stack w ?w2 \<and> rw_status ?w2 = rs_Status resp"
    using w rw_WriteHeader_keeps [of ?w1] by (auto split: option.split intro: same_stack_trans [OF change_header_keeps(3)])
  have "send_response resp w = (if rs_Body resp = [] then ?w2 else rw_Write (rs_Body resp) ?w2)"
    by (simp add: send_response_def Let_def)
  with w2 rw_Write_keeps [of ?w2 "rs_Body resp"] assms
  show "\<exists>w'. serve_handler h r w s = Some (w', s') \<and> consistent w' \<and> same_stack w w'
      \<and> (case rw_status w' of None \<Rightarrow> 200 | Some d \<Rightarrow> d) = (if rs_Status resp = None then 200 else final_status resp)"
    by (auto simp: serve_handler_def final_status_def intro: same_stack_trans split: option.splits)
qed

lemma answers_logged:
  assumes "answers next r s c s'"
  shows "answers (RequestLogger next) r s c s'"
proof (rule answersI)
  fix w assume w: "consistent w" "rw_status w = None"
  then have "consistent (newLoggingResponseWriter w)" "rw_status (newLoggingResponseWriter w) = None"
    by (simp_all add: newLoggingResponseWriter_def)
  from answersD [OF assms this] obtain w' where w': "next r (newLoggingResponseWriter w) s = Some (w', s')" "consistent w'"
    "same_stack (newLoggingResponseWriter w) w'" "(case rw_status w' of None \<Rightarrow> 200 | Some d \<Rightarrow> d) = c" by blast
  from same_stack_cases(1) [OF w'(3) [unfolded newLoggingResponseWriter_def]] obtain l x where "w' = Logging l x" "same_stack w x"
    by blast
  with w' show "\<exists>w'. RequestLogger next r w s = Some (w', s') \<and> consistent w' \<and> same_stack w w' \<and> (case rw_status w' of None \<Rightarrow> 200 | Some d \<Rightarrow> d) = c"
    by (simp add: RequestLogger_def)
qed

lemma answers_gzip_writer:
  assumes "answers next r' s c s'" "consistent w" "rw_status w = None"
  shows "\<exists>w'. map_option (\<lambda>(w', s'). (unwrap (gzip_Close wl w'), s')) (next r' (newGzipResponseWriter w a) s) = Some (w', s')
     \<and> consistent w' \<and> same_stack w w' \<and> (case rw_status w' of None \<Rightarrow> 200 | Some d \<Rightarrow> d) = c"
proof -
  have "consistent (newGzipResponseWriter w a)" "rw_status (newGzipResponseWriter w a) = None"
    using assms by (simp_all add: newGzipResponseWriter_def)
  from answersD [OF assms(1) this] obtain w' where w': "next r' (newGzipResponseWriter w a) s = Some (w', s')" "consistent w'"
    "same_stack (newGzipResponseWriter w a) w'" "(case rw_status w' of None \<Rightarrow> 200 | Some d \<Rightarrow> d) = c" by blast
  from same_stack_cases(2) [OF w'(3) [unfolded newGzipResponseWriter_def]] obtain g x where x: "w' = Gzipping g x" "same_stack w x"
    by blast
  show ?thesis
  proof (cases "gw_writer g")
    case None
    with w' x show ?thesis by simp
  next
    case (Some plain)
    with w' x rw_Write_keeps [of x "gzip_bytes wl plain"] show ?thesis
      by (auto intro: same_stack_trans split: option.splits)
  qed
qed

lemma answers_hash_flush:
  assumes "consistent x" "x = Hashing h u"
  shows "consistent (unwrap (hash_flush lib key x)) \<and> same_stack u (unwrap (hash_flush lib key x))
     \<and> rw_status (unwrap (hash_flush lib key x)) = Some (case rw_status x of None \<Rightarrow> 200 | Some d \<Rightarrow> d)"
proof -
  let ?u1 = "change_header (header_Set signature_Header (Calculate lib (hw_body h) key)) u"
  let ?u2 = "rw_WriteHeader (hw_statusCode h) ?u1"
  let ?u3 = "rw_Write (hw_body h) ?u2"
  have "consistent ?u1" "rw_status ?u1 = None" "same_stack u ?u1" using assms by simp_all
  with rw_WriteHeader_keeps [OF this(1), of "hw_statusCode h"]
  have u2: "consistent ?u2" "rw_status ?u2 = Some (hw_statusCode h)" "same_stack u ?u2"
    by (auto intro: same_stack_trans [OF change_header_keeps(3)])
  with rw_Write_keeps [OF this(1), of "hw_body h"]
  have u3: "consistent ?u3" "rw_status ?u3 = Some (hw_statusCode h)" "same_stack u ?u3"
    using same_stack_trans [OF u2(3)] by auto
  have "hw_statusCode h = (case rw_status x of None \<Rightarrow> 200 | Some d \<Rightarrow> d)" using assms by auto
  with u3 assms(2) show ?thesis by simp
qed

lemma answers_hash:
  assumes "answers next r s c s'" and "key \<noteq> []"
    and pass: "requestRequiresSignature (hr_Method r) \<and> header_Get (hr_Header r) signature_Header \<noteq> [] \<longrightarrow> verifyRequestSignature lib r key"
  shows "answers (Http_HashSHA256 lib key next) r s c s'"
proof (rule answersI)
  fix w assume w: "consistent w" "rw_status w = None"
  then have "consistent (newHashResponseWriter w)" "rw_status (newHashResponseWriter w) = None"
    by (simp_all add: newHashResponseWriter_def)
  from answersD [OF assms(1) this] obtain w' where w': "next r (newHashResponseWriter w) s = Some (w', s')" "consistent w'"
    "same_stack (newHashResponseWriter w) w'" "(case rw_status w' of None \<Rightarrow> 200 | Some d \<Rightarrow> d) = c" by blast
  from same_stack_cases(3) [OF w'(3) [unfolded newHashResponseWriter_def]] obtain h x where x: "w' = Hashing h x" "same_stack w x"
    by blast
  note f = answers_hash_flush [OF w'(2) x(1), of lib key]
  have "Http_HashSHA256 lib key next r w s = Some (unwrap (hash_flush lib key w'), s')"
    using assms(2) pass w'(1) by (simp add: Http_HashSHA256_def Let_def) blast
  with f w'(4) x(2) show "\<exists>w'. Http_HashSHA256 lib key next r w s = Some (w', s') \<and> consistent w' \<and> same_stack w w'
      \<and> (case rw_status w' of None \<Rightarrow> 200 | Some d \<Rightarrow> d) = c"
    by (auto intro: same_stack_trans)
qed


section \<open>Which requests reach the handlers\<close>

text \<open>What each layer does to a request: refuse it with a status, or hand on a request.\<close>

definition admit_subnet :: "IPNet option \<Rightarrow> http_request \<Rightarrow> nat + http_request" where
  "admit_subnet subnet r =
     (if in_subnet subnet (header_Values (hr_Header r) ''X-Real-IP'') then Inr r else Inl StatusForbidden)"

definition admit_decrypt :: "wirelib \<Rightarrow> PrivateKey option \<Rightarrow> http_request \<Rightarrow> nat + http_request" where
  "admit_decrypt wl key r =
     (if key = None \<or> header_Get (hr_Header r) encryption_Header = [] then Inr r
      else if header_Get (hr_Header r) encryption_Header \<noteq> Algorithm \<or> hr_BodyErr r \<or> length (hr_Body r) > max_body
      then Inl StatusBadRequest
      else case Decrypt wl key (hr_Body r) of
        Some (Inr plain) \<Rightarrow>
          Inr (r\<lparr>hr_Body := plain, hr_BodyErr := False,
                 hr_Header := header_Del encryption_Header (header_Del ''Content-Length'' (hr_Header r))\<rparr>)
      | _ \<Rightarrow> Inl StatusBadRequest)"

definition admit_gzip :: "wirelib \<Rightarrow> http_request \<Rightarrow> nat + http_request" where
  "admit_gzip wl r =
     (if headerContainsToken (header_Get (hr_Header r) ''Content-Encoding'') ''gzip''
      then (case gunzip_stream wl (hr_Body r) (hr_BodyErr r) of
              None \<Rightarrow> Inl StatusBadRequest
            | Some (plain, err) \<Rightarrow> Inr (r\<lparr>hr_Body := plain, hr_BodyErr := err\<rparr>))
      else Inr r)"

definition admit_hash :: "golib \<Rightarrow> string \<Rightarrow> http_request \<Rightarrow> nat + http_request" where
  "admit_hash lib key r =
     (if key \<noteq> [] \<and> requestRequiresSignature (hr_Method r) \<and> header_Get (hr_Header r) signature_Header \<noteq> []
         \<and> \<not> verifyRequestSignature lib r key
      then Inl StatusBadRequest else Inr r)"

definition and_then :: "('r \<Rightarrow> nat + 'r) \<Rightarrow> ('r \<Rightarrow> nat + 'r) \<Rightarrow> 'r \<Rightarrow> nat + 'r" where
  "and_then f g r = (case f r of Inl c \<Rightarrow> Inl c | Inr r' \<Rightarrow> g r')"

definition admit :: "golib \<Rightarrow> wirelib \<Rightarrow> string \<Rightarrow> PrivateKey option \<Rightarrow> IPNet option \<Rightarrow> http_request \<Rightarrow> nat + http_request" where
  "admit lib wl key privateKey subnet =
     and_then (admit_subnet subnet) (and_then (admit_decrypt wl privateKey) (and_then (admit_gzip wl) (admit_hash lib key)))"

text \<open>A layer around \<open>next\<close> that does what \<open>f\<close> says.\<close>

definition guards :: "(http_request \<Rightarrow> nat + http_request) \<Rightarrow> ('w serve \<Rightarrow> 'w serve) \<Rightarrow> bool" where
  "guards f layer \<longleftrightarrow>
     (\<forall>next r s. case f r of
        Inl c \<Rightarrow> answers (layer next) r s c s
      | Inr r' \<Rightarrow> (\<forall>c s'. answers next r' s c s' \<longrightarrow> answers (layer next) r s c s'))"

lemma guardsI:
  assumes "\<And>next r s c. f r = Inl c \<Longrightarrow> answers (layer next) r s c s"
    and "\<And>next r r' s c s'. f r = Inr r' \<Longrightarrow> answers next r' s c s' \<Longrightarrow> answers (layer next) r s c s'"
  shows "guards f layer"
  unfolding guards_def using assms by (auto split: sum.split)

lemma guardsD:
  assumes "guards f layer"
  shows "f r = Inl c \<Longrightarrow> answers (layer next) r s c s"
    and "f r = Inr r' \<Longrightarrow> answers next r' s c s' \<Longrightarrow> answers (layer next) r s c s'"
  using assms [unfolded guards_def, rule_format, of "next" r s] by (auto split: sum.splits)

lemma guards_compose:
  fixes outer inner :: "'w serve \<Rightarrow> 'w serve"
  assumes f: "guards f outer" and g: "guards g inner"
  shows "guards (and_then f g) (\<lambda>next. outer (inner next))"
proof (rule guardsI)
  fix "next" r s c assume a: "and_then f g r = Inl c"
  show "answers (outer (inner next)) r s c s"
  proof (cases "f r")
    case (Inl d)
    with a guardsD(1) [OF f] show ?thesis by (simp add: and_then_def)
  next
    case (Inr r1)
    with a have "g r1 = Inl c" by (simp add: and_then_def)
    from guardsD(2) [OF f Inr guardsD(1) [OF g this]] show ?thesis .
  qed
next
  fix "next" :: "'w serve" and r r' s c s' assume a: "and_then f g r = Inr r'" "answers next r' s c s'"
  then obtain r1 where r1: "f r = Inr r1" "g r1 = Inr r'" by (auto simp: and_then_def split: sum.splits)
  from guardsD(2) [OF f r1(1) guardsD(2) [OF g r1(2) a(2)]] show "answers (outer (inner next)) r s c s'" .
qed

lemma answers_cong: "(\<And>w. serve r w s = serve' r' w s) \<Longrightarrow> answers serve r s c s' = answers serve' r' s c s'"
  by (simp add: answers_def)

text \<open>A request that is handed on, layer by layer.\<close>

lemma hash_pass:
  assumes "admit_hash lib key r = Inr r'"
  shows "r' = r" "Http_HashSHA256 lib key next r w s =
    (if key = [] then next r w s
     else map_option (\<lambda>(w', s'). (unwrap (hash_flush lib key w'), s')) (next r (newHashResponseWriter w) s))"
  using assms by (auto simp: Http_HashSHA256_def admit_hash_def Let_def split: if_splits)

lemma gzip_pass:
  assumes "admit_gzip wl r = Inr r'"
  shows "Http_Gzip wl next r w s =
    map_option (\<lambda>(w', s'). (unwrap (gzip_Close wl w'), s'))
      (next r' (newGzipResponseWriter w (headerContainsToken (header_Get (hr_Header r) ''Accept-Encoding'') ''gzip'')) s)"
  using assms by (auto simp: Http_Gzip_def admit_gzip_def Let_def split: if_splits option.splits)

lemma decrypt_pass:
  assumes "admit_decrypt wl key r = Inr r'"
  shows "(if key \<noteq> None then Http_Decrypt wl key next else next) r w s = next r' w s"
  using assms by (auto simp: Http_Decrypt_def admit_decrypt_def Let_def split: if_splits option.splits sum.splits)

lemma subnet_pass:
  assumes "Http_TrustedSubnet cidr = Inr mw" "subnet_of what cidr = Inr subnet" "admit_subnet subnet r = Inr r'"
  shows "r' = r" "mw next r w s = next r w s"
  using assms by (auto simp: Http_TrustedSubnet_def subnet_of_def admit_subnet_def split: if_splits option.splits)

lemma guards_hash: "guards (admit_hash lib key) (Http_HashSHA256 lib key)"
proof (rule guardsI)
  fix "next" :: "'w serve" and r and s :: 'w and c
  assume a: "admit_hash lib key r = Inl c"
  then have c: "c = 400" and h: "key \<noteq> []" "requestRequiresSignature (hr_Method r)"
      "header_Get (hr_Header r) signature_Header \<noteq> []" "\<not> verifyRequestSignature lib r key"
    by (auto simp: admit_hash_def split: if_splits)
  show "answers (Http_HashSHA256 lib key next) r s c s"
  proof (rule answersI)
    fix w assume w: "consistent w" "rw_status w = None"
    let ?x = "rw_WriteHeader StatusBadRequest (newHashResponseWriter w)"
    have x: "consistent ?x" "rw_status ?x = Some 400" "\<exists>h. ?x = Hashing h w"
      using w by (simp_all add: newHashResponseWriter_def)
    then obtain hw where "?x = Hashing hw w" by blast
    from answers_hash_flush [OF x(1) this, of lib key] x(2) h c
    show "\<exists>w'. Http_HashSHA256 lib key next r w s = Some (w', s) \<and> consistent w' \<and> same_stack w w'
        \<and> (case rw_status w' of None \<Rightarrow> 200 | Some d \<Rightarrow> d) = c"
      by (auto simp: Http_HashSHA256_def)
  qed
next
  fix "next" :: "'w serve" and r r' and s s' :: 'w and c
  assume a: "admit_hash lib key r = Inr r'" "answers next r' s c s'"
  then have r: "r' = r" by (auto simp: admit_hash_def split: if_splits)
  show "answers (Http_HashSHA256 lib key next) r s c s'"
  proof (cases "key = []")
    case True
    then have "answers (Http_HashSHA256 lib key next) r s c s' = answers next r s c s'"
      by (intro answers_cong) (simp add: Http_HashSHA256_def)
    with a r show ?thesis by simp
  next
    case False
    have "requestRequiresSignature (hr_Method r) \<and> header_Get (hr_Header r) signature_Header \<noteq> [] \<longrightarrow> verifyRequestSignature lib r key"
      using a(1) False by (auto simp: admit_hash_def split: if_splits)
    from answers_hash [OF a(2) [unfolded r] False this] show ?thesis .
  qed
qed

lemma guards_gzip: "guards (admit_gzip wl) (Http_Gzip wl)"
proof (rule guardsI)
  fix "next" :: "'w serve" and r and s :: 'w and c
  assume a: "admit_gzip wl r = Inl c"
  then have c: "c = 400" and h: "headerContainsToken (header_Get (hr_Header r) ''Content-Encoding'') ''gzip''"
      "gunzip_stream wl (hr_Body r) (hr_BodyErr r) = None"
    by (auto simp: admit_gzip_def split: if_splits option.splits)
  show "answers (Http_Gzip wl next) r s c s"
    by (rule answersI) (use c h rw_WriteHeader_keeps in \<open>auto simp: Http_Gzip_def\<close>)
next
  fix "next" :: "'w serve" and r r' and s s' :: 'w and c
  assume a: "admit_gzip wl r = Inr r'" "answers next r' s c s'"
  show "answers (Http_Gzip wl next) r s c s'"
  proof (rule answersI)
    fix w assume w: "consistent w" "rw_status w = None"
    let ?acc = "headerContainsToken (header_Get (hr_Header r) ''Accept-Encoding'') ''gzip''"
    note gzip_pass [OF a(1), of "next" w s]
    with answers_gzip_writer [OF a(2) w, of wl ?acc]
    show "\<exists>w'. Http_Gzip wl next r w s = Some (w', s') \<and> consistent w' \<and> same_stack w w'
        \<and> (case rw_status w' of None \<Rightarrow> 200 | Some d \<Rightarrow> d) = c" by simp
  qed
qed

lemma guards_decrypt:
  assumes "key \<noteq> None"
  shows "guards (admit_decrypt wl key) (Http_Decrypt wl key)"
proof (rule guardsI)
  fix "next" :: "'w serve" and r and s :: 'w and c
  assume a: "admit_decrypt wl key r = Inl c"
  then have "Http_Decrypt wl key next r w s = Some (invalid_encrypted w, s)" for w
    using assms Decrypt_no_panic [of wl key "hr_Body r"]
    by (auto simp: Http_Decrypt_def admit_decrypt_def Let_def split: if_splits option.splits sum.splits)
  moreover have "c = 400" using a by (auto simp: admit_decrypt_def split: if_splits option.splits sum.splits)
  ultimately show "answers (Http_Decrypt wl key next) r s c s"
    using answers_Error [of "''invalid encrypted request''" 400 r s] by (simp add: answers_def invalid_encrypted_def)
next
  fix "next" :: "'w serve" and r r' and s s' :: 'w and c
  assume a: "admit_decrypt wl key r = Inr r'" "answers next r' s c s'"
  then have "Http_Decrypt wl key next r w s = next r' w s" for w
    using assms by (auto simp: Http_Decrypt_def admit_decrypt_def Let_def split: if_splits option.splits sum.splits)
  then have "answers (Http_Decrypt wl key next) r s c s' = answers next r' s c s'" by (rule answers_cong)
  with a(2) show "answers (Http_Decrypt wl key next) r s c s'" by simp
qed

lemma guards_subnet:
  fixes mw :: "'w serve \<Rightarrow> 'w serve"
  assumes "Http_TrustedSubnet cidr = Inr mw" "subnet_of what cidr = Inr subnet"
  shows "guards (admit_subnet subnet) mw"
proof -
  have mw: "mw = (\<lambda>next r w s. if in_subnet subnet (header_Values (hr_Header r) ''X-Real-IP'') then next r w s
          else Some (rw_Error ''Forbidden'' StatusForbidden w, s))"
    using assms by (auto simp: Http_TrustedSubnet_def subnet_of_def split: if_splits option.splits)
  show ?thesis
  proof (rule guardsI)
    fix "next" :: "'w serve" and r and s :: 'w and c
    assume "admit_subnet subnet r = Inl c"
    then show "answers (mw next) r s c s"
      using answers_Error [of "''Forbidden''" 403 r s] by (auto simp: mw admit_subnet_def answers_def split: if_splits)
  next
    fix "next" :: "'w serve" and r r' and s s' :: 'w and c
    assume "admit_subnet subnet r = Inr r'" "answers next r' s c s'"
    then show "answers (mw next) r s c s'" by (auto simp: mw admit_subnet_def answers_def split: if_splits)
  qed
qed


lemma admit_refuses: "admit lib wl key privateKey subnet r = Inl c \<Longrightarrow> c \<in> {400, 403}"
  by (auto simp: admit_def and_then_def admit_subnet_def admit_decrypt_def admit_gzip_def admit_hash_def
      split: if_splits sum.splits option.splits)

lemma guards_logged: "guards f layer \<Longrightarrow> guards f (\<lambda>next. RequestLogger (layer next))"
  by (rule guardsI) (auto intro: answers_logged dest: guardsD)

lemma server_stack_ok:
  assumes "subnet_of ''parse trusted subnet'' trusted = Inr subnet"
  shows "\<exists>layer :: 'w serve \<Rightarrow> 'w serve. guards (admit lib wl key privateKey subnet) layer
     \<and> (\<forall>handlers. server_stack lib wl key privateKey trusted handlers = Inr (layer handlers))"
proof -
  let ?inner = "\<lambda>next. Http_Gzip wl (Http_HashSHA256 lib key next) :: 'w serve"
  let ?dec = "\<lambda>next. if privateKey \<noteq> None then Http_Decrypt wl privateKey (?inner next) else ?inner next"
  have in': "guards (and_then (admit_gzip wl) (admit_hash lib key)) ?inner"
    by (rule guards_compose [OF guards_gzip guards_hash])
  have dec: "guards (and_then (admit_decrypt wl privateKey) (and_then (admit_gzip wl) (admit_hash lib key))) ?dec"
  proof (cases "privateKey = None")
    case True
    then have "and_then (admit_decrypt wl privateKey) f = f" for f by (simp add: and_then_def admit_decrypt_def fun_eq_iff)
    with True in' show ?thesis by simp
  next
    case False
    with guards_compose [OF guards_decrypt [OF False] in'] show ?thesis by simp
  qed
  show ?thesis
  proof (cases "trusted = []")
    case True
    with assms have "subnet = None" by (simp add: subnet_of_def)
    then have "and_then (admit_subnet subnet) f = f" for f by (simp add: and_then_def admit_subnet_def in_subnet_def fun_eq_iff)
    with dec have "guards (admit lib wl key privateKey subnet) (\<lambda>next. RequestLogger (?dec next))"
      by (simp add: admit_def guards_logged)
    with True show ?thesis by (intro exI [of _ "\<lambda>next. RequestLogger (?dec next)"]) (simp add: server_stack_def)
  next
    case False
    from assms obtain mw :: "'w serve \<Rightarrow> 'w serve" where mw: "Http_TrustedSubnet trusted = Inr mw"
      by (simp add: Http_TrustedSubnet_def)
    have "guards (admit lib wl key privateKey subnet) (\<lambda>next. RequestLogger (mw (?dec next)))"
      unfolding admit_def by (rule guards_logged [OF guards_compose [OF guards_subnet [OF mw assms] dec]])
    with False mw show ?thesis by (intro exI [of _ "\<lambda>next. RequestLogger (mw (?dec next))"]) (simp add: server_stack_def)
  qed
qed

text \<open>
  C13. The middleware in front of the handlers decides alone which requests are served: with the subnet,
  the private key and the signing key of the configuration, a request that a layer refuses gets 403 or
  400 and no handler runs; every other request reaches the handlers once, decrypted, decompressed and with a checked
  signature, and the client gets the status they answer with, through all four response writers. An
  invalid CIDR is an error at start-up.
\<close>

theorem stack_spec:
  "case subnet_of ''parse trusted subnet'' trusted of
     Inl e \<Rightarrow> server_stack lib wl key privateKey trusted (serve_handler h) = Inl e
   | Inr subnet \<Rightarrow>
       (\<exists>serve. server_stack lib wl key privateKey trusted (serve_handler h) = Inr serve
          \<and> (case admit lib wl key privateKey subnet r of
               Inl c \<Rightarrow> c \<in> {400, 403} \<and> (\<exists>resp. respond serve r s = Some (resp, s) \<and> final_status resp = c)
             | Inr r' \<Rightarrow> \<exists>resp. respond serve r s = Some (resp, snd (h r' s)) \<and> final_status resp = final_status (fst (h r' s))))"
proof (cases "subnet_of ''parse trusted subnet'' trusted")
  case (Inl e)
  then have "trusted \<noteq> []" by (auto simp: subnet_of_def)
  with Inl show ?thesis by (simp add: server_stack_def Http_TrustedSubnet_def)
next
  case (Inr subnet)
  obtain layer where l: "guards (admit lib wl key privateKey subnet) layer"
    "server_stack lib wl key privateKey trusted (serve_handler h) = Inr (layer (serve_handler h))"
    using server_stack_ok [OF Inr, of lib wl key privateKey] by blast
  show ?thesis
  proof (cases "admit lib wl key privateKey subnet r")
    case a: (Inl c)
    note admit_refuses [OF a]
    with Inr l a answers_respond [OF guardsD(1) [OF l(1) a]] show ?thesis by auto
  next
    case a: (Inr r')
    obtain resp s' where h: "h r' s = (resp, s')" by fastforce
    have "final_status resp = (if rs_Status resp = None then 200 else final_status resp)" by (simp add: final_status_def)
    with answers_handler [of h r' s, OF h] have "answers (serve_handler h) r' s (final_status resp) s'" by simp
    from answers_respond [OF guardsD(2) [OF l(1) a this]] Inr l a h show ?thesis by auto
  qed
qed


section \<open>The response a client gets\<close>

lemma no_response_sel [simp]: "rs_Header no_response = no_header" "rs_Body no_response = []"
  by (simp_all add: no_response_def)

lemma server_stack_pass:
  assumes "subnet_of ''parse trusted subnet'' trusted = Inr subnet" "admit lib wl key privateKey subnet r = Inr r'"
    and "server_stack lib wl key privateKey trusted handlers = Inr serve"
    and acc: "acc = headerContainsToken (header_Get (hr_Header r) ''Accept-Encoding'') ''gzip''"
  shows "serve r w s = map_option (\<lambda>(w', s'). (unwrap w', s'))
     (map_option (\<lambda>(w', s'). (unwrap (gzip_Close wl w'), s'))
       (if key = [] then handlers r' (newGzipResponseWriter (newLoggingResponseWriter w) acc) s
        else map_option (\<lambda>(w', s'). (unwrap (hash_flush lib key w'), s'))
               (handlers r' (newHashResponseWriter (newGzipResponseWriter (newLoggingResponseWriter w) acc)) s)))"
proof -
  from assms(2) obtain r0 r1 r2 where a: "admit_subnet subnet r = Inr r0" "admit_decrypt wl privateKey r0 = Inr r1"
    "admit_gzip wl r1 = Inr r2" "admit_hash lib key r2 = Inr r'"
    by (auto simp: admit_def and_then_def split: sum.splits)
  have r0: "r0 = r" using a(1) by (auto simp: admit_subnet_def split: if_splits)
  have acc': "headerContainsToken (header_Get (hr_Header r1) ''Accept-Encoding'') ''gzip'' = acc"
    using a(2) unfolding acc r0
    by (auto simp: admit_decrypt_def canon_def upper_char_def lower_char_def encryption_Header_def split: if_splits option.splits sum.splits)
  let ?dec = "if privateKey \<noteq> None then Http_Decrypt wl privateKey (Http_Gzip wl (Http_HashSHA256 lib key handlers))
              else Http_Gzip wl (Http_HashSHA256 lib key handlers)"
  have "serve r w s = map_option (\<lambda>(w', s'). (unwrap w', s')) (?dec r (newLoggingResponseWriter w) s)"
  proof (cases "trusted = []")
    case True
    with assms(3) show ?thesis by (auto simp: server_stack_def RequestLogger_def)
  next
    case False
    with assms(3) obtain mw where mw: "Http_TrustedSubnet trusted = Inr mw" "serve = RequestLogger (mw ?dec)"
      by (auto simp: server_stack_def Let_def split: sum.splits)
    with subnet_pass(2) [OF mw(1) assms(1) a(1)] show ?thesis by (simp add: RequestLogger_def)
  qed
  also have "?dec r (newLoggingResponseWriter w) s = Http_Gzip wl (Http_HashSHA256 lib key handlers) r1 (newLoggingResponseWriter w) s"
    using decrypt_pass [OF a(2), of "Http_Gzip wl (Http_HashSHA256 lib key handlers)" "newLoggingResponseWriter w" s] r0
    by (simp only:)
  finally show ?thesis
    by (simp add: gzip_pass [OF a(3)] hash_pass(2) [OF a(4)] hash_pass(1) [OF a(4)] acc')
qed

definition accepts_gzip :: "http_request \<Rightarrow> bool" where
  "accepts_gzip r = headerContainsToken (header_Get (hr_Header r) ''Accept-Encoding'') ''gzip''"



end
