(* ===== verification/Agent_Store.thy ===== *)
theory Agent_Store
  imports Delivery Mem_Storage "HOL-Library.Log_Nat"
begin

text \<open>
  \<open>internal/agent/store.go\<close> and the collectors that fill it (\<open>PollOnce\<close> of \<open>agent.go\<close>,
  \<open>PollSystemOnce\<close> of \<open>system.go\<close>). Every method of \<open>Store\<close> holds its mutex. The metrics of a snapshot
  point into slices made for that snapshot, which nothing writes afterwards, so they are values here.
\<close>

section \<open>The store\<close>

record Store =
  st_gauges :: "float64 gomap"
  st_counters :: "int64 gomap"

definition NewStore :: Store where
  "NewStore = \<lparr>st_gauges = Map.empty, st_counters = Map.empty\<rparr>"

definition SetGauge :: "string \<Rightarrow> float64 \<Rightarrow> Store \<Rightarrow> Store" where
  "SetGauge name v s = s\<lparr>st_gauges := (st_gauges s)(name \<mapsto> v)\<rparr>"

definition IncCounter :: "string \<Rightarrow> int64 \<Rightarrow> Store \<Rightarrow> Store" where
  "IncCounter name d s = s\<lparr>st_counters := map_inc (st_counters s) name d\<rparr>"

definition SnapshotGauges :: "string list \<Rightarrow> Store \<Rightarrow> float64 gomap" where
  "SnapshotGauges ks s = copy_loop (st_gauges s) ks Map.empty"

text \<open>The second loop of \<open>SnapshotAndResetCounters\<close> writes a zero at every key.\<close>

fun zero_loop :: "string list \<Rightarrow> int64 gomap \<Rightarrow> int64 gomap" where
  "zero_loop [] m = m"
| "zero_loop (k # ks) m = zero_loop ks (m(k \<mapsto> 0))"

definition SnapshotAndResetCounters :: "string list \<Rightarrow> string list \<Rightarrow> Store \<Rightarrow> int64 gomap \<times> Store" where
  "SnapshotAndResetCounters ks ks' s =
     (copy_loop (st_counters s) ks Map.empty, s\<lparr>st_counters := zero_loop ks' (st_counters s)\<rparr>)"

text \<open>The two loops of \<open>SnapshotMetrics\<close>; the second deletes each counter it has visited.\<close>

fun gauge_loop :: "float64 gomap \<Rightarrow> string list \<Rightarrow> Metrics list" where
  "gauge_loop m [] = []"
| "gauge_loop m (k # ks) = (case m k of None \<Rightarrow> gauge_loop m ks | Some v \<Rightarrow> gauge_metric k v # gauge_loop m ks)"

fun counter_loop :: "string list \<Rightarrow> int64 gomap \<Rightarrow> Metrics list \<times> int64 gomap" where
  "counter_loop [] m = ([], m)"
| "counter_loop (k # ks) m =
     (case m k of
        None \<Rightarrow> counter_loop ks m
      | Some v \<Rightarrow> (let (ms, m') = counter_loop ks (m(k := None)) in (counter_metric k v # ms, m')))"

definition SnapshotMetrics :: "string list \<Rightarrow> string list \<Rightarrow> Store \<Rightarrow> Metrics list \<times> Store" where
  "SnapshotMetrics gks cks s =
     (let (ms, counters) = counter_loop cks (st_counters s)
      in (gauge_loop (st_gauges s) gks @ ms, s\<lparr>st_counters := counters\<rparr>))"

definition snapshot_orders :: "Store \<Rightarrow> string list \<Rightarrow> string list \<Rightarrow> bool" where
  "snapshot_orders s gks cks \<longleftrightarrow> range_order (st_gauges s) gks \<and> range_order (st_counters s) cks"

section \<open>A snapshot moves every count into the batch\<close>

lemma zero_loop_apply: "zero_loop ks m x = (if x \<in> set ks then Some 0 else m x)"
  by (induction ks arbitrary: m) auto

lemma metric_delta_simps [simp]:
  "metric_delta n (gauge_metric k v) = 0" "metric_delta n (counter_metric k d) = (if k = n then d else 0)"
  by (simp_all add: metric_delta_def gauge_metric_def counter_metric_def Counter_def Gauge_def)

lemma gauge_loop_delta [simp]: "batch_delta n (gauge_loop m ks) = 0"
  by (induction ks) (auto split: option.splits)

lemma gauge_loop_gauge:
  "distinct ks \<Longrightarrow> batch_gauge n (gauge_loop m ks) g = (if n \<in> set ks \<and> m n \<noteq> None then m n else g)"
  by (induction ks arbitrary: g) (auto simp: gauge_metric_def split: option.splits)

text \<open>The counter loop: what it leaves is what it did not visit, and the batch has the rest.\<close>

lemma counter_loop_left: "counter_loop ks m = (ms, m') \<Longrightarrow> m' x = (if x \<in> set ks then None else m x)"
  by (induction ks arbitrary: m ms) (auto split: option.splits prod.splits)

lemma counter_loop_delta:
  "counter_loop ks m = (ms, m') \<Longrightarrow> map_get0 m n = batch_delta n ms + map_get0 m' n"
proof (induction ks arbitrary: m ms)
  case (Cons k ks)
  show ?case
  proof (cases "m k")
    case None
    with Cons show ?thesis by simp
  next
    case (Some v)
    obtain ms1 where c: "counter_loop ks (m(k := None)) = (ms1, m')" "ms = counter_metric k v # ms1"
      using Cons.prems Some by (auto split: prod.splits)
    have "map_get0 m n = (if k = n then v else 0) + map_get0 (m(k := None)) n"
      using Some by (auto simp: map_get0_def)
    with Cons.IH [OF c(1)] c(2) show ?thesis by (simp only: batch_delta_simps metric_delta_simps add.assoc)
  qed
qed simp

lemma counter_loop_gauge: "counter_loop ks m = (ms, m') \<Longrightarrow> batch_gauge n ms g = g"
  by (induction ks arbitrary: m ms) (auto simp: counter_metric_def Counter_def Gauge_def split: option.splits prod.splits)

lemma counter_loop_complete: "counter_loop ks m = (ms, m') \<Longrightarrow> range_order m ks \<Longrightarrow> m' = Map.empty"
  by (rule ext) (auto simp: counter_loop_left range_order_def domIff)

lemma batch_gauge_append: "batch_gauge n (xs @ ys) g = batch_gauge n ys (batch_gauge n xs g)"
  by (induction xs arbitrary: g) auto

text \<open>What every snapshot satisfies, also one that met an incomplete order.\<close>

lemma SnapshotMetrics_conserves:
  assumes "SnapshotMetrics gks cks s = (ms, s')"
  shows "map_get0 (st_counters s) n = batch_delta n ms + map_get0 (st_counters s') n" "st_gauges s' = st_gauges s"
  using assms counter_loop_delta by (auto simp: SnapshotMetrics_def split: prod.splits)

lemma SnapshotMetrics_complete:
  assumes "snapshot_orders s gks cks" "SnapshotMetrics gks cks s = (ms, s')"
  shows "st_counters s' = Map.empty" "batch_delta n ms = map_get0 (st_counters s) n" "batch_gauge n ms None = st_gauges s n"
proof -
  obtain cs c' where c: "counter_loop cks (st_counters s) = (cs, c')" by fastforce
  then have r: "ms = gauge_loop (st_gauges s) gks @ cs" "s' = s\<lparr>st_counters := c'\<rparr>"
    using assms(2) by (auto simp: SnapshotMetrics_def)
  have "c' = Map.empty" using counter_loop_complete [OF c] assms(1) by (simp add: snapshot_orders_def)
  then show "st_counters s' = Map.empty" "batch_delta n ms = map_get0 (st_counters s) n"
    using r counter_loop_delta [OF c, of n] by simp_all
  show "batch_gauge n ms None = st_gauges s n"
    using assms(1) by (auto simp: r batch_gauge_append counter_loop_gauge [OF c] gauge_loop_gauge snapshot_orders_def
        range_order_def domIff)
qed

text \<open>
  C22. Reporting loses and invents nothing: a snapshot holds for every counter exactly the amount
  collected since the last one and for every gauge its current value, and leaves the store with no
  counters and the same gauges. Applied to a storage the snapshot adds exactly those amounts.
\<close>

theorem snapshot_transfers:
  assumes "snapshot_orders s gks cks"
  shows "case SnapshotMetrics gks cks s of (ms, s') \<Rightarrow>
     st_counters s' = Map.empty \<and> st_gauges s' = st_gauges s
     \<and> map_get0 (ms_counters (updateMetricsLocked ms r)) n = map_get0 (ms_counters r) n + map_get0 (st_counters s) n
     \<and> ms_gauges (updateMetricsLocked ms NewMemStorage) n = st_gauges s n"
  using SnapshotMetrics_complete [OF assms] SnapshotMetrics_conserves(2)
  by (auto simp: updateMetricsLocked_counter updateMetricsLocked_gauge NewMemStorage_def split: prod.split)

lemma snapshot_transfers_witness:
  "let s = IncCounter ''PollCount'' 1 (SetGauge ''g'' 4 (IncCounter ''PollCount'' 1 NewStore)) in
   case SnapshotMetrics [''g''] [''PollCount''] s of (ms, s') \<Rightarrow>
     map_get0 (ms_counters (updateMetricsLocked ms NewMemStorage)) ''PollCount'' = 2"
proof -
  let ?s = "IncCounter ''PollCount'' 1 (SetGauge ''g'' 4 (IncCounter ''PollCount'' 1 NewStore))"
  have "snapshot_orders ?s [''g''] [''PollCount'']" "map_get0 (st_counters ?s) ''PollCount'' = 2"
    by (simp_all add: snapshot_orders_def range_order_def IncCounter_def SetGauge_def NewStore_def map_inc_def)
  with snapshot_transfers [of ?s "[''g'']" "[''PollCount'']" NewMemStorage "''PollCount''"] show ?thesis
    by (simp add: NewMemStorage_def Let_def split: prod.splits)
qed

section \<open>Collectors\<close>

text \<open>
  The conversion \<open>float64(n)\<close> of an unsigned integer: IEEE 754 binary64, round to nearest, ties to even.
\<close>

definition round_half_even :: "nat \<Rightarrow> nat \<Rightarrow> nat" where
  "round_half_even n s =
     (let q = n div 2 ^ s; r = n mod 2 ^ s in
      if 2 * r < 2 ^ s \<or> 2 * r = 2 ^ s \<and> even q then q else q + 1)"

definition f64_mantissa :: "nat \<Rightarrow> nat \<Rightarrow> nat" where
  "f64_mantissa n e = (if e \<le> 52 then n * 2 ^ (52 - e) else round_half_even n (e - 52))"

definition f64_of_nat :: "nat \<Rightarrow> float64" where
  "f64_of_nat n =
     (if n = 0 then 0
      else let e = floorlog 2 n - 1 in word_of_nat ((e + 1022) * 2 ^ 52 + f64_mantissa n e))"

lemma f64_mantissa_bound:
  assumes "n > 0" "n < 2 ^ 64"
  shows "f64_mantissa n (floorlog 2 n - 1) \<le> 2 ^ 53" "floorlog 2 n - 1 \<le> 63"
proof -
  let ?e = "floorlog 2 n - 1"
  have b: "2 ^ ?e \<le> n" "n < 2 ^ (?e + 1)"
    using floorlog_bounds [of n 2] floorlog_eq_zero_iff [of 2 n] assms(1) by auto
  then have "(2 :: nat) ^ ?e < 2 ^ 64" using assms(2) by linarith
  then show "?e \<le> 63" using power_strict_increasing_iff [of "2 :: nat" ?e 64] by simp
  show "f64_mantissa n ?e \<le> 2 ^ 53"
  proof (cases "?e \<le> 52")
    case True
    have "n * 2 ^ (52 - ?e) \<le> 2 ^ (?e + 1) * 2 ^ (52 - ?e)" using b(2) by (intro mult_right_mono) simp_all
    also have "\<dots> = 2 ^ 53" using True by (simp flip: power_add)
    finally show ?thesis using True by (simp add: f64_mantissa_def)
  next
    case False
    then have "?e + 1 = 53 + (?e - 52)" by simp
    then have "(2 :: nat) ^ (?e + 1) = 2 ^ 53 * 2 ^ (?e - 52)" by (simp only: power_add)
    then have "n div 2 ^ (?e - 52) < 2 ^ 53" using b(2) by (simp add: less_mult_imp_div_less)
    then show ?thesis using False by (simp add: f64_mantissa_def round_half_even_def Let_def)
  qed
qed

lemma f64_exponent:
  assumes "b < 2047 * 2 ^ 52"
  shows "take_bit 11 (drop_bit 52 (word_of_nat b :: float64)) \<noteq> 2047"
proof -
  have d: "b div 2 ^ 52 < 2047" using assms by (simp add: less_mult_imp_div_less)
  have "unat (take_bit 11 (drop_bit 52 (word_of_nat b :: float64))) = take_bit 11 (drop_bit 52 (take_bit 64 b))"
    by (simp add: unsigned_take_bit_eq unat_drop_bit_eq unsigned_of_nat)
  also have "\<dots> = b div 2 ^ 52"
    using assms d by (simp add: take_bit_nat_eq_self drop_bit_eq_div)
  finally show ?thesis using d by auto
qed

text \<open>No unsigned integer is converted to NaN or an infinity.\<close>

lemma f64_of_nat_finite:
  assumes "n < 2 ^ 64"
  shows "f64_finite (f64_of_nat n)"
proof (cases "n = 0")
  case False
  have "(floorlog 2 n - 1 + 1022) * 2 ^ 52 + f64_mantissa n (floorlog 2 n - 1) < 2047 * 2 ^ 52"
    using f64_mantissa_bound [of n] assms False by simp
  from f64_exponent [OF this] False show ?thesis
    by (simp add: math_IsNaN_def math_IsInf_def f64_of_nat_def Let_def)
qed (simp add: f64_of_nat_def)

text \<open>\<open>runtime.MemStats\<close>, as far as \<open>PollOnce\<close> reads it.\<close>

record MemStats =
  mem_Alloc :: "64 word"
  mem_BuckHashSys :: "64 word"
  mem_Frees :: "64 word"
  mem_GCSys :: "64 word"
  mem_HeapAlloc :: "64 word"
  mem_HeapIdle :: "64 word"
  mem_HeapInuse :: "64 word"
  mem_HeapObjects :: "64 word"
  mem_HeapReleased :: "64 word"
  mem_HeapSys :: "64 word"
  mem_LastGC :: "64 word"
  mem_Lookups :: "64 word"
  mem_MCacheInuse :: "64 word"
  mem_MCacheSys :: "64 word"
  mem_MSpanInuse :: "64 word"
  mem_MSpanSys :: "64 word"
  mem_Mallocs :: "64 word"
  mem_NextGC :: "64 word"
  mem_NumForcedGC :: "32 word"
  mem_NumGC :: "32 word"
  mem_OtherSys :: "64 word"
  mem_PauseTotalNs :: "64 word"
  mem_StackInuse :: "64 word"
  mem_StackSys :: "64 word"
  mem_Sys :: "64 word"
  mem_TotalAlloc :: "64 word"
  mem_GCCPUFraction :: float64

definition runtime_gauges :: "MemStats \<Rightarrow> (string \<times> float64) list" where
  "runtime_gauges m =
     [(''Alloc'', f64_of_nat (unat (mem_Alloc m))),
      (''BuckHashSys'', f64_of_nat (unat (mem_BuckHashSys m))),
      (''Frees'', f64_of_nat (unat (mem_Frees m))),
      (''GCCPUFraction'', mem_GCCPUFraction m),
      (''GCSys'', f64_of_nat (unat (mem_GCSys m))),
      (''HeapAlloc'', f64_of_nat (unat (mem_HeapAlloc m))),
      (''HeapIdle'', f64_of_nat (unat (mem_HeapIdle m))),
      (''HeapInuse'', f64_of_nat (unat (mem_HeapInuse m))),
      (''HeapObjects'', f64_of_nat (unat (mem_HeapObjects m))),
      (''HeapReleased'', f64_of_nat (unat (mem_HeapReleased m))),
      (''HeapSys'', f64_of_nat (unat (mem_HeapSys m))),
      (''LastGC'', f64_of_nat (unat (mem_LastGC m))),
      (''Lookups'', f64_of_nat (unat (mem_Lookups m))),
      (''MCacheInuse'', f64_of_nat (unat (mem_MCacheInuse m))),
      (''MCacheSys'', f64_of_nat (unat (mem_MCacheSys m))),
      (''MSpanInuse'', f64_of_nat (unat (mem_MSpanInuse m))),
      (''MSpanSys'', f64_of_nat (unat (mem_MSpanSys m))),
      (''Mallocs'', f64_of_nat (unat (mem_Mallocs m))),
      (''NextGC'', f64_of_nat (unat (mem_NextGC m))),
      (''NumForcedGC'', f64_of_nat (unat (mem_NumForcedGC m))),
      (''NumGC'', f64_of_nat (unat (mem_NumGC m))),
      (''OtherSys'', f64_of_nat (unat (mem_OtherSys m))),
      (''PauseTotalNs'', f64_of_nat (unat (mem_PauseTotalNs m))),
      (''StackInuse'', f64_of_nat (unat (mem_StackInuse m))),
      (''StackSys'', f64_of_nat (unat (mem_StackSys m))),
      (''Sys'', f64_of_nat (unat (mem_Sys m))),
      (''TotalAlloc'', f64_of_nat (unat (mem_TotalAlloc m)))]"

text \<open>\<open>rnd\<close> is the value of \<open>rand.Float64()\<close>.\<close>

definition PollOnce :: "MemStats \<Rightarrow> float64 \<Rightarrow> Store \<Rightarrow> Store" where
  "PollOnce m rnd s =
     IncCounter ''PollCount'' 1 (SetGauge ''RandomValue'' rnd (fold (\<lambda>(name, v). SetGauge name v) (runtime_gauges m) s))"

text \<open>
  \<open>PollSystemOnce\<close>: \<open>mem\<close> is the result of \<open>mem.VirtualMemory\<close> (total and free memory), \<open>cpu\<close> that of
  \<open>cpu.Percent\<close>; either may fail and the other is stored all the same.
\<close>

fun set_cpus :: "nat \<Rightarrow> float64 list \<Rightarrow> Store \<Rightarrow> Store" where
  "set_cpus i [] s = s"
| "set_cpus i (v # vs) s = set_cpus (i + 1) vs (SetGauge (''CPUutilization'' @ format_nat (i + 1)) v s)"

definition PollSystemOnce :: "goerror + 64 word \<times> 64 word \<Rightarrow> goerror + float64 list \<Rightarrow> Store \<Rightarrow> gerr \<times> Store" where
  "PollSystemOnce mem cpu s =
     (let (memoryErr, s1) = (case mem of
            Inl e \<Rightarrow> (Some e, s)
          | Inr (tot, free) \<Rightarrow>
              (None, SetGauge ''FreeMemory'' (f64_of_nat (unat free)) (SetGauge ''TotalMemory'' (f64_of_nat (unat tot)) s)));
          (cpuErr, s2) = (case cpu of Inl e \<Rightarrow> (Some e, s1) | Inr vs \<Rightarrow> (None, set_cpus 0 vs s1))
      in (errors_Join [memoryErr, cpuErr], s2))"

text \<open>
  \<open>SystemPollLoop\<close> over what the two collectors report at the first poll and at each tick; the list ends when the
  context is cancelled, which the loop answers with nil.
\<close>

definition system_failure :: "goerror \<Rightarrow> goerror" where
  "system_failure e = WrapError ''collect system metrics'' [e]"

fun system_loop :: "((goerror + 64 word \<times> 64 word) \<times> (goerror + float64 list)) list \<Rightarrow> Store \<Rightarrow> gerr \<times> Store" where
  "system_loop [] s = (None, s)"
| "system_loop ((vm, cpu) # readings) s =
     (case PollSystemOnce vm cpu s of
        (Some e, s1) \<Rightarrow> (Some (system_failure e), s1)
      | (None, s1) \<Rightarrow> system_loop readings s1)"

definition SystemPollLoop ::
  "(goerror + 64 word \<times> 64 word) \<times> (goerror + float64 list)
   \<Rightarrow> ((goerror + 64 word \<times> 64 word) \<times> (goerror + float64 list)) list \<Rightarrow> Store \<Rightarrow> gerr \<times> Store" where
  "SystemPollLoop first ticks s = system_loop (first # ticks) s"

section \<open>What the agent collects can be sent\<close>

definition all_finite :: "Store \<Rightarrow> bool" where
  "all_finite s \<longleftrightarrow> (\<forall>n v. st_gauges s n = Some v \<longrightarrow> f64_finite v)"

lemma all_finite_simps [simp]:
  "all_finite NewStore" "all_finite (IncCounter n d s) = all_finite s"
  "all_finite s \<Longrightarrow> f64_finite v \<Longrightarrow> all_finite (SetGauge n v s)"
  by (auto simp: all_finite_def NewStore_def IncCounter_def SetGauge_def)

lemma all_finite_fold:
  "list_all (\<lambda>(n, v). f64_finite v) kvs \<Longrightarrow> all_finite s \<Longrightarrow> all_finite (fold (\<lambda>(n, v). SetGauge n v) kvs s)"
  by (induction kvs arbitrary: s) (auto simp del: all_finite_simps intro: all_finite_simps(3))

lemma st_counters_fold: "st_counters (fold (\<lambda>(n, v). SetGauge n v) kvs s) = st_counters s"
  by (induction kvs arbitrary: s) (auto simp: SetGauge_def)

lemma all_finite_cpus: "list_all f64_finite vs \<Longrightarrow> all_finite s \<Longrightarrow> all_finite (set_cpus i vs s)"
  by (induction vs arbitrary: i s) (auto simp del: all_finite_simps intro: all_finite_simps(3))

lemma f64_of_word_finite:
  "f64_finite (f64_of_nat (unat (w :: 64 word)))" "f64_finite (f64_of_nat (unat (v :: 32 word)))"
proof -
  have "unat w < 2 ^ 64" "unat v < 2 ^ 64"
    using unsigned_less [of w, where ?'a = nat] unsigned_less [of v, where ?'a = nat] by simp_all
  then show "f64_finite (f64_of_nat (unat w))" "f64_finite (f64_of_nat (unat v))"
    by (simp_all add: f64_of_nat_finite)
qed

lemma runtime_gauges_finite: "f64_finite (mem_GCCPUFraction m) \<Longrightarrow> list_all (\<lambda>(n, v). f64_finite v) (runtime_gauges m)"
  by (simp add: runtime_gauges_def f64_of_word_finite)

lemma encodable_counter: "encodable (counter_metric k d)"
  by (simp add: encodable_def counter_metric_def)

lemma SnapshotMetrics_names:
  assumes "SnapshotMetrics gks cks s = (ms, s')"
  shows "\<forall>m \<in> set ms. ID m \<in> set gks \<union> set cks \<and> ((\<exists>v. m = gauge_metric (ID m) v) \<or> (\<exists>d. m = counter_metric (ID m) d))"
proof -
  have g: "\<forall>m \<in> set (gauge_loop f ks). ID m \<in> set ks \<and> (\<exists>v. m = gauge_metric (ID m) v)" for f ks
    by (induction ks) (auto simp: gauge_metric_def split: option.splits)
  have c: "\<forall>m \<in> set xs. ID m \<in> set ks \<and> (\<exists>d. m = counter_metric (ID m) d)" if "counter_loop ks f = (xs, f')" for ks f xs f'
    using that
  proof (induction ks arbitrary: f xs)
    case (Cons k ks)
    then show ?case by (cases "f k") (fastforce simp: counter_metric_def split: prod.splits)+
  qed simp
  obtain xs f' where x: "counter_loop cks (st_counters s) = (xs, f')" by fastforce
  with assms have "ms = gauge_loop (st_gauges s) gks @ xs" by (auto simp: SnapshotMetrics_def)
  with g [of "st_gauges s" gks] c [OF x] show ?thesis by auto
qed

lemma PollOnce_counters: "st_counters (PollOnce m rnd s) = map_inc (st_counters s) ''PollCount'' 1"
  by (simp add: PollOnce_def IncCounter_def SetGauge_def st_counters_fold)

lemma PollOnce_finite:
  "all_finite s \<Longrightarrow> f64_finite rnd \<Longrightarrow> f64_finite (mem_GCCPUFraction m) \<Longrightarrow> all_finite (PollOnce m rnd s)"
  by (simp add: PollOnce_def all_finite_fold runtime_gauges_finite)

lemma set_cpus_counters: "st_counters (set_cpus i vs s) = st_counters s"
  by (induction vs arbitrary: i s) (simp_all add: SetGauge_def)

lemma PollSystemOnce_counters: "PollSystemOnce vm cpu s = (err, s') \<Longrightarrow> st_counters s' = st_counters s"
  by (auto simp: PollSystemOnce_def SetGauge_def set_cpus_counters split: sum.splits)

lemma PollSystemOnce_finite:
  assumes "all_finite s" "\<forall>vs. cpu = Inr vs \<longrightarrow> list_all f64_finite vs" "PollSystemOnce vm cpu s = (err, s')"
  shows "all_finite s'"
  using assms by (auto simp: PollSystemOnce_def all_finite_cpus f64_of_word_finite split: sum.splits)

lemma SnapshotMetrics_encodable:
  assumes "all_finite s" "SnapshotMetrics gks cks s = (ms, s')"
  shows "\<forall>m \<in> set ms. encodable m" "all_finite s'"
proof -
  have g: "\<forall>m \<in> set (gauge_loop (st_gauges s) gks). encodable m"
    using assms(1) by (induction gks) (auto simp: all_finite_def encodable_def split: option.splits)
  have c: "\<forall>x \<in> set xs. encodable x" if "counter_loop ks m = (xs, m')" for ks m xs m'
    using that by (induction ks arbitrary: m xs) (fastforce simp: encodable_counter split: option.splits prod.splits)+
  show "\<forall>m \<in> set ms. encodable m" "all_finite s'"
    using assms g c by (auto simp: SnapshotMetrics_def all_finite_def split: prod.splits)
qed

text \<open>The agent's own names are ASCII, so JSON text keeps them.\<close>

definition utf8_store :: "Store \<Rightarrow> bool" where
  "utf8_store s \<longleftrightarrow> (\<forall>k. st_gauges s k \<noteq> None \<or> st_counters s k \<noteq> None \<longrightarrow> valid_utf8 k)"

lemma utf8_store_simps [simp]:
  "utf8_store NewStore" "utf8_store s \<Longrightarrow> valid_utf8 n \<Longrightarrow> utf8_store (IncCounter n d s)"
  "utf8_store s \<Longrightarrow> valid_utf8 n \<Longrightarrow> utf8_store (SetGauge n v s)"
  by (auto simp: utf8_store_def NewStore_def IncCounter_def SetGauge_def map_inc_def)

lemma ascii_utf8: "list_all (\<lambda>c. ordc c < 128) s \<Longrightarrow> valid_utf8 s"
  by (auto simp: list_all_iff intro: valid_utf8_ascii)

lemma utf8_store_fold:
  "list_all (\<lambda>(n, v). valid_utf8 n) kvs \<Longrightarrow> utf8_store s \<Longrightarrow> utf8_store (fold (\<lambda>(n, v). SetGauge n v) kvs s)"
  by (induction kvs arbitrary: s) auto

lemma runtime_gauges_utf8: "list_all (\<lambda>(n, v). valid_utf8 n) (runtime_gauges m)"
  by (simp add: runtime_gauges_def ascii_utf8)

lemma format_nat_ascii: "list_all (\<lambda>c. ordc c < 128) (format_nat n)"
  by (auto simp: list_all_iff is_digit_def dest!: format_nat_digits)

lemma utf8_store_cpus: "utf8_store s \<Longrightarrow> utf8_store (set_cpus i vs s)"
  by (induction vs arbitrary: i s) (simp_all add: ascii_utf8 format_nat_ascii)

lemma PollOnce_utf8: "utf8_store s \<Longrightarrow> utf8_store (PollOnce m rnd s)"
  by (simp add: PollOnce_def utf8_store_fold runtime_gauges_utf8 ascii_utf8)

lemma PollSystemOnce_utf8: "utf8_store s \<Longrightarrow> PollSystemOnce vm cpu s = (err, s') \<Longrightarrow> utf8_store s'"
  by (auto simp: PollSystemOnce_def utf8_store_cpus ascii_utf8 split: sum.splits)

lemma SnapshotMetrics_utf8:
  assumes "utf8_store s" "snapshot_orders s gks cks" "SnapshotMetrics gks cks s = (ms, s')"
  shows "list_all utf8_metric ms" "utf8_store s'"
proof -
  have n: "\<forall>k \<in> set gks \<union> set cks. valid_utf8 k"
    using assms(1,2) by (auto simp: utf8_store_def snapshot_orders_def range_order_def domIff)
  have t: "valid_utf8 Gauge" "valid_utf8 Counter" "valid_utf8 []"
    by (simp_all add: ascii_utf8 Gauge_def Counter_def)
  have "valid_utf8 k \<Longrightarrow> utf8_metric (gauge_metric k v)" "valid_utf8 k \<Longrightarrow> utf8_metric (counter_metric k d)" for k v d
    using t by (simp_all add: utf8_metric_def)
  with n SnapshotMetrics_names [OF assms(3)] show "list_all utf8_metric ms" unfolding list_all_iff by metis
  show "utf8_store s'"
    using assms(1,3) SnapshotMetrics_complete(1) [OF assms(2,3)] SnapshotMetrics_conserves(2) [OF assms(3)]
    by (simp add: utf8_store_def)
qed

text \<open>
  C35. Polling counts itself once per poll and keeps the store sendable: whatever the runtime and the
  system report, as long as the CPU figures and the two runtime floats are numbers, no gauge becomes NaN
  or infinite (the integer conversions cannot produce one), so every later snapshot has a fingerprint
  and a JSON encoding.
\<close>

theorem polling_keeps_sendable:
  assumes "all_finite s" and "f64_finite rnd" and "f64_finite (mem_GCCPUFraction m)"
    and "\<forall>vs. cpu = Inr vs \<longrightarrow> list_all f64_finite vs"
    and "PollSystemOnce vm cpu (PollOnce m rnd s) = (err, s1)" and "SnapshotMetrics gks cks s1 = (ms, s2)"
  shows "map_get0 (st_counters s1) ''PollCount'' = map_get0 (st_counters s) ''PollCount'' + 1
       \<and> all_finite s1 \<and> all_finite s2 \<and> (\<exists>f. Fingerprint lib ms = Inr f)"
  using SnapshotMetrics_encodable [OF PollSystemOnce_finite [OF PollOnce_finite [OF assms(1-3)] assms(4,5)] assms(6)]
    PollSystemOnce_finite [OF PollOnce_finite [OF assms(1-3)] assms(4,5)] PollSystemOnce_counters [OF assms(5)]
  by (simp add: PollOnce_counters go_map Fingerprint_ok_iff)

definition demo_memstats :: MemStats where
  "demo_memstats = \<lparr>mem_Alloc = 1, mem_BuckHashSys = 2, mem_Frees = 3, mem_GCSys = 4, mem_HeapAlloc = 5,
     mem_HeapIdle = 6, mem_HeapInuse = 7, mem_HeapObjects = 8, mem_HeapReleased = 9, mem_HeapSys = 10,
     mem_LastGC = 11, mem_Lookups = 12, mem_MCacheInuse = 13, mem_MCacheSys = 14, mem_MSpanInuse = 15,
     mem_MSpanSys = 16, mem_Mallocs = 17, mem_NextGC = 18, mem_NumForcedGC = 19, mem_NumGC = 20,
     mem_OtherSys = 21, mem_PauseTotalNs = 22, mem_StackInuse = 23, mem_StackSys = 24, mem_Sys = 25,
     mem_TotalAlloc = 26, mem_GCCPUFraction = 0\<rparr>"

lemma polling_keeps_sendable_witness:
  "let (err, s1) = PollSystemOnce (Inr (8000000000, 3)) (Inl (ErrorString ''cpu'')) (PollOnce demo_memstats 0 NewStore)
   in map_get0 (st_counters s1) ''PollCount'' = 1 \<and> all_finite s1"
proof -
  obtain err s1 where r: "PollSystemOnce (Inr (8000000000, 3)) (Inl (ErrorString ''cpu'')) (PollOnce demo_memstats 0 NewStore) = (err, s1)"
    by fastforce
  obtain ms s2 where t: "SnapshotMetrics [] [] s1 = (ms, s2)" by fastforce
  have "all_finite NewStore" "f64_finite 0" "f64_finite (mem_GCCPUFraction demo_memstats)"
    by (simp_all add: demo_memstats_def)
  from polling_keeps_sendable [OF this _ r t] r show ?thesis by (simp add: NewStore_def)
qed

end
