(* ===== verification/Agent.thy ===== *)
theory Agent
  imports Agent_Store Retry Crypto Http
begin

text \<open>
  \<open>internal/agent/agent.go\<close>: construction, reporting and sending. The network is a state the transports
  act on: the HTTP client or the alternative \<open>BatchSender\<close> takes a request and returns an error or a
  status together with the new network state. The concurrent report loop is in \<open>Agent_Loop\<close>.
\<close>

section \<open>Construction\<close>

type_synonym 'n http_client = "http_request \<Rightarrow> 'n \<Rightarrow> (goerror + nat) \<times> 'n"
type_synonym 'n batch_sender = "Batch \<Rightarrow> 'n \<Rightarrow> gerr \<times> 'n"

record 'n Agent =
  ag_sender :: "'n batch_sender option"
  ag_pending :: "Batch list"
  ag_pollInterval :: duration
  ag_reportInterval :: duration
  ag_serverURL :: string
  ag_client :: "'n http_client"
  ag_store :: Store
  ag_key :: string
  ag_publicKey :: "PublicKey option"
  ag_rateLimit :: int64
  ag_retrySleep :: "duration \<Rightarrow> 'n \<Rightarrow> 'n"

datatype 'n Option =
    WithBatchSender "'n batch_sender option"
  | WithHTTPClient "'n http_client option"
  | WithStore "Store option"
  | WithKey string
  | WithPublicKey "PublicKey option"
  | WithRateLimit int64
  | WithRetrySleep "(duration \<Rightarrow> 'n \<Rightarrow> 'n) option"

fun apply_option :: "'n Option \<Rightarrow> 'n Agent \<Rightarrow> 'n Agent" where
  "apply_option (WithBatchSender s) a = a\<lparr>ag_sender := s\<rparr>"
| "apply_option (WithHTTPClient c) a = (case c of None \<Rightarrow> a | Some c' \<Rightarrow> a\<lparr>ag_client := c'\<rparr>)"
| "apply_option (WithStore s) a = (case s of None \<Rightarrow> a | Some s' \<Rightarrow> a\<lparr>ag_store := s'\<rparr>)"
| "apply_option (WithKey k) a = a\<lparr>ag_key := k\<rparr>"
| "apply_option (WithPublicKey k) a = a\<lparr>ag_publicKey := k\<rparr>"
| "apply_option (WithRateLimit r) a = a\<lparr>ag_rateLimit := r\<rparr>"
| "apply_option (WithRetrySleep f) a = (case f of None \<Rightarrow> a | Some f' \<Rightarrow> a\<lparr>ag_retrySleep := f'\<rparr>)"

definition validate :: "'n Agent \<Rightarrow> gerr" where
  "validate a =
     (if ag_serverURL a = [] then Some (ErrorString ''server URL is required'')
      else if sint (ag_pollInterval a) \<le> 0 then Some (ErrorString ''poll interval must be positive'')
      else if sint (ag_reportInterval a) \<le> 0 then Some (ErrorString ''report interval must be positive'')
      else if sint (ag_rateLimit a) \<le> 0 then Some (ErrorString ''rate limit must be positive'')
      else None)"

text \<open>\<open>NewAgent\<close>; nil options are skipped. \<open>client\<close> and \<open>sleep\<close> are the defaults it installs.\<close>

definition NewAgent ::
  "'n http_client \<Rightarrow> (duration \<Rightarrow> 'n \<Rightarrow> 'n) \<Rightarrow> string \<Rightarrow> duration \<Rightarrow> duration \<Rightarrow> 'n Option option list \<Rightarrow> goerror + 'n Agent" where
  "NewAgent client sleep serverURL pollInterval reportInterval options =
     (let agent = \<lparr>ag_sender = None, ag_pending = [], ag_pollInterval = pollInterval, ag_reportInterval = reportInterval,
                   ag_serverURL = serverURL, ag_client = client, ag_store = NewStore, ag_key = [], ag_publicKey = None,
                   ag_rateLimit = 1, ag_retrySleep = sleep\<rparr>;
          agent' = fold (\<lambda>opt a. case opt of None \<Rightarrow> a | Some p \<Rightarrow> apply_option p a) options agent
      in case validate agent' of Some e \<Rightarrow> Inl e | None \<Rightarrow> Inr agent')"

section \<open>Sending one batch\<close>

definition errRetriableSend :: goerror where
  "errRetriableSend = Sentinel ''retriable send error''"

text \<open>\<open>status.Code(err)\<close>: the code of the first gRPC status in the error tree, else \<open>Unknown\<close> (2).\<close>

fun find_status :: "goerror \<Rightarrow> nat option" where
  "find_status (StatusError c m) = Some c"
| "find_status (WrapError m es) = first_some (map find_status es)"
| "find_status (JoinError es) = first_some (map find_status es)"
| "find_status _ = None"

definition status_Code :: "goerror \<Rightarrow> nat" where
  "status_Code e = (case find_status e of None \<Rightarrow> 2 | Some c \<Rightarrow> c)"

definition codes_Unavailable :: nat where
  "codes_Unavailable = 14"

definition isRetriableSendError :: "goerror \<Rightarrow> bool" where
  "isRetriableSendError err \<longleftrightarrow> errors_Is err ''retriable send error'' \<or> status_Code err = codes_Unavailable"

text \<open>\<open>withRealIP\<close>: the address of the connection's local end, when it can be parsed.\<close>

definition withRealIP :: "string option \<Rightarrow> http_request \<Rightarrow> http_request" where
  "withRealIP ip req = (case ip of None \<Rightarrow> req | Some a \<Rightarrow> req\<lparr>hr_Header := header_Set ''X-Real-IP'' a (hr_Header req)\<rparr>)"

text \<open>What one send meets outside the program: randomness, the local address, whether the URL parses.\<close>

record send_env =
  se_rand :: enc_rand
  se_ip :: "string option"
  se_url_error :: gerr

definition post_request :: "'n Agent \<Rightarrow> bytes \<Rightarrow> string \<Rightarrow> string \<Rightarrow> http_request" where
  "post_request a body hash batchID =
     \<lparr>hr_Method = ''POST'', hr_URL = ag_serverURL a @ ''/updates/'',
      hr_Header =
        (let h = header_Set ''Accept-Encoding'' ''gzip'' (header_Set ''Content-Encoding'' ''gzip''
                   (header_Set ''Content-Type'' ''application/json'' (header_Set delivery_Header batchID no_header)));
             h1 = (if ag_publicKey a \<noteq> None then header_Set encryption_Header Algorithm h else h)
         in if hash \<noteq> [] then header_Set signature_Header hash h1 else h1),
      hr_Body = body, hr_BodyErr = False, hr_RemoteAddr = []\<rparr>"

definition sendCompressedMetrics :: "send_env \<Rightarrow> 'n Agent \<Rightarrow> bytes \<Rightarrow> string \<Rightarrow> string \<Rightarrow> 'n \<Rightarrow> gerr \<times> 'n" where
  "sendCompressedMetrics env a body hash batchID n =
     (case se_url_error env of
        Some e \<Rightarrow> (Some (WrapError ''create request'' [e]), n)
      | None \<Rightarrow>
        (case ag_client a (withRealIP (se_ip env) (post_request a body hash batchID)) n of
           (Inl e, n') \<Rightarrow> (Some (WrapError ''send request'' [errRetriableSend, e]), n')
         | (Inr code, n') \<Rightarrow>
             (if code \<noteq> StatusOK then Some (ErrorString (''unexpected status code: '' @ format_nat code)) else None, n')))"

text \<open>The payload of an HTTP batch: JSON, gzip, signature over the JSON, encryption. Writes to a
  \<open>bytes.Buffer\<close> cannot fail.\<close>

definition http_payload :: "golib \<Rightarrow> wirelib \<Rightarrow> send_env \<Rightarrow> 'n Agent \<Rightarrow> Metrics list \<Rightarrow> goerror + bytes \<times> string" where
  "http_payload lib wl env a metrics =
     (case json_of_batch lib metrics of
        None \<Rightarrow> Inl (WrapError ''marshal metrics'' [unsupported_value])
      | Some j \<Rightarrow>
        (let body = json_print j; compressed = gzip_bytes wl body;
             hash = (if ag_key a \<noteq> [] then Calculate lib body (ag_key a) else [])
         in case ag_publicKey a of
              None \<Rightarrow> Inr (compressed, hash)
            | Some k \<Rightarrow> (case Encrypt wl (se_rand env) (Some k) compressed of
                          Inl e \<Rightarrow> Inl (WrapError ''encrypt metrics'' [e])
                        | Inr payload \<Rightarrow> Inr (payload, hash))))"

definition sendBatch :: "golib \<Rightarrow> wirelib \<Rightarrow> send_env \<Rightarrow> 'n Agent \<Rightarrow> Batch \<Rightarrow> 'n \<Rightarrow> gerr \<times> 'n" where
  "sendBatch lib wl env a batch n =
     (if batch_Metrics batch = [] then (None, n)
      else case ag_sender a of
        Some send \<Rightarrow> DoWithSleeper (send batch) isRetriableSendError (ag_retrySleep a) n
      | None \<Rightarrow>
        (case http_payload lib wl env a (batch_Metrics batch) of
           Inl e \<Rightarrow> (Some e, n)
         | Inr (payload, hash) \<Rightarrow>
             DoWithSleeper (sendCompressedMetrics env a payload hash (batch_ID batch)) isRetriableSendError (ag_retrySleep a) n))"

definition sendMetrics :: "golib \<Rightarrow> wirelib \<Rightarrow> send_env \<Rightarrow> 'n Agent \<Rightarrow> string \<Rightarrow> Metrics list \<Rightarrow> 'n \<Rightarrow> gerr \<times> 'n" where
  "sendMetrics lib wl env a rand_text metrics n =
     (if metrics = [] then (None, n) else sendBatch lib wl env a (New_Batch rand_text metrics) n)"

section \<open>Reporting\<close>

definition takePending :: "'n Agent \<Rightarrow> Batch list \<times> 'n Agent" where
  "takePending a = (ag_pending a, a\<lparr>ag_pending := []\<rparr>)"

definition requeue :: "Batch \<Rightarrow> 'n Agent \<Rightarrow> 'n Agent" where
  "requeue b a = a\<lparr>ag_pending := ag_pending a @ [b]\<rparr>"

text \<open>The loop of \<open>ReportOnce\<close> over the taken batches; \<open>send\<close> is the method value \<open>a.sendBatch\<close>.\<close>

fun report_pending :: "'n batch_sender \<Rightarrow> Batch list \<Rightarrow> gerr \<Rightarrow> 'n Agent \<Rightarrow> 'n \<Rightarrow> gerr \<times> 'n Agent \<times> 'n" where
  "report_pending send [] result a n = (result, a, n)"
| "report_pending send (b # bs) result a n =
     (case send b n of
        (None, n') \<Rightarrow> report_pending send bs result a n'
      | (Some e, n') \<Rightarrow> report_pending send bs (errors_Join [result, Some e]) (requeue b a) n')"

definition ReportOnce :: "'n batch_sender \<Rightarrow> string \<Rightarrow> string list \<Rightarrow> string list \<Rightarrow> 'n Agent \<Rightarrow> 'n \<Rightarrow> gerr \<times> 'n Agent \<times> 'n" where
  "ReportOnce send rand_text gks cks a n =
     (let (batches, a1) = takePending a;
          (result, a2, n2) = report_pending send batches None a1 n
      in if result \<noteq> None then (result, a2, n2)
         else let (metrics, st) = SnapshotMetrics gks cks (ag_store a2); a3 = a2\<lparr>ag_store := st\<rparr>
              in if metrics = [] then (None, a3, n2)
                 else let batch = New_Batch rand_text metrics in
                      case send batch n2 of
                        (Some e, n3) \<Rightarrow> (Some e, requeue batch a3, n3)
                      | (None, n3) \<Rightarrow> (None, a3, n3))"

section \<open>Properties of construction\<close>

lemma NewAgent_valid:
  assumes "NewAgent client sleep url poll report opts = Inr a"
  shows "ag_serverURL a \<noteq> [] \<and> 0 < sint (ag_pollInterval a) \<and> 0 < sint (ag_reportInterval a) \<and> 0 < sint (ag_rateLimit a)"
  using assms by (auto simp: NewAgent_def Let_def validate_def split: option.splits if_splits)

section \<open>No batch is lost by reporting\<close>

text \<open>
  The contract of a sender as seen by the agent: the batches acknowledged so far grow by the batch when
  the send returns nil. \<open>acked\<close> is what the receiving side has promised to have.
\<close>

locale acknowledging_sender =
  fixes send :: "'n batch_sender"
    and acked :: "'n \<Rightarrow> string \<Rightarrow> bool"
  assumes ack_stable: "send b n = (e, n') \<Longrightarrow> acked n i \<Longrightarrow> acked n' i"
    and ack_ok: "send b n = (None, n') \<Longrightarrow> batch_Metrics b \<noteq> [] \<Longrightarrow> acked n' (batch_ID b)"
begin

lemma report_pending_stable:
  "report_pending send bs r a n = (r', a', n') \<Longrightarrow> acked n i \<Longrightarrow> acked n' i"
proof (induction bs arbitrary: r a n)
  case (Cons b bs)
  obtain e n1 where "send b n = (e, n1)" by fastforce
  with Cons ack_stable [OF this] show ?case by (cases e) auto
qed simp

text \<open>Every batch is acknowledged or pending again, and an error is reported exactly when one is.\<close>

lemma report_pending_conserves:
  assumes "report_pending send bs r a n = (r', a', n')" "\<forall>b \<in> set bs. batch_Metrics b \<noteq> []"
  shows "\<exists>failed. ag_pending a' = ag_pending a @ failed \<and> set failed \<subseteq> set bs
     \<and> (\<forall>b \<in> set bs. b \<in> set failed \<or> acked n' (batch_ID b))
     \<and> (r' = None \<longleftrightarrow> r = None \<and> failed = []) \<and> ag_store a' = ag_store a"
  using assms
proof (induction bs arbitrary: r a n)
  case (Cons b bs)
  obtain e n1 where s: "send b n = (e, n1)" by fastforce
  show ?case
  proof (cases e)
    case None
    with Cons.prems s have rest: "report_pending send bs r a n1 = (r', a', n')" by simp
    have "acked n' (batch_ID b)"
      using report_pending_stable [OF rest ack_ok] s None Cons.prems(2) by simp
    with Cons.IH [OF rest] Cons.prems(2) show ?thesis by fastforce
  next
    case (Some x)
    with Cons.prems s have rest: "report_pending send bs (errors_Join [r, Some x]) (requeue b a) n1 = (r', a', n')" by simp
    from Cons.IH [OF this] Cons.prems(2) obtain failed where
      "ag_pending a' = ag_pending (requeue b a) @ failed" "set failed \<subseteq> set bs"
      "\<forall>b \<in> set bs. b \<in> set failed \<or> acked n' (batch_ID b)"
      "r' = None \<longleftrightarrow> errors_Join [r, Some x] = None \<and> failed = []" "ag_store a' = ag_store (requeue b a)" by auto
    then show ?thesis
      by (intro exI [of _ "b # failed"]) (auto simp: requeue_def errors_Join_None_iff)
  qed
qed simp

end

end
