(* ===== verification/Grpc_Api.thy ===== *)
theory Grpc_Api
  imports Service Audit_Log Agent Durability
begin

text \<open>
  \<open>internal/grpcapi\<close>: the conversion of batches to protocol buffers and back, the client and the server
  method. A request is the list of its messages, where \<^const>\<open>None\<close> is a nil message. Metadata keys are
  in lower case, as gRPC requires. The generated code and the transport are not modelled: a call is a
  function of metadata and request.
\<close>

section \<open>Messages\<close>

datatype Metric_MType = Metric_GAUGE | Metric_COUNTER | Metric_other int

record pb_Metric =
  pb_Id :: string
  pb_Type :: Metric_MType
  pb_Delta :: int64
  pb_Value :: float64

type_synonym metadata = "string \<Rightarrow> string list"
type_synonym 'n rpc = "metadata \<Rightarrow> pb_Metric option list \<Rightarrow> 'n \<Rightarrow> gerr \<times> 'n"

definition codes_InvalidArgument :: nat where "codes_InvalidArgument = 3"
definition codes_AlreadyExists :: nat where "codes_AlreadyExists = 6"
definition codes_PermissionDenied :: nat where "codes_PermissionDenied = 7"
definition codes_Internal :: nat where "codes_Internal = 13"

section \<open>The client\<close>

text \<open>\<open>pb.Metric_builder{Id: m.ID}.Build()\<close>, then the setters of its type.\<close>

definition to_item :: "Metrics \<Rightarrow> goerror + pb_Metric" where
  "to_item m =
     (let item = \<lparr>pb_Id = ID m, pb_Type = Metric_GAUGE, pb_Delta = 0, pb_Value = 0\<rparr> in
      if MType m = Gauge then
        (case Value m of None \<Rightarrow> Inl (ErrorString ''gauge has no value'')
         | Some v \<Rightarrow> Inr (item\<lparr>pb_Type := Metric_GAUGE, pb_Value := v\<rparr>))
      else if MType m = Counter then
        (case Delta m of None \<Rightarrow> Inl (ErrorString ''counter has no delta'')
         | Some d \<Rightarrow> Inr (item\<lparr>pb_Type := Metric_COUNTER, pb_Delta := d\<rparr>))
      else Inl (ErrorString ''unknown metric type''))"

fun to_items :: "Metrics list \<Rightarrow> goerror + pb_Metric option list" where
  "to_items [] = Inr []"
| "to_items (m # ms) =
     (case to_item m of
        Inl e \<Rightarrow> Inl e
      | Inr i \<Rightarrow> (case to_items ms of Inl e \<Rightarrow> Inl e | Inr is \<Rightarrow> Inr (Some i # is)))"

definition no_metadata :: metadata where
  "no_metadata = (\<lambda>_. [])"

definition SendBatch :: "'n rpc \<Rightarrow> Batch \<Rightarrow> 'n \<Rightarrow> gerr \<times> 'n" where
  "SendBatch rpc batch n =
     (if batch_Metrics batch = [] then (None, n)
      else if \<not> ValidKey (batch_ID batch) then (Some (ErrorString ''invalid batch ID''), n)
      else case to_items (batch_Metrics batch) of
             Inl e \<Rightarrow> (Some e, n)
           | Inr its \<Rightarrow>
             (case rpc (no_metadata(''idempotency-key'' := [batch_ID batch])) its n of
                (Some e, n') \<Rightarrow> (Some (WrapError ''send gRPC metrics'' [e]), n')
              | (None, n') \<Rightarrow> (None, n')))"

definition Client_Send :: "'n rpc \<Rightarrow> string \<Rightarrow> Metrics list \<Rightarrow> 'n \<Rightarrow> gerr \<times> 'n" where
  "Client_Send rpc rand_text metrics n = (if metrics = [] then (None, n) else SendBatch rpc (New_Batch rand_text metrics) n)"

section \<open>The server\<close>

text \<open>The body of the conversion loop of \<open>UpdateMetrics\<close>.\<close>

definition from_item :: "pb_Metric option \<Rightarrow> goerror + Metrics" where
  "from_item item =
     (case item of
        None \<Rightarrow> Inl (StatusError codes_InvalidArgument ''metric id is required'')
      | Some i \<Rightarrow>
        if pb_Id i = [] then Inl (StatusError codes_InvalidArgument ''metric id is required'')
        else case pb_Type i of
          Metric_GAUGE \<Rightarrow>
            if math_IsNaN (pb_Value i) \<or> math_IsInf (pb_Value i) then Inl (StatusError codes_InvalidArgument ''gauge must be finite'')
            else Inr (gauge_metric (pb_Id i) (pb_Value i))
        | Metric_COUNTER \<Rightarrow> Inr (counter_metric (pb_Id i) (pb_Delta i))
        | Metric_other _ \<Rightarrow> Inl (StatusError codes_InvalidArgument ''unknown metric type''))"

fun from_items :: "pb_Metric option list \<Rightarrow> goerror + Metrics list" where
  "from_items [] = Inr []"
| "from_items (i # is) =
     (case from_item i of
        Inl e \<Rightarrow> Inl e
      | Inr m \<Rightarrow> (case from_items is of Inl e \<Rightarrow> Inl e | Inr ms \<Rightarrow> Inr (m # ms)))"

text \<open>The key of a request: none, one valid value, or an error.\<close>

definition request_key :: "string list \<Rightarrow> string option" where
  "request_key values =
     (if length values > 0 then (if length values \<noteq> 1 \<or> \<not> ValidKey (hd values) then None else Some (hd values))
      else Some [])"

definition incoming_ip :: "metadata \<Rightarrow> string" where
  "incoming_ip md = (case md ''x-real-ip'' of [v] \<Rightarrow> v | _ \<Rightarrow> [])"

text \<open>
  \<open>metricsServer.UpdateMetrics\<close>. \<open>once\<close> is the service method, \<open>ctx_code\<close> the gRPC code of a cancelled
  or expired context, \<open>now\<close> the clock; a nil request is \<^const>\<open>None\<close>.
\<close>

definition Grpc_UpdateMetrics ::
  "(string \<Rightarrow> Metrics list \<Rightarrow> 'w \<Rightarrow> (bool \<times> gerr) \<times> 'w) \<Rightarrow> 'w observer option \<Rightarrow> int64 \<Rightarrow> nat option \<Rightarrow>
   metadata \<Rightarrow> pb_Metric option list option \<Rightarrow> 'w \<Rightarrow> gerr \<times> 'w" where
  "Grpc_UpdateMetrics once auditor now ctx_code md req w =
     (case req of
        None \<Rightarrow> (Some (StatusError codes_InvalidArgument ''request is required''), w)
      | Some its \<Rightarrow>
        (case request_key (md ''idempotency-key'') of
           None \<Rightarrow> (Some (StatusError codes_InvalidArgument ''invalid idempotency key''), w)
         | Some key \<Rightarrow>
           (case from_items its of
              Inl e \<Rightarrow> (Some e, w)
            | Inr metrics \<Rightarrow>
              if metrics = [] then (None, w)
              else case ctx_code of
                Some c \<Rightarrow> (Some (StatusError c ''context done''), w)
              | None \<Rightarrow>
                (case once key metrics w of
                   ((_, Some e), w') \<Rightarrow>
                     (Some (if is_conflict e then StatusError codes_AlreadyExists ''idempotency key reused with different metrics''
                            else StatusError codes_Internal ''failed to store metrics''), w')
                 | ((applied, None), w') \<Rightarrow>
                     (case auditor of
                        Some notify \<Rightarrow>
                          if applied
                          then (None, snd (notify \<lparr>ev_Timestamp = now, ev_Metrics = map ID metrics, ev_IPAddress = incoming_ip md\<rparr> w'))
                          else (None, w')
                      | None \<Rightarrow> (None, w'))))))"

section \<open>Conversion\<close>

text \<open>A metric as the agent builds it and the handlers accept it: a name, and exactly the field of its type.\<close>

definition proper :: "Metrics \<Rightarrow> bool" where
  "proper m \<longleftrightarrow> ID m \<noteq> [] \<and> ((\<exists>v. m = gauge_metric (ID m) v) \<or> (\<exists>d. m = counter_metric (ID m) d))"

lemma item_roundtrip:
  assumes "proper m" "encodable m"
  shows "\<exists>i. to_item m = Inr i \<and> from_item (Some i) = Inr m"
  using assms(1) unfolding proper_def
proof (elim conjE disjE exE)
  fix v
  assume "ID m \<noteq> []" "m = gauge_metric (ID m) v"
  moreover obtain n where "n = ID m" by simp
  ultimately have "n \<noteq> []" "m = gauge_metric n v" by simp_all
  with assms(2) show ?thesis by (simp add: to_item_def from_item_def gauge_metric_def encodable_def)
next
  fix d
  assume "ID m \<noteq> []" "m = counter_metric (ID m) d"
  moreover obtain n where "n = ID m" by simp
  ultimately have "n \<noteq> []" "m = counter_metric n d" by simp_all
  then show ?thesis by (simp add: to_item_def from_item_def counter_metric_def Counter_def Gauge_def)
qed

lemma items_roundtrip:
  "list_all (\<lambda>m. proper m \<and> encodable m) ms \<Longrightarrow> \<exists>its. to_items ms = Inr its \<and> from_items its = Inr ms"
proof (induction ms)
  case (Cons m ms)
  then obtain i its where "to_item m = Inr i" "from_item (Some i) = Inr m" "to_items ms = Inr its" "from_items its = Inr ms"
    using item_roundtrip [of m] by auto
  then show ?case by simp
qed simp

lemma from_items_proper:
  "from_items its = Inr ms \<Longrightarrow> list_all (\<lambda>m. proper m \<and> encodable m \<and> effective m) ms"
proof (induction its arbitrary: ms)
  case (Cons i its)
  then obtain m ms' where m: "from_item i = Inr m" "from_items its = Inr ms'" "ms = m # ms'"
    by (auto split: sum.splits)
  have "proper m \<and> encodable m \<and> effective m"
    using m(1) by (auto simp: from_item_def proper_def encodable_def effective_def gauge_metric_def counter_metric_def
        split: option.splits if_splits Metric_MType.splits)
  with Cons.IH [OF m(2)] m(3) show ?case by simp
qed simp

text \<open>
  C20. The gRPC encoding of batches is faithful in both directions: a batch of proper metrics with finite
  gauges is decoded by the server to exactly the batch the client encoded; and whatever request arrives,
  what the server passes on has a name, exactly the field of its type and no NaN or infinity, so storage
  and fingerprint accept it.
\<close>

theorem grpc_conversion:
  "(list_all (\<lambda>m. proper m \<and> encodable m) ms \<longrightarrow> (\<exists>its. to_items ms = Inr its \<and> from_items its = Inr ms))
   \<and> (case from_items req of
        Inl _ \<Rightarrow> True
      | Inr ms' \<Rightarrow> list_all (\<lambda>m. proper m \<and> effective m) ms' \<and> (\<exists>f. Fingerprint lib ms' = Inr f))"
  using items_roundtrip [of ms] from_items_proper [of req]
  by (auto simp: Fingerprint_ok_iff list_all_iff split: sum.split)

lemma grpc_conversion_witness:
  "\<exists>its. to_items [gauge_metric ''g'' 0, counter_metric ''c'' 7] = Inr its
     \<and> from_items its = Inr [gauge_metric ''g'' 0, counter_metric ''c'' 7]"
proof -
  have "list_all (\<lambda>m. proper m \<and> encodable m) [gauge_metric ''g'' 0, counter_metric ''c'' 7]"
    by (auto simp: proper_def encodable_def gauge_metric_def counter_metric_def)
  with grpc_conversion [where ms = "[gauge_metric ''g'' 0, counter_metric ''c'' 7]"] show ?thesis by blast
qed

end
