(* ===== verification/Agent_Loop.thy ===== *)
theory Agent_Loop
  imports Agent "HOL-Library.Multiset"
begin

text \<open>
  The concurrent part of \<open>internal/agent\<close>: \<open>Run\<close> with its three loops (\<open>PollLoop\<close>, \<open>SystemPollLoop\<close>,
  \<open>ReportLoop\<close>), \<open>enqueueReport\<close> and the report workers, as a step relation. One step is one action
  under a mutex, one channel operation or one send attempt; goroutines interleave freely. Where a
  \<open>select\<close> has several ready cases, each is a step. \<open>lp_made\<close>, \<open>lp_acked\<close> and \<open>lp_polls\<close> record the
  history: all batches created, those whose send returned nil, and the number of polls; \<open>lp_err\<close> is the error the
  group keeps, which only \<open>SystemPollLoop\<close> can return.
\<close>

section \<open>The step relation\<close>

record 'n loop =
  lp_rate :: nat
  lp_store :: Store
  lp_pending :: "Batch list"
  lp_enq :: "Batch list"
  lp_jobs :: "Batch list"
  lp_busy :: "Batch list"
  lp_ctx :: bool
  lp_polling :: bool
  lp_system :: bool
  lp_closed :: bool
  lp_net :: 'n
  lp_made :: "Batch list"
  lp_acked :: "Batch list"
  lp_polls :: nat
  lp_err :: gerr

definition loop_start :: "nat \<Rightarrow> Store \<Rightarrow> 'n \<Rightarrow> 'n loop" where
  "loop_start rate st n =
     \<lparr>lp_rate = rate, lp_store = st, lp_pending = [], lp_enq = [], lp_jobs = [], lp_busy = [], lp_ctx = False,
      lp_polling = True, lp_system = True, lp_closed = False, lp_net = n, lp_made = [], lp_acked = [], lp_polls = 0, lp_err = None\<rparr>"

text \<open>
  \<open>att b n e n'\<close>: an attempt to send \<open>b\<close> may turn the network state \<open>n\<close> into \<open>n'\<close> and return \<open>e\<close>.
  \<open>take\<close> and \<open>snapshot\<close> are the first half of \<open>enqueueReport\<close>, \<open>push\<close> and \<open>give_up\<close> its loop; a
  snapshot may happen while a worker requeues, so it does not ask for an empty queue. Identifiers of new
  batches are fresh, which is what the 130 random bits of \<open>rand.Text\<close> are for.
\<close>

inductive astep :: "(Batch \<Rightarrow> 'n \<Rightarrow> gerr \<Rightarrow> 'n \<Rightarrow> bool) \<Rightarrow> 'n loop \<Rightarrow> 'n loop \<Rightarrow> bool"
  for att :: "Batch \<Rightarrow> 'n \<Rightarrow> gerr \<Rightarrow> 'n \<Rightarrow> bool" where
  poll: "lp_polling l \<Longrightarrow> astep att l (l\<lparr>lp_store := PollOnce m rnd (lp_store l), lp_polls := Suc (lp_polls l)\<rparr>)"
| poll_exit: "lp_polling l \<Longrightarrow> lp_ctx l \<Longrightarrow> astep att l (l\<lparr>lp_polling := False\<rparr>)"
| system: "lp_system l \<Longrightarrow> PollSystemOnce vm cpu (lp_store l) = (None, st) \<Longrightarrow> astep att l (l\<lparr>lp_store := st\<rparr>)"
| system_error: "lp_system l \<Longrightarrow> PollSystemOnce vm cpu (lp_store l) = (Some e, st) \<Longrightarrow>
    astep att l (l\<lparr>lp_store := st, lp_system := False, lp_ctx := True, lp_err := Some (system_failure e)\<rparr>)"
| system_exit: "lp_system l \<Longrightarrow> lp_ctx l \<Longrightarrow> astep att l (l\<lparr>lp_system := False\<rparr>)"
| cancel: "astep att l (l\<lparr>lp_ctx := True\<rparr>)"
| take: "\<not> lp_closed l \<Longrightarrow> lp_enq l = [] \<Longrightarrow> astep att l (l\<lparr>lp_enq := lp_pending l, lp_pending := []\<rparr>)"
| snapshot: "\<not> lp_closed l \<Longrightarrow> lp_enq l = [] \<Longrightarrow> snapshot_orders (lp_store l) gks cks \<Longrightarrow>
    SnapshotMetrics gks cks (lp_store l) = (ms, st) \<Longrightarrow> ms \<noteq> [] \<Longrightarrow>
    rand_text_form i \<Longrightarrow> i \<notin> batch_ID ` set (lp_made l) \<Longrightarrow> b = New_Batch i ms \<Longrightarrow>
    astep att l (l\<lparr>lp_store := st, lp_enq := [b], lp_made := lp_made l @ [b]\<rparr>)"
| push: "lp_enq l = b # bs \<Longrightarrow> length (lp_jobs l) < lp_rate l \<Longrightarrow>
    astep att l (l\<lparr>lp_enq := bs, lp_jobs := lp_jobs l @ [b]\<rparr>)"
| give_up: "lp_enq l = b # bs \<Longrightarrow> lp_ctx l \<Longrightarrow> astep att l (l\<lparr>lp_enq := bs, lp_pending := lp_pending l @ [b]\<rparr>)"
| receive: "lp_jobs l = b # bs \<Longrightarrow> length (lp_busy l) < lp_rate l \<Longrightarrow>
    astep att l (l\<lparr>lp_jobs := bs, lp_busy := b # lp_busy l\<rparr>)"
| retry: "b \<in> set (lp_busy l) \<Longrightarrow> att b (lp_net l) (Some e) n \<Longrightarrow> astep att l (l\<lparr>lp_net := n\<rparr>)"
| sent: "b \<in> set (lp_busy l) \<Longrightarrow> att b (lp_net l) None n \<Longrightarrow>
    astep att l (l\<lparr>lp_net := n, lp_busy := remove1 b (lp_busy l), lp_acked := b # lp_acked l\<rparr>)"
| failed: "b \<in> set (lp_busy l) \<Longrightarrow> att b (lp_net l) (Some e) n \<Longrightarrow>
    astep att l (l\<lparr>lp_net := n, lp_busy := remove1 b (lp_busy l), lp_pending := lp_pending l @ [b]\<rparr>)"
| close: "\<not> lp_closed l \<Longrightarrow> lp_ctx l \<Longrightarrow> lp_enq l = [] \<Longrightarrow> astep att l (l\<lparr>lp_closed := True\<rparr>)"

inductive arun :: "(Batch \<Rightarrow> 'n \<Rightarrow> gerr \<Rightarrow> 'n \<Rightarrow> bool) \<Rightarrow> 'n loop \<Rightarrow> 'n loop \<Rightarrow> bool"
  for att :: "Batch \<Rightarrow> 'n \<Rightarrow> gerr \<Rightarrow> 'n \<Rightarrow> bool" where
  start: "arun att l l"
| more: "arun att l l' \<Longrightarrow> astep att l' l'' \<Longrightarrow> arun att l l''"

text \<open>\<open>group.Wait()\<close> of \<open>Run\<close> and \<open>workers.Wait()\<close> of \<open>ReportLoop\<close> have returned.\<close>

definition quiescent :: "'n loop \<Rightarrow> bool" where
  "quiescent l \<longleftrightarrow> lp_closed l \<and> lp_jobs l = [] \<and> lp_busy l = [] \<and> \<not> lp_polling l \<and> \<not> lp_system l"

text \<open>After \<open>group.Wait()\<close>: the final report, and the join of both errors.\<close>

definition Run_finish ::
  "'n batch_sender \<Rightarrow> string \<Rightarrow> string list \<Rightarrow> string list \<Rightarrow> 'n loop \<Rightarrow> 'n Agent \<Rightarrow> gerr \<times> 'n Agent \<times> 'n" where
  "Run_finish send i gks cks l a =
     (let (e, a', n') = ReportOnce send i gks cks a (lp_net l) in (errors_Join [lp_err l, e], a', n'))"

lemma Run_finish_None:
  assumes "Run_finish send i gks cks l a = (None, a', n')"
  shows "ReportOnce send i gks cks a (lp_net l) = (None, a', n')" "lp_err l = None"
  using assms by (auto simp: Run_finish_def errors_Join_None_iff split: prod.splits)

text \<open>The steps \<open>system\<close>, \<open>system_error\<close> and \<open>system_exit\<close> are those of \<open>SystemPollLoop\<close>, run without interruption.\<close>

lemma arun_trans: "arun att l1 l2 \<Longrightarrow> arun att l l1 \<Longrightarrow> arun att l l2"
  by (induction rule: arun.induct) (auto intro: arun.intros)

lemma SystemPollLoop_runs:
  assumes "system_loop readings (lp_store l) = (err, st)" "lp_system l" "lp_ctx l" "lp_err l = None"
  shows "arun att l (l\<lparr>lp_store := st, lp_system := False, lp_err := err\<rparr>)"
  using assms
proof (induction readings arbitrary: l)
  case Nil
  then have eq: "l\<lparr>lp_store := st, lp_system := False, lp_err := err\<rparr> = l\<lparr>lp_system := False\<rparr>" by (cases l) auto
  show ?case unfolding eq using astep.system_exit [of l att] Nil by (intro arun.more [OF arun.start]) simp
next
  case (Cons rd readings)
  obtain vm cpu where rd: "rd = (vm, cpu)" by fastforce
  obtain e s1 where p: "PollSystemOnce vm cpu (lp_store l) = (e, s1)" by fastforce
  show ?case
  proof (cases e)
    case None
    let ?l = "l\<lparr>lp_store := s1\<rparr>"
    have "arun att ?l (?l\<lparr>lp_store := st, lp_system := False, lp_err := err\<rparr>)"
      using Cons.prems rd p None by (intro Cons.IH) simp_all
    moreover have "arun att l ?l"
      using p None Cons.prems(2) by (intro arun.more [OF arun.start] astep.system) auto
    ultimately show ?thesis using arun_trans by fastforce
  next
    case (Some x)
    with Cons.prems rd p have "err = Some (system_failure x)" "st = s1" by simp_all
    then have eq: "l\<lparr>lp_store := st, lp_system := False, lp_err := err\<rparr> =
        l\<lparr>lp_store := s1, lp_system := False, lp_ctx := True, lp_err := Some (system_failure x)\<rparr>"
      using Cons.prems(3) by (cases l) auto
    show ?thesis
      unfolding eq using astep.system_error [of l vm cpu x s1 att] Some p Cons.prems(2)
      by (intro arun.more [OF arun.start]) simp
  qed
qed

section \<open>Every batch is somewhere\<close>

definition placed :: "'n loop \<Rightarrow> Batch multiset" where
  "placed l = mset (lp_pending l) + mset (lp_enq l) + mset (lp_jobs l) + mset (lp_busy l) + mset (lp_acked l)"

definition made_delta :: "string \<Rightarrow> Batch list \<Rightarrow> int64" where
  "made_delta c bs = sum_list (map (\<lambda>b. batch_delta c (batch_Metrics b)) bs)"

definition polled :: "string \<Rightarrow> nat \<Rightarrow> int64" where
  "polled c k = (if c = ''PollCount'' then of_nat k else 0)"

definition loop_ok :: "'n loop \<Rightarrow> bool" where
  "loop_ok l \<longleftrightarrow> placed l = mset (lp_made l)
     \<and> length (lp_jobs l) \<le> lp_rate l \<and> length (lp_busy l) \<le> lp_rate l
     \<and> distinct (map batch_ID (lp_made l))
     \<and> (\<forall>b \<in> set (lp_made l). batch_Metrics b \<noteq> [] \<and> ValidKey (batch_ID b))
     \<and> (lp_closed l \<longrightarrow> lp_enq l = [] \<and> lp_ctx l)"

definition counts_ok :: "Store \<Rightarrow> 'n loop \<Rightarrow> bool" where
  "counts_ok st0 l \<longleftrightarrow>
     (\<forall>c. map_get0 (st_counters (lp_store l)) c + made_delta c (lp_made l) = map_get0 (st_counters st0) c + polled c (lp_polls l))"

lemma placed_remove1:
  "b \<in> set xs \<Longrightarrow> mset xs = add_mset b (mset (remove1 b xs))" "length (remove1 b xs) \<le> length xs"
  by (simp_all add: length_remove1)

lemma loop_ok_step: "astep att l l' \<Longrightarrow> loop_ok l \<Longrightarrow> loop_ok l'"
proof (induction rule: astep.induct)
  case (snapshot l gks cks ms st i b)
  then show ?case using rand_text_ValidKey [of i] by (auto simp: loop_ok_def placed_def)
next
  case (sent b l n)
  then show ?case
    using placed_remove1 [of b "lp_busy l"] by (auto simp: loop_ok_def placed_def simp del: mset_remove1)
next
  case (failed b l e n)
  then show ?case
    using placed_remove1 [of b "lp_busy l"] by (auto simp: loop_ok_def placed_def simp del: mset_remove1)
qed (auto simp: loop_ok_def placed_def)

lemma counts_ok_step: "astep att l l' \<Longrightarrow> counts_ok st0 l \<Longrightarrow> counts_ok st0 l'"
proof (induction rule: astep.induct)
  case (poll l m rnd)
  then show ?case by (auto simp: counts_ok_def PollOnce_counters polled_def go_map add.assoc add.commute)
next
  case (snapshot l gks cks ms st i b)
  have "map_get0 (st_counters (lp_store l)) c = batch_delta c ms + map_get0 (st_counters st) c" for c
    using SnapshotMetrics_conserves(1) [OF snapshot(4)] .
  with snapshot(8) snapshot.prems show ?case
    by (simp add: counts_ok_def made_delta_def add.assoc add.commute add.left_commute)
qed (auto simp: counts_ok_def dest: PollSystemOnce_counters)

lemma loop_ok_start: "loop_ok (loop_start rate st n)"
  by (simp add: loop_ok_def loop_start_def placed_def)

lemma counts_ok_start: "counts_ok st (loop_start rate st n)"
  by (simp add: counts_ok_def loop_start_def made_delta_def polled_def)

lemma arun_invariant: "arun att k l \<Longrightarrow> loop_ok k \<Longrightarrow> counts_ok st k \<Longrightarrow> loop_ok l \<and> counts_ok st l"
  by (induction rule: arun.induct) (auto intro: loop_ok_step counts_ok_step)

lemma arun_ok:
  assumes "arun att (loop_start rate st n) l"
  shows "loop_ok l" "counts_ok st l"
  using arun_invariant [OF assms loop_ok_start counts_ok_start] by simp_all

lemma loop_ok_set:
  assumes "loop_ok l"
  shows "set (lp_made l) = set (lp_pending l) \<union> set (lp_enq l) \<union> set (lp_jobs l) \<union> set (lp_busy l) \<union> set (lp_acked l)"
proof -
  have "set_mset (placed l) = set_mset (mset (lp_made l))" using assms by (simp add: loop_ok_def)
  then show ?thesis by (auto simp: placed_def)
qed

text \<open>Everything the loops collect and send has UTF-8 names.\<close>

definition names_ok :: "'n loop \<Rightarrow> bool" where
  "names_ok l \<longleftrightarrow> utf8_store (lp_store l) \<and> (\<forall>b \<in> set (lp_made l). list_all utf8_metric (batch_Metrics b))"

lemma names_ok_step: "astep att l l' \<Longrightarrow> names_ok l \<Longrightarrow> names_ok l'"
proof (induction rule: astep.induct)
  case (snapshot l gks cks ms st i b)
  with SnapshotMetrics_utf8 [OF _ snapshot(3,4)] show ?case by (auto simp: names_ok_def)
qed (auto simp: names_ok_def PollOnce_utf8 intro: PollSystemOnce_utf8)

lemma names_ok_run: "arun att k l \<Longrightarrow> names_ok k \<Longrightarrow> names_ok l"
  by (induction rule: arun.induct) (auto intro: names_ok_step)

lemma arun_names: "arun att (loop_start rate NewStore n) l \<Longrightarrow> names_ok l"
  by (erule names_ok_run) (simp add: names_ok_def loop_start_def)

text \<open>
  C7. However the loops, the workers and the failures of the network interleave: every batch ever
  created is, with its identifier and contents unchanged, in exactly one place (waiting, being enqueued,
  in the channel, with a worker, or acknowledged); identifiers are valid and never reused; at most
  \<open>rateLimit\<close> batches are queued and at most \<open>rateLimit\<close> sends run at once; and for every counter the
  amount in the store plus the amounts in all batches created equals what was collected, modulo \<open>2\<^sup>6\<^sup>4\<close>.
\<close>

theorem agent_conserves:
  assumes "arun att (loop_start rate st n) l"
  shows "mset (lp_made l) = mset (lp_pending l) + mset (lp_enq l) + mset (lp_jobs l) + mset (lp_busy l) + mset (lp_acked l)
     \<and> distinct (map batch_ID (lp_made l)) \<and> list_all (\<lambda>b. ValidKey (batch_ID b)) (lp_made l)
     \<and> length (lp_jobs l) \<le> lp_rate l \<and> length (lp_busy l) \<le> lp_rate l
     \<and> map_get0 (st_counters (lp_store l)) c + made_delta c (lp_made l)
         = map_get0 (st_counters st) c + (if c = ''PollCount'' then of_nat (lp_polls l) else 0)"
  using arun_ok [OF assms] unfolding loop_ok_def counts_ok_def placed_def polled_def list_all_iff by auto

lemma agent_conserves_witness:
  "\<exists>l. arun (\<lambda>b n e n'. True) (loop_start 1 (IncCounter ''c'' 5 NewStore) ()) l
     \<and> lp_jobs l = [New_Batch (replicate 26 (CHR ''A'')) [counter_metric ''c'' 5]]
     \<and> map_get0 (st_counters (lp_store l)) ''c'' + made_delta ''c'' (lp_made l) = 5"
proof -
  let ?att = "\<lambda>(b :: Batch) (n :: unit) (e :: gerr) (n' :: unit). True"
  let ?st = "IncCounter ''c'' 5 NewStore"
  let ?l0 = "loop_start 1 ?st ()"
  let ?b = "New_Batch (replicate 26 (CHR ''A'')) [counter_metric ''c'' 5]"
  let ?l1 = "?l0\<lparr>lp_store := NewStore, lp_enq := [?b], lp_made := [?b]\<rparr>"
  let ?l2 = "?l1\<lparr>lp_enq := [], lp_jobs := [?b]\<rparr>"
  have sn: "SnapshotMetrics [] [''c''] ?st = ([counter_metric ''c'' 5], NewStore)"
    by (simp add: SnapshotMetrics_def IncCounter_def NewStore_def map_inc_def fun_eq_iff)
  have "astep ?att ?l0 (?l0\<lparr>lp_store := NewStore, lp_enq := [?b], lp_made := lp_made ?l0 @ [?b]\<rparr>)"
    by (rule astep.snapshot [where gks = "[]" and cks = "[''c'']" and ms = "[counter_metric ''c'' 5]"
          and i = "replicate 26 (CHR ''A'')"])
       (use sn in \<open>simp_all add: loop_start_def snapshot_orders_def range_order_def IncCounter_def NewStore_def map_inc_def
          rand_text_form_def\<close>)
  then have s1: "astep ?att ?l0 ?l1" by (simp add: loop_start_def)
  have "astep ?att ?l1 (?l1\<lparr>lp_enq := [], lp_jobs := lp_jobs ?l1 @ [?b]\<rparr>)"
    by (rule astep.push) (simp_all add: loop_start_def)
  then have s2: "astep ?att ?l1 ?l2" by (simp add: loop_start_def)
  have r: "arun ?att ?l0 ?l2" by (rule arun.more [OF arun.more [OF arun.start s1] s2])
  from agent_conserves [OF r, of "''c''"] r show ?thesis
    by (intro exI [of _ ?l2]) (simp add: IncCounter_def NewStore_def go_map)
qed

section \<open>Run always can come to an end\<close>

lemma arun_left: "arun att l1 l2 \<Longrightarrow> astep att l l1 \<Longrightarrow> arun att l l2"
  by (induction rule: arun.induct) (auto intro: arun.intros)

definition drain_measure :: "'n loop \<Rightarrow> nat" where
  "drain_measure l = 3 * length (lp_enq l) + 2 * length (lp_jobs l) + length (lp_busy l)
     + (if lp_closed l then 0 else 1) + (if lp_polling l then 1 else 0) + (if lp_system l then 1 else 0)"

text \<open>After cancellation some step makes progress until everything has stopped; none needs a working network.\<close>

lemma drain_step:
  assumes "\<forall>b n. \<exists>e n'. att b n e n'" "lp_ctx l" "0 < lp_rate l" "\<not> (quiescent l \<and> lp_enq l = [])"
  shows "\<exists>l'. astep att l l' \<and> lp_ctx l' \<and> lp_rate l' = lp_rate l \<and> drain_measure l' < drain_measure l"
proof -
  consider (enq) b bs where "lp_enq l = b # bs" | (unclosed) "lp_enq l = []" "\<not> lp_closed l"
    | (busy) b bs where "lp_busy l = b # bs" | (jobs) b bs where "lp_busy l = []" "lp_jobs l = b # bs"
    | (polling) "lp_polling l" | (system) "lp_system l"
    using assms(4) unfolding quiescent_def by (cases "lp_enq l"; cases "lp_busy l"; cases "lp_jobs l") blast+
  then show ?thesis
  proof cases
    case enq
    show ?thesis
      by (rule exI, rule conjI, rule astep.give_up [OF enq assms(2)]) (simp add: drain_measure_def enq assms(2))
  next
    case unclosed
    show ?thesis
      by (rule exI, rule conjI, rule astep.close [OF unclosed(2) assms(2) unclosed(1)])
         (simp add: drain_measure_def unclosed assms(2))
  next
    case busy
    obtain e n where a: "att b (lp_net l) e n" using assms(1) by blast
    have b: "b \<in> set (lp_busy l)" using busy by simp
    show ?thesis
    proof (cases e)
      case None
      show ?thesis
        by (rule exI, rule conjI, rule astep.sent [where att = att, OF b a [unfolded None]]) (simp add: drain_measure_def busy assms(2))
    next
      case (Some x)
      show ?thesis
        by (rule exI, rule conjI, rule astep.failed [where att = att, OF b a [unfolded Some]]) (simp add: drain_measure_def busy assms(2))
    qed
  next
    case jobs
    have "length (lp_busy l) < lp_rate l" using jobs assms(3) by simp
    from astep.receive [OF jobs(2) this] show ?thesis
      by (intro exI conjI) (assumption | simp add: drain_measure_def jobs assms(2))+
  next
    case polling
    show ?thesis
      by (rule exI, rule conjI, rule astep.poll_exit [OF polling assms(2)]) (simp add: drain_measure_def polling assms(2))
  next
    case system
    show ?thesis
      by (rule exI, rule conjI, rule astep.system_exit [OF system assms(2)]) (simp add: drain_measure_def system assms(2))
  qed
qed

lemma can_drain:
  assumes "\<forall>b n. \<exists>e n'. att b n e n'" "lp_ctx l" "0 < lp_rate l"
  shows "\<exists>l'. arun att l l' \<and> quiescent l' \<and> lp_enq l' = []"
  using assms(2,3)
proof (induction "drain_measure l" arbitrary: l rule: less_induct)
  case less
  show ?case
  proof (cases "quiescent l \<and> lp_enq l = []")
    case True
    then show ?thesis by (auto intro: arun.start)
  next
    case False
    from drain_step [OF assms(1) less.prems False] obtain l1 where
      l1: "astep att l l1" "lp_ctx l1" "lp_rate l1 = lp_rate l" "drain_measure l1 < drain_measure l" by blast
    from less.hyps [OF l1(4,2)] l1(3) less.prems(2) obtain l2 where "arun att l1 l2" "quiescent l2" "lp_enq l2 = []" by auto
    with arun_left [OF _ l1(1)] show ?thesis by blast
  qed
qed

end
