(* ===== verification/Agent_Server.thy ===== *)
theory Agent_Server
  imports Agent_Loop
begin

text \<open>
  An agent and a server that deduplicates by batch identifier. The interface between them is the locale
  \<open>metrics_server\<close>: what one send attempt may do to a receiving side in an \<open>ok\<close> state. It holds for both transports and
  both storages; this theory derives from it what the server's counters say when \<open>Agent.Run\<close> returns.
\<close>

section \<open>The receiving side\<close>

locale metrics_server =
  fixes att :: "Batch \<Rightarrow> 'n \<Rightarrow> gerr \<Rightarrow> 'n \<Rightarrow> bool"
    and received :: "'n \<Rightarrow> string set"
    and counter_of :: "'n \<Rightarrow> string \<Rightarrow> int64"
    and good :: "Batch \<Rightarrow> bool"
    and ok :: "'n \<Rightarrow> bool"
  assumes att_ok: "ok n \<Longrightarrow> att b n e n' \<Longrightarrow> good b \<Longrightarrow> batch_Metrics b \<noteq> [] \<Longrightarrow> ValidKey (batch_ID b) \<Longrightarrow> ok n'"
    and att_effect: "ok n \<Longrightarrow> att b n e n' \<Longrightarrow> good b \<Longrightarrow> batch_Metrics b \<noteq> [] \<Longrightarrow> ValidKey (batch_ID b) \<Longrightarrow>
      received n' = received n \<and> counter_of n' = counter_of n
      \<or> batch_ID b \<notin> received n \<and> received n' = insert (batch_ID b) (received n)
        \<and> (\<forall>c. counter_of n' c = counter_of n c + batch_delta c (batch_Metrics b))"
    and att_ack: "ok n \<Longrightarrow> att b n None n' \<Longrightarrow> good b \<Longrightarrow> batch_Metrics b \<noteq> [] \<Longrightarrow> ValidKey (batch_ID b) \<Longrightarrow> batch_ID b \<in> received n'"
begin

text \<open>The batches the server has, and that its counters are those of \<open>n0\<close> plus exactly these.\<close>

definition at_server :: "'n \<Rightarrow> Batch list \<Rightarrow> Batch set" where
  "at_server n made = {b \<in> set made. batch_ID b \<in> received n}"

definition sendable :: "Batch list \<Rightarrow> bool" where
  "sendable made \<longleftrightarrow> distinct (map batch_ID made) \<and> (\<forall>b \<in> set made. good b \<and> batch_Metrics b \<noteq> [] \<and> ValidKey (batch_ID b))"

definition synced :: "'n \<Rightarrow> Batch list \<Rightarrow> 'n \<Rightarrow> bool" where
  "synced n0 made n \<longleftrightarrow> ok n \<and> received n \<subseteq> received n0 \<union> batch_ID ` set made
     \<and> (\<forall>c. counter_of n c = counter_of n0 c + (\<Sum>b \<in> at_server n made. batch_delta c (batch_Metrics b)))"

lemma received_mono:
  "ok n \<Longrightarrow> att b n e n' \<Longrightarrow> good b \<Longrightarrow> batch_Metrics b \<noteq> [] \<Longrightarrow> ValidKey (batch_ID b) \<Longrightarrow> received n \<subseteq> received n'"
  using att_effect [of n b e n'] by auto

lemma synced_ok: "synced n0 made n \<Longrightarrow> ok n"
  by (simp add: synced_def)

lemma synced_att:
  assumes "synced n0 made n" "sendable made" "b \<in> set made" "att b n e n'"
  shows "synced n0 made n'"
proof -
  have b: "good b" "batch_Metrics b \<noteq> []" "ValidKey (batch_ID b)" using assms(2,3) by (auto simp: sendable_def)
  note ok' = att_ok [OF synced_ok [OF assms(1)] assms(4) b]
  from att_effect [OF synced_ok [OF assms(1)] assms(4) b] show ?thesis
  proof (elim disjE conjE)
    assume "received n' = received n" "counter_of n' = counter_of n"
    with assms(1) ok' show ?thesis by (simp add: synced_def at_server_def)
  next
    assume new: "batch_ID b \<notin> received n" "received n' = insert (batch_ID b) (received n)"
      "\<forall>c. counter_of n' c = counter_of n c + batch_delta c (batch_Metrics b)"
    have "x = b" if "x \<in> set made" "batch_ID x = batch_ID b" for x
      using that assms(2,3) by (auto simp: sendable_def distinct_map inj_on_def)
    with new(1,2) assms(3) have "at_server n' made = insert b (at_server n made)" "b \<notin> at_server n made"
      by (auto simp: at_server_def)
    moreover have "finite (at_server n made)" by (simp add: at_server_def)
    ultimately show ?thesis
      using assms(1,3) new(2,3) ok' by (auto simp: synced_def add.assoc add.commute)
  qed
qed

lemma synced_new:
  assumes "synced n0 made n" "batch_ID b \<notin> received n"
  shows "synced n0 (made @ [b]) n"
proof -
  have "at_server n (made @ [b]) = at_server n made" using assms(2) by (auto simp: at_server_def)
  with assms(1) show ?thesis by (auto simp: synced_def)
qed

lemma sum_all_received:
  assumes "sendable made" "\<forall>b \<in> set made. batch_ID b \<in> received n"
  shows "(\<Sum>b \<in> at_server n made. batch_delta c (batch_Metrics b)) = made_delta c made"
proof -
  have "at_server n made = set made" using assms(2) by (auto simp: at_server_def)
  moreover have "distinct made" using assms(1) by (auto simp: sendable_def distinct_map)
  ultimately show ?thesis by (simp add: made_delta_def sum_list_distinct_conv_sum_set)
qed

section \<open>While the loops run\<close>

definition server_ok :: "'n \<Rightarrow> 'n loop \<Rightarrow> bool" where
  "server_ok n0 l \<longleftrightarrow> synced n0 (lp_made l) (lp_net l) \<and> (\<forall>b \<in> set (lp_acked l). batch_ID b \<in> received (lp_net l))"

text \<open>Identifiers of the agent's batches are not among those the server had at the start, and the link can
  carry the batches.\<close>

definition fresh_ids :: "'n \<Rightarrow> Batch list \<Rightarrow> bool" where
  "fresh_ids n0 made \<longleftrightarrow> (\<forall>b \<in> set made. batch_ID b \<notin> received n0 \<and> good b)"

lemma loop_ok_sendable: "loop_ok l \<Longrightarrow> fresh_ids n0 (lp_made l) \<Longrightarrow> sendable (lp_made l)"
  by (simp add: loop_ok_def sendable_def fresh_ids_def)

lemma made_grows: "astep att l l' \<Longrightarrow> set (lp_made l) \<subseteq> set (lp_made l')"
  by (induction rule: astep.induct) auto

lemma server_ok_step:
  assumes "astep att l l'" "loop_ok l" "server_ok n0 l" "fresh_ids n0 (lp_made l')"
  shows "server_ok n0 l'"
proof -
  have made: "b \<in> set (lp_made l)" if "b \<in> set (lp_busy l)" for b using that loop_ok_set [OF assms(2)] by auto
  have sb: "sendable (lp_made l)"
    using loop_ok_sendable [OF assms(2), of n0] made_grows [OF assms(1)] assms(4) by (auto simp: fresh_ids_def)
  have ok: "good b" "batch_Metrics b \<noteq> []" "ValidKey (batch_ID b)" if "b \<in> set (lp_busy l)" for b
    using made [OF that] sb by (auto simp: sendable_def)
  have okn: "ok (lp_net l)" using assms(3) by (simp add: server_ok_def synced_def)
  have one: "synced n0 (lp_made l) n \<and> received (lp_net l) \<subseteq> received n"
    if "b \<in> set (lp_busy l)" "att b (lp_net l) e n" for b e n
    using synced_att [OF _ sb made [OF that(1)] that(2)]
      received_mono [OF okn that(2) ok [OF that(1)]] assms(3) by (simp add: server_ok_def)
  from assms(1) show ?thesis
  proof cases
    case (snapshot gks cks ms st i b)
    have "batch_ID b \<notin> received (lp_net l)"
      using assms(3,4) snapshot by (auto simp: server_ok_def synced_def fresh_ids_def)
    with assms(3) synced_new snapshot(1) show ?thesis by (auto simp: server_ok_def)
  next
    case (retry b e n)
    with one [OF retry(2,3)] assms(3) show ?thesis by (auto simp: server_ok_def)
  next
    case (sent b n)
    with one [OF sent(2,3)] att_ack [OF okn sent(3) ok [OF sent(2)]] assms(3) show ?thesis by (auto simp: server_ok_def)
  next
    case (failed b e n)
    with one [OF failed(2,3)] assms(3) show ?thesis by (auto simp: server_ok_def)
  qed (use assms(3) in \<open>auto simp: server_ok_def\<close>)
qed

lemma server_ok_start: "ok n0 \<Longrightarrow> server_ok n0 (loop_start rate st n0)"
  by (simp add: server_ok_def loop_start_def synced_def at_server_def)

lemma server_ok_run:
  assumes "ok n0" "arun att (loop_start rate st n0) l" "fresh_ids n0 (lp_made l)"
  shows "server_ok n0 l"
  using assms(2,3)
proof (induction "loop_start rate st n0" l rule: arun.induct)
  case start
  show ?case by (rule server_ok_start [OF assms(1)])
next
  case (more l' l'')
  have "fresh_ids n0 (lp_made l')" using made_grows [OF more(3)] more(4) by (auto simp: fresh_ids_def)
  from server_ok_step [OF more(3) arun_ok(1) [OF more(1)] more(2) [OF this] more(4)] show ?case .
qed

section \<open>The final report\<close>

text \<open>\<open>Run\<close> ends with \<open>ReportOnce\<close>; its sender is \<open>sendBatch\<close>, which makes several attempts.\<close>

definition implements :: "'n batch_sender \<Rightarrow> bool" where
  "implements send \<longleftrightarrow> (\<forall>b n. att b n (fst (send b n)) (snd (send b n)))"

lemma implementsD: "implements send \<Longrightarrow> send b n = (e, n') \<Longrightarrow> att b n e n'"
  by (metis fst_conv snd_conv implements_def)

lemma report_pending_synced:
  assumes "implements send" "sendable made" "synced n0 made n" "set bs \<subseteq> set made"
    and "report_pending send bs r a n = (r', a', n')"
  shows "synced n0 made n' \<and> received n \<subseteq> received n' \<and> ag_store a' = ag_store a
     \<and> (r' = None \<longrightarrow> r = None \<and> ag_pending a' = ag_pending a \<and> (\<forall>b \<in> set bs. batch_ID b \<in> received n'))"
  using assms(3-5)
proof (induction bs arbitrary: r a n)
  case (Cons b bs)
  obtain e n1 where s: "send b n = (e, n1)" by fastforce
  have a: "att b n e n1" using implementsD [OF assms(1) s] .
  have b: "good b" "batch_Metrics b \<noteq> []" "ValidKey (batch_ID b)" using Cons.prems(2) assms(2) by (auto simp: sendable_def)
  have y: "synced n0 made n1" using synced_att [OF Cons.prems(1) assms(2) _ a] Cons.prems(2) by simp
  note okn = synced_ok [OF Cons.prems(1)]
  note mono = received_mono [OF okn a b]
  show ?case
  proof (cases e)
    case None
    with Cons.prems s have "report_pending send bs r a n1 = (r', a', n')" by simp
    from Cons.IH [OF y _ this] Cons.prems(2) mono att_ack [OF okn a [unfolded None] b] show ?thesis by auto
  next
    case (Some x)
    with Cons.prems s have "report_pending send bs (errors_Join [r, Some x]) (requeue b a) n1 = (r', a', n')" by simp
    from Cons.IH [OF y _ this] Cons.prems(2) mono show ?thesis by (auto simp: errors_Join_None_iff requeue_def)
  qed
qed simp

lemma quiescent_places:
  assumes "loop_ok l" "quiescent l"
  shows "set (lp_made l) = set (lp_pending l) \<union> set (lp_acked l)"
  using loop_ok_set [OF assms(1)] assms by (auto simp: quiescent_def loop_ok_def)

text \<open>When the final report succeeds, the server has every batch, and so every count, exactly once.\<close>

lemma run_delivers_all:
  assumes start: "ok n0" and run: "arun att (loop_start rate st n0) l" "quiescent l" "fresh_ids n0 (lp_made l)"
    and send: "implements send"
    and ag: "ag_pending a = lp_pending l" "ag_store a = lp_store l"
    and fresh: "rand_text_form i" "i \<notin> batch_ID ` set (lp_made l)" "i \<notin> received n0"
    and ord: "snapshot_orders (lp_store l) gks cks"
    and fit: "good (New_Batch i (fst (SnapshotMetrics gks cks (lp_store l))))"
    and rep: "ReportOnce send i gks cks a (lp_net l) = (None, a', n')"
  shows "ag_pending a' = [] \<and> counter_of n' c = counter_of n0 c + (map_get0 (st_counters st) c + polled c (lp_polls l))"
proof -
  note ok = arun_ok [OF run(1)]
  note sv = server_ok_run [OF start run(1,3)]
  let ?made = "lp_made l"
  note sb0 = loop_ok_sendable [OF ok(1) run(3)]
  obtain r a1 n1 where p: "report_pending send (lp_pending l) None (a\<lparr>ag_pending := []\<rparr>) (lp_net l) = (r, a1, n1)"
    by (metis surj_pair)
  obtain ms st' where m: "SnapshotMetrics gks cks (lp_store l) = (ms, st')" by fastforce
  have r: "r = None" using rep p ag by (auto simp: ReportOnce_def takePending_def Let_def split: if_splits)
  have "set (lp_pending l) \<subseteq> set ?made" using loop_ok_set [OF ok(1)] by auto
  from report_pending_synced [OF send sb0 _ this p] sv r
  have y: "synced n0 ?made n1" "received (lp_net l) \<subseteq> received n1" "ag_store a1 = lp_store l" "ag_pending a1 = []"
    "\<forall>b \<in> set (lp_pending l). batch_ID b \<in> received n1"
    by (auto simp: server_ok_def ag)
  have all: "\<forall>b \<in> set ?made. batch_ID b \<in> received n1"
    using quiescent_places [OF ok(1) run(2)] y(2,5) sv by (auto simp: server_ok_def)
  have cnt: "map_get0 (st_counters (lp_store l)) c + made_delta c ?made = map_get0 (st_counters st) c + polled c (lp_polls l)"
    using ok(2) by (simp add: counts_ok_def)
  have delta: "batch_delta c ms = map_get0 (st_counters (lp_store l)) c"
    using SnapshotMetrics_complete(2) [OF ord m] .
  show ?thesis
  proof (cases "ms = []")
    case True
    then have "a' = a1\<lparr>ag_store := st'\<rparr>" "n' = n1"
      using rep p m r y(3) ag by (auto simp: ReportOnce_def takePending_def)
    moreover have "map_get0 (st_counters (lp_store l)) c = 0" using delta True by simp
    ultimately show ?thesis
      using y(1,4) cnt sum_all_received [OF sb0 all, of c] by (simp add: synced_def)
  next
    case False
    let ?b = "New_Batch i ms"
    let ?all = "?made @ [?b]"
    have s: "send ?b n1 = (None, n')" "a' = a1\<lparr>ag_store := st'\<rparr>"
      using rep p m r y(3) ag False by (auto simp: ReportOnce_def takePending_def Let_def split: prod.splits option.splits)
    have new: "batch_ID ?b \<notin> received n1" using y(1) fresh(2,3) by (auto simp: synced_def)
    have sb: "sendable ?all" using sb0 fresh(1,2) False rand_text_ValidKey fit m by (auto simp: sendable_def)
    note at = implementsD [OF send s(1)]
    have "synced n0 ?all n'" using synced_att [OF synced_new [OF y(1) new] sb _ at] by simp
    moreover have "\<forall>b \<in> set ?all. batch_ID b \<in> received n'"
      using all received_mono [OF synced_ok [OF y(1)] at] att_ack [OF synced_ok [OF y(1)] at] sb by (auto simp: sendable_def)
    ultimately have "counter_of n' c = counter_of n0 c + made_delta c ?all"
      using sum_all_received [OF sb, of n' c] by (simp add: synced_def)
    with cnt delta s(2) y(4) show ?thesis by (simp add: made_delta_def add.commute)
  qed
qed

end

end
