(* ===== verification/Grpc_Link.thy ===== *)
theory Grpc_Link
  imports Grpc_Api Agent_Server
begin

text \<open>
  The agent's gRPC transport connected to the server: \<open>sendBatch\<close> with its retries, \<open>Client.SendBatch\<close>,
  a network that may lose the request or the reply of every call, \<open>metricsServer.UpdateMetrics\<close> and a
  service with a deduplicating storage. The result is an instance of \<open>metrics_server\<close>.
\<close>

section \<open>The network\<close>

text \<open>The server's state and the fate of the next calls (as for database calls: delivered, lost on the
  way, or processed with the reply lost).\<close>

record 'w net =
  nt_server :: 'w
  nt_fates :: "outcome list"

definition grpc_call ::
  "(string \<Rightarrow> Metrics list \<Rightarrow> 'w \<Rightarrow> (bool \<times> gerr) \<times> 'w) \<Rightarrow> 'w observer option \<Rightarrow> int64 \<Rightarrow> nat option \<Rightarrow> 'w net rpc" where
  "grpc_call once aud now ctx md req n =
     (let (fate, fs) = next_outcome (nt_fates n);
          (err, w) = Grpc_UpdateMetrics once aud now ctx md (Some req) (nt_server n)
      in case fate of
           Good \<Rightarrow> (err, \<lparr>nt_server = w, nt_fates = fs\<rparr>)
         | Lost e \<Rightarrow> (Some e, n\<lparr>nt_fates := fs\<rparr>)
         | Unacked e \<Rightarrow> (Some e, \<lparr>nt_server = w, nt_fates = fs\<rparr>))"

text \<open>The agent's sender, and what one call of it or of one attempt may do, for any fate of the calls.\<close>

definition grpc_send ::
  "(string \<Rightarrow> Metrics list \<Rightarrow> 'w \<Rightarrow> (bool \<times> gerr) \<times> 'w) \<Rightarrow> 'w observer option \<Rightarrow> int64 \<Rightarrow> nat option \<Rightarrow> 'w net batch_sender" where
  "grpc_send once aud now ctx b n =
     (if batch_Metrics b = [] then (None, n)
      else DoWithSleeper (SendBatch (grpc_call once aud now ctx) b) isRetriableSendError (\<lambda>_ s. s) n)"

definition grpc_attempt ::
  "(string \<Rightarrow> Metrics list \<Rightarrow> 'w \<Rightarrow> (bool \<times> gerr) \<times> 'w) \<Rightarrow> 'w observer option \<Rightarrow> Batch \<Rightarrow> 'w net \<Rightarrow> gerr \<Rightarrow> 'w net \<Rightarrow> bool" where
  "grpc_attempt once aud b n e n' \<longleftrightarrow>
     (\<exists>fs now ctx. SendBatch (grpc_call once aud now ctx) b (n\<lparr>nt_fates := fs\<rparr>) = (e, n')
                 \<or> grpc_send once aud now ctx b (n\<lparr>nt_fates := fs\<rparr>) = (e, n'))"

text \<open>The sender of the final report is such an attempt.\<close>

lemma grpc_attempt_send: "grpc_attempt once aud b n (fst (grpc_send once aud now ctx b n)) (snd (grpc_send once aud now ctx b n))"
proof -
  have "grpc_send once aud now ctx b (n\<lparr>nt_fates := nt_fates n\<rparr>) = (fst (grpc_send once aud now ctx b n), snd (grpc_send once aud now ctx b n))"
    by simp
  then show ?thesis unfolding grpc_attempt_def by blast
qed

lemma sendBatch_grpc:
  "ag_sender a = Some (SendBatch (grpc_call once aud now ctx)) \<Longrightarrow> ag_retrySleep a = (\<lambda>_ s. s) \<Longrightarrow>
   sendBatch lib wl env a b n = grpc_send once aud now ctx b n"
  by (simp add: sendBatch_def grpc_send_def)

text \<open>Deltas survive the conversion, also those of metrics that carry more fields than needed.\<close>

lemma item_delta:
  assumes "to_item m = Inr i" "from_item (Some i) = Inr m'"
  shows "metric_delta c m' = metric_delta c m"
proof -
  consider v where "MType m = Gauge" "i = \<lparr>pb_Id = ID m, pb_Type = Metric_GAUGE, pb_Delta = 0, pb_Value = v\<rparr>"
    | d where "MType m = Counter" "Delta m = Some d" "i = \<lparr>pb_Id = ID m, pb_Type = Metric_COUNTER, pb_Delta = d, pb_Value = 0\<rparr>"
    using assms(1) by (auto simp: to_item_def Let_def split: if_splits option.splits)
  then show ?thesis
  proof cases
    case 1
    then have "m' = gauge_metric (ID m) v" using assms(2) by (auto simp: from_item_def split: if_splits)
    with 1 show ?thesis by (simp add: metric_delta_def [of c m] Counter_def Gauge_def)
  next
    case 2
    then have "m' = counter_metric (ID m) d" using assms(2) by (auto simp: from_item_def split: if_splits)
    with 2 show ?thesis by (simp add: metric_delta_def [of c m])
  qed
qed

lemma to_items_Cons:
  assumes "to_items (m # ms) = Inr its" "from_items its = Inr ms'"
  obtains i its1 m' ms1 where "to_item m = Inr i" "to_items ms = Inr its1" "from_item (Some i) = Inr m'"
    "from_items its1 = Inr ms1" "ms' = m' # ms1"
  using assms by (auto split: sum.splits)

text \<open>Names and types survive it too.\<close>

definition typed_metrics :: "(string \<Rightarrow> string \<Rightarrow> bool) \<Rightarrow> Metrics list \<Rightarrow> bool" where
  "typed_metrics typed ms \<longleftrightarrow> list_all (\<lambda>m. typed (ID m) (MType m)) ms"

lemma typed_metrics_True [simp]: "typed_metrics (\<lambda>_ _. True) ms"
  by (simp add: typed_metrics_def list_all_iff)

lemma item_typed: "to_item m = Inr i \<Longrightarrow> from_item (Some i) = Inr m' \<Longrightarrow> ID m' = ID m \<and> MType m' = MType m"
  by (auto simp: to_item_def from_item_def Let_def split: if_splits option.splits)

lemma converted_typed:
  "to_items ms = Inr its \<Longrightarrow> from_items its = Inr ms' \<Longrightarrow> typed_metrics typed ms' = typed_metrics typed ms"
proof (induction ms arbitrary: its ms')
  case (Cons m ms)
  from Cons.prems show ?case
  proof (cases rule: to_items_Cons)
    case (1 i its1 m' ms1)
    with item_typed [OF 1(1,3)] Cons.IH [OF 1(2,4)] show ?thesis by (simp add: typed_metrics_def)
  qed
qed (auto simp: typed_metrics_def)

lemma converted_delta:
  assumes "to_items ms = Inr its" "from_items its = Inr ms'"
  shows "batch_delta c ms' = batch_delta c ms" "ms' = [] \<longleftrightarrow> ms = []"
proof -
  show "batch_delta c ms' = batch_delta c ms"
    using assms
  proof (induction ms arbitrary: its ms')
    case (Cons m ms)
    from Cons.prems show ?case
    proof (cases rule: to_items_Cons)
      case (1 i its1 m' ms1)
      with item_delta [OF 1(1,3)] Cons.IH [OF 1(2,4)] show ?thesis by simp
    qed
  qed simp
  show "ms' = [] \<longleftrightarrow> ms = []"
  proof (cases ms)
    case (Cons m ms1)
    with assms show ?thesis using to_items_Cons [of m ms1 its ms' "ms' \<noteq> []"] by blast
  qed (use assms in auto)
qed

section \<open>The service behind the method\<close>

locale keyed_service =
  fixes once :: "string \<Rightarrow> Metrics list \<Rightarrow> 'w \<Rightarrow> (bool \<times> gerr) \<times> 'w"
    and received_w :: "'w \<Rightarrow> string set"
    and counter_w :: "'w \<Rightarrow> string \<Rightarrow> int64"
    and aud :: "'w observer option"
    and ok_w :: "'w \<Rightarrow> bool"
    and typed :: "string \<Rightarrow> string \<Rightarrow> bool"
  assumes once_ok: "ok_w w \<Longrightarrow> typed_metrics typed ms \<Longrightarrow> ValidKey k \<Longrightarrow> ms \<noteq> [] \<Longrightarrow> once k ms w = (res, w') \<Longrightarrow> ok_w w'"
    and once_effect: "ok_w w \<Longrightarrow> typed_metrics typed ms \<Longrightarrow> ValidKey k \<Longrightarrow> ms \<noteq> [] \<Longrightarrow> once k ms w = (res, w') \<Longrightarrow>
      received_w w' = received_w w \<and> counter_w w' = counter_w w
      \<or> k \<notin> received_w w \<and> received_w w' = insert k (received_w w)
        \<and> (\<forall>c. counter_w w' c = counter_w w c + batch_delta c ms)"
    and once_stored: "ValidKey k \<Longrightarrow> ms \<noteq> [] \<Longrightarrow> once k ms w = ((a, None), w') \<Longrightarrow> k \<in> received_w w'"
    and aud_inert: "aud = Some f \<Longrightarrow> received_w (snd (f ev w)) = received_w w \<and> counter_w (snd (f ev w)) = counter_w w
      \<and> ok_w (snd (f ev w)) = ok_w w"
begin

text \<open>What a batch with metrics \<open>ms\<close> under the key \<open>k\<close> may do to the server's state, in one attempt or several.\<close>

definition keyed_effect :: "string \<Rightarrow> Metrics list \<Rightarrow> 'w \<Rightarrow> 'w \<Rightarrow> bool" where
  "keyed_effect k ms w w' \<longleftrightarrow> (ok_w w \<and> typed_metrics typed ms \<longrightarrow>
     ok_w w'
     \<and> (received_w w' = received_w w \<and> counter_w w' = counter_w w
        \<or> k \<notin> received_w w \<and> received_w w' = insert k (received_w w)
          \<and> (\<forall>c. counter_w w' c = counter_w w c + batch_delta c ms)))"

definition effect :: "Batch \<Rightarrow> 'w \<Rightarrow> 'w \<Rightarrow> bool" where
  "effect b = keyed_effect (batch_ID b) (batch_Metrics b)"

lemma keyed_effect_once: "ValidKey k \<Longrightarrow> ms \<noteq> [] \<Longrightarrow> once k ms w = (res, w') \<Longrightarrow> keyed_effect k ms w w'"
  using once_ok [of w ms k res w'] once_effect [of w ms k res w'] by (simp add: keyed_effect_def)

lemma keyed_effect_inert:
  assumes "keyed_effect k ms w w1" "received_w w' = received_w w1 \<and> counter_w w' = counter_w w1 \<and> ok_w w' = ok_w w1"
  shows "keyed_effect k ms w w'"
  using assms by (simp add: keyed_effect_def)

lemma effectD:
  assumes "effect b w w'" "ok_w w" "typed_metrics typed (batch_Metrics b)"
  shows "ok_w w'" "received_w w' = received_w w \<and> counter_w w' = counter_w w
     \<or> batch_ID b \<notin> received_w w \<and> received_w w' = insert (batch_ID b) (received_w w)
       \<and> (\<forall>c. counter_w w' c = counter_w w c + batch_delta c (batch_Metrics b))"
  using assms by (simp_all add: effect_def keyed_effect_def)

lemma effect_refl: "effect b w w" "keyed_effect k ms w w"
  by (simp_all add: effect_def keyed_effect_def)

lemma effect_trans: "effect b u v \<Longrightarrow> effect b v w \<Longrightarrow> effect b u w"
  by (auto simp: effect_def keyed_effect_def)

text \<open>One call of the server method with a key and items.\<close>

lemma method_effect:
  assumes "ValidKey k" "md ''idempotency-key'' = [k]" "Grpc_UpdateMetrics once aud now ctx md (Some its) w = (e, w')"
    and "from_items its = Inr ms" "ms \<noteq> []"
  shows "keyed_effect k ms w w' \<and> (e = None \<longrightarrow> k \<in> received_w w')"
proof (cases ctx)
  case (Some c)
  with assms show ?thesis by (auto simp: Grpc_UpdateMetrics_def request_key_def effect_refl)
next
  case None
  obtain a err w1 where o: "once k ms w = ((a, err), w1)" by (metis surj_pair)
  note eff = keyed_effect_once [OF assms(1,5) o]
  show ?thesis
  proof (cases err)
    case (Some x)
    with assms None o have "w' = w1" "e \<noteq> None" by (auto simp: Grpc_UpdateMetrics_def request_key_def)
    with eff show ?thesis by auto
  next
    case ok: None
    have i: "received_w w' = received_w w1 \<and> counter_w w' = counter_w w1 \<and> ok_w w' = ok_w w1"
    proof (cases aud)
      case (Some f)
      with assms None o ok have "w' = w1 \<or> (\<exists>ev. w' = snd (f ev w1))"
        by (auto simp: Grpc_UpdateMetrics_def request_key_def split: if_splits)
      with aud_inert [OF Some] show ?thesis by auto
    next
      case n: None
      with assms None o ok show ?thesis by (simp add: Grpc_UpdateMetrics_def request_key_def)
    qed
    with keyed_effect_inert [OF eff i] once_stored [OF assms(1,5) o [unfolded ok]] show ?thesis by simp
  qed
qed

lemma call_effect:
  assumes "ValidKey (batch_ID b)" "to_items (batch_Metrics b) = Inr its" "batch_Metrics b \<noteq> []"
    and "grpc_call once aud now ctx (no_metadata(''idempotency-key'' := [batch_ID b])) its n = (e, n')"
  shows "effect b (nt_server n) (nt_server n') \<and> (e = None \<longrightarrow> batch_ID b \<in> received_w (nt_server n'))"
proof -
  let ?md = "no_metadata(''idempotency-key'' := [batch_ID b])"
  obtain err w where g: "Grpc_UpdateMetrics once aud now ctx ?md (Some its) (nt_server n) = (err, w)" by fastforce
  have m: "effect b (nt_server n) w \<and> (err = None \<longrightarrow> batch_ID b \<in> received_w w)"
  proof (cases "from_items its")
    case (Inl x)
    with g assms(1) have "err = Some x" "w = nt_server n" by (simp_all add: Grpc_UpdateMetrics_def request_key_def)
    then show ?thesis by (simp add: effect_refl)
  next
    case (Inr ms)
    note d = converted_delta [OF assms(2) Inr]
    from method_effect [OF assms(1) _ g Inr] d(2) assms(3) converted_typed [OF assms(2) Inr, of typed] show ?thesis
      by (simp add: effect_def keyed_effect_def d(1))
  qed
  obtain fate fs where "next_outcome (nt_fates n) = (fate, fs)" by fastforce
  with assms(4) g m show ?thesis by (cases fate) (auto simp: grpc_call_def effect_refl)
qed

lemma SendBatch_effect:
  assumes "SendBatch (grpc_call once aud now ctx) b n = (e, n')"
  shows "effect b (nt_server n) (nt_server n')
     \<and> (e = None \<longrightarrow> batch_Metrics b = [] \<or> batch_ID b \<in> received_w (nt_server n'))"
proof (cases "batch_Metrics b = [] \<or> \<not> ValidKey (batch_ID b)")
  case True
  with assms show ?thesis by (auto simp: SendBatch_def effect_refl split: if_splits)
next
  case False
  show ?thesis
  proof (cases "to_items (batch_Metrics b)")
    case (Inl x)
    with assms False show ?thesis by (auto simp: SendBatch_def effect_refl)
  next
    case (Inr its)
    obtain e1 n1 where c: "grpc_call once aud now ctx (no_metadata(''idempotency-key'' := [batch_ID b])) its n = (e1, n1)"
      by fastforce
    with assms False Inr have "n' = n1" "e = None \<longleftrightarrow> e1 = None" by (auto simp: SendBatch_def split: option.splits)
    with call_effect [OF _ Inr _ c] False show ?thesis by simp
  qed
qed

end

sublocale keyed_service \<subseteq> sending: retried "SendBatch (grpc_call once aud now ctx) b" "\<lambda>_ s. s"
  "\<lambda>n n'. effect b (nt_server n) (nt_server n')" "\<lambda>n. batch_Metrics b = [] \<or> batch_ID b \<in> received_w (nt_server n)"
  for now ctx b
proof unfold_locales
  fix n
  show "effect b (nt_server n) (nt_server (snd (SendBatch (grpc_call once aud now ctx) b n)))"
    using SendBatch_effect [of now ctx b n] by (metis prod.collapse)
qed (use SendBatch_effect in \<open>auto intro: effect_refl effect_trans\<close>)

context keyed_service
begin

lemma grpc_send_effect:
  assumes "grpc_send once aud now ctx b n = (e, n')"
  shows "effect b (nt_server n) (nt_server n')
     \<and> (e = None \<longrightarrow> batch_Metrics b = [] \<or> batch_ID b \<in> received_w (nt_server n'))"
proof (cases "batch_Metrics b = []")
  case True
  with assms show ?thesis by (simp add: grpc_send_def effect_refl)
next
  case False
  with assms have d: "DoWithSleeper (SendBatch (grpc_call once aud now ctx) b) isRetriableSendError (\<lambda>_ s. s) n = (e, n')"
    by (simp add: grpc_send_def)
  from sending.DoWithSleeper_keeps [where shouldRetry = isRetriableSendError and s = n and now = now and ctx = ctx and b = b]
    sending.DoWithSleeper_post [where shouldRetry = isRetriableSendError and s = n and now = now and ctx = ctx and b = b] d
  show ?thesis by auto
qed

lemma attempt_effect:
  assumes "grpc_attempt once aud b n e n'"
  shows "effect b (nt_server n) (nt_server n')
     \<and> (e = None \<longrightarrow> batch_Metrics b = [] \<or> batch_ID b \<in> received_w (nt_server n'))"
  using assms unfolding grpc_attempt_def by (auto dest!: SendBatch_effect grpc_send_effect)

end

sublocale keyed_service \<subseteq> server: metrics_server "grpc_attempt once aud" "\<lambda>n. received_w (nt_server n)" "\<lambda>n. counter_w (nt_server n)"
  "\<lambda>b. typed_metrics typed (batch_Metrics b)" "\<lambda>n. ok_w (nt_server n)"
proof unfold_locales
  fix b n e n'
  assume a: "ok_w (nt_server n)" "grpc_attempt once aud b n e n'" "typed_metrics typed (batch_Metrics b)"
  note eff = effectD [OF _ a(1,3), of "nt_server n'"]
  show "ok_w (nt_server n')" using eff(1) attempt_effect [OF a(2)] by simp
  show "received_w (nt_server n') = received_w (nt_server n) \<and> counter_w (nt_server n') = counter_w (nt_server n)
     \<or> batch_ID b \<notin> received_w (nt_server n) \<and> received_w (nt_server n') = insert (batch_ID b) (received_w (nt_server n))
       \<and> (\<forall>c. counter_w (nt_server n') c = counter_w (nt_server n) c + batch_delta c (batch_Metrics b))"
    using eff(2) attempt_effect [OF a(2)] by simp
qed (use attempt_effect in blast)

end
