(* ===== verification/Http_Link.thy ===== *)
theory Http_Link
  imports Server_Stack Grpc_Link
begin

text \<open>
  The agent's HTTP transport connected to the server: \<open>sendBatch\<close> with compression, signature, encryption
  and retries, \<open>http.Client\<close> over a network that may lose the request or the response of every call, the
  middleware, \<open>UpdateMetricsJSON\<close> and a service with a deduplicating storage. The result is an instance of
  \<open>metrics_server\<close>, as for gRPC.
\<close>

section \<open>The agent's request in the server's middleware\<close>

definition gzip_ok :: "wirelib \<Rightarrow> bool" where
  "gzip_ok wl \<longleftrightarrow> (\<forall>b. gunzip_stream wl (gzip_bytes wl b) False = Some (b, False))"

text \<open>An agent that encrypts uses the public key of the server's private key.\<close>

definition keys_match :: "wirelib \<Rightarrow> PrivateKey option \<Rightarrow> PublicKey option \<Rightarrow> bool" where
  "keys_match wl priv pub \<longleftrightarrow>
     pub = None \<or> (\<exists>sk. priv = Some sk \<and> pub = Some (sk_PublicKey sk) \<and> oaep_ok wl sk \<and> gcm_ok wl)"

lemma canon_names [simp]:
  "canon delivery_Header = ''Idempotency-Key''" "canon encryption_Header = ''X-Metrics-Encryption''"
  "canon signature_Header = ''Hashsha256''" "canon ''X-Real-IP'' = ''X-Real-Ip''" "canon ''Content-Type'' = ''Content-Type''"
  "canon ''Content-Encoding'' = ''Content-Encoding''" "canon ''Accept-Encoding'' = ''Accept-Encoding''"
  "canon ''Content-Length'' = ''Content-Length''"
  by code_simp+

lemma gzip_token: "headerContainsToken ''gzip'' ''gzip''"
  by (simp add: headerContainsToken_def fold_name_def lower_char_def TrimSpace_def is_space_def)

definition agent_request :: "send_env \<Rightarrow> 'n Agent \<Rightarrow> bytes \<Rightarrow> string \<Rightarrow> string \<Rightarrow> http_request" where
  "agent_request env a payload hash i = withRealIP (se_ip env) (post_request a payload hash i)"

lemma agent_request_simps:
  "header_Values (hr_Header (agent_request env a payload hash i)) delivery_Header = [i]"
  "header_Get (hr_Header (agent_request env a payload hash i)) ''Content-Encoding'' = ''gzip''"
  "header_Get (hr_Header (agent_request env a payload hash i)) encryption_Header = (if ag_publicKey a = None then [] else Algorithm)"
  "hr_Body (agent_request env a payload hash i) = payload" "\<not> hr_BodyErr (agent_request env a payload hash i)"
  by (auto simp: agent_request_def withRealIP_def post_request_def Let_def split: option.split)

lemma http_payload_cases:
  assumes "http_payload lib wl env a ms = Inr (payload, hash)"
  obtains (plain) j where "json_of_batch lib ms = Some j" "ag_publicKey a = None" "payload = gzip_bytes wl (json_print j)"
  | (encrypted) j k where "json_of_batch lib ms = Some j" "ag_publicKey a = Some k"
      "Encrypt wl (se_rand env) (Some k) (gzip_bytes wl (json_print j)) = Inr payload"
  using assms that by (auto simp: http_payload_def Let_def split: option.splits sum.splits)

text \<open>A request of the agent is refused by a layer or reaches the handler with the JSON text it was made from.\<close>

lemma admit_agent_request:
  assumes p: "http_payload lib wl env a ms = Inr (payload, hash)"
    and ok: "gzip_ok wl" "keys_match wl priv (ag_publicKey a)" "rnd_ok (se_rand env)"
    and r: "r = (agent_request env a payload hash i)\<lparr>hr_RemoteAddr := peer\<rparr>"
    and adm: "admit lib wl key priv subnet r = Inr r'"
  shows "\<exists>j. json_of_batch lib ms = Some j \<and> hr_Body r' = json_print j \<and> \<not> hr_BodyErr r'
     \<and> header_Values (hr_Header r') delivery_Header = [i] \<and> hr_RemoteAddr r' = peer"
proof -
  from adm obtain r1 r2 where a: "admit_subnet subnet r = Inr r" "admit_decrypt wl priv r = Inr r1" "admit_gzip wl r1 = Inr r2" "r' = r2"
    by (auto simp: admit_def and_then_def admit_subnet_def admit_hash_def split: sum.splits if_splits)
  obtain j where j: "json_of_batch lib ms = Some j" and r1: "hr_Body r1 = gzip_bytes wl (json_print j)" "\<not> hr_BodyErr r1"
    "header_Values (hr_Header r1) delivery_Header = [i]" "header_Get (hr_Header r1) ''Content-Encoding'' = ''gzip''"
    "hr_RemoteAddr r1 = peer"
    using p
  proof (cases rule: http_payload_cases)
    case (plain j)
    with a(2) r have "r1 = r" by (simp add: admit_decrypt_def agent_request_simps)
    with plain r that [of j] show ?thesis by (simp add: agent_request_simps)
  next
    case (encrypted j k)
    with ok(2) obtain sk where sk: "priv = Some sk" "k = sk_PublicKey sk" "oaep_ok wl sk" "gcm_ok wl"
      by (auto simp: keys_match_def)
    from Decrypt_Encrypt [OF sk(3,4) ok(3)] encrypted(3) sk(2)
    have "Decrypt wl (Some sk) payload = Some (Inr (gzip_bytes wl (json_print j)))" by simp
    with a(2) r encrypted sk(1) have "r1 = r\<lparr>hr_Body := gzip_bytes wl (json_print j), hr_BodyErr := False,
        hr_Header := header_Del encryption_Header (header_Del ''Content-Length'' (hr_Header r))\<rparr>"
      by (auto simp: admit_decrypt_def agent_request_simps Algorithm_def split: if_splits)
    with encrypted r that [of j] show ?thesis by (simp add: agent_request_simps)
  qed
  have "gunzip_stream wl (gzip_bytes wl (json_print j)) False = Some (json_print j, False)"
    using ok(1) by (simp add: gzip_ok_def)
  with a(3) r1 gzip_token have "r2 = r1\<lparr>hr_Body := json_print j, hr_BodyErr := False\<rparr>"
    by (auto simp: admit_gzip_def)
  with j r1 a(4) show ?thesis by simp
qed


section \<open>One request at the server\<close>

text \<open>\<open>POST /updates/\<close>, which the router sends to \<open>UpdateMetricsJSON\<close>, behind the middleware; a server whose
  stack cannot be built does not answer.\<close>

definition http_serve ::
  "golib \<Rightarrow> wirelib \<Rightarrow> string \<Rightarrow> PrivateKey option \<Rightarrow> string \<Rightarrow> 'w MetricsHandler \<Rightarrow> http_env \<Rightarrow> 'w serve" where
  "http_serve lib wl key priv trusted h env =
     (case server_stack lib wl key priv trusted (serve_handler (UpdateMetricsJSON lib env h)) of
        Inl e \<Rightarrow> (\<lambda>r w s. None) | Inr serve \<Rightarrow> serve)"

text \<open>
  \<open>http.Client.Do\<close> over a network that may lose the request or the response. A panic of a handler closes the
  connection without a response. Because the request carries an \<open>Idempotency-Key\<close>, Go's transport may replay it
  after a connection error, here up to \<open>k\<close> times. \<open>peer\<close> is the address the server sees.
\<close>

definition http_once :: "string \<Rightarrow> 'w serve \<Rightarrow> 'w net http_client" where
  "http_once peer serve req n =
     (let (fate, fs) = next_outcome (nt_fates n); n1 = n\<lparr>nt_fates := fs\<rparr>
      in case fate of
           Lost e \<Rightarrow> (Inl e, n1)
         | _ \<Rightarrow>
           (case respond serve (req\<lparr>hr_RemoteAddr := peer\<rparr>) (nt_server n) of
              None \<Rightarrow> (Inl (Sentinel ''EOF''), n1)
            | Some (resp, w) \<Rightarrow>
                (case fate of Unacked e \<Rightarrow> Inl e | _ \<Rightarrow> Inr (final_status resp), n1\<lparr>nt_server := w\<rparr>)))"

fun http_do :: "nat \<Rightarrow> string \<Rightarrow> 'w serve \<Rightarrow> 'w net http_client" where
  "http_do 0 peer serve req n = http_once peer serve req n"
| "http_do (Suc k) peer serve req n =
     (case http_once peer serve req n of (Inl e, n') \<Rightarrow> http_do k peer serve req n' | done \<Rightarrow> done)"

text \<open>What library and configuration must satisfy for the link to work, and that it carries a batch unchanged.\<close>

definition link_ok :: "golib \<Rightarrow> wirelib \<Rightarrow> PrivateKey option \<Rightarrow> PublicKey option \<Rightarrow> bool" where
  "link_ok lib wl priv pub \<longleftrightarrow> float_text_ok lib \<and> gzip_ok wl \<and> keys_match wl priv pub"

definition carries :: "golib \<Rightarrow> wirelib \<Rightarrow> PrivateKey option \<Rightarrow> PublicKey option \<Rightarrow> Batch \<Rightarrow> bool" where
  "carries lib wl priv pub b \<longleftrightarrow> link_ok lib wl priv pub \<and> list_all utf8_metric (batch_Metrics b)"

text \<open>An agent that sends over HTTP to this server.\<close>

definition http_agent :: "(http_env \<Rightarrow> 'w serve) \<Rightarrow> string \<Rightarrow> PublicKey option \<Rightarrow> 'w net Agent \<Rightarrow> bool" where
  "http_agent serve akey pub a \<longleftrightarrow> ag_sender a = None \<and> ag_key a = akey \<and> ag_publicKey a = pub \<and> ag_retrySleep a = (\<lambda>_ s. s)
     \<and> (\<exists>k peer henv. ag_client a = http_do k peer (serve henv))"

definition http_attempt ::
  "golib \<Rightarrow> wirelib \<Rightarrow> (http_env \<Rightarrow> 'w serve) \<Rightarrow> string \<Rightarrow> PublicKey option \<Rightarrow> Batch \<Rightarrow> 'w net \<Rightarrow> gerr \<Rightarrow> 'w net \<Rightarrow> bool" where
  "http_attempt lib wl serve akey pub b n e n' \<longleftrightarrow>
     (\<exists>a fs env. http_agent serve akey pub a \<and> rnd_ok (se_rand env)
        \<and> (sendBatch lib wl env a b (n\<lparr>nt_fates := fs\<rparr>) = (e, n')
           \<or> (\<exists>payload hash. http_payload lib wl env a (batch_Metrics b) = Inr (payload, hash)
                \<and> sendCompressedMetrics env a payload hash (batch_ID b) (n\<lparr>nt_fates := fs\<rparr>) = (e, n'))))"

text \<open>The sender of the final report is such an attempt.\<close>

lemma http_attempt_send:
  assumes "http_agent serve akey pub a" "rnd_ok (se_rand env)" "send b n = sendBatch lib wl env a b n"
  shows "http_attempt lib wl serve akey pub b n (fst (send b n)) (snd (send b n))"
proof -
  have "sendBatch lib wl env a b (n\<lparr>nt_fates := nt_fates n\<rparr>) = (fst (send b n), snd (send b n))" using assms(3) by simp
  with assms(1,2) show ?thesis unfolding http_attempt_def by blast
qed

locale http_service = keyed_service "Svc_UpdateMetricsOnce lib svc" received_w counter_w aud ok_w typed
  for lib :: golib and svc :: "'w MetricsService" and received_w counter_w aud ok_w typed
begin

abbreviation handler :: "('w \<Rightarrow> gerr \<times> 'w) option option \<Rightarrow> 'w MetricsHandler" where
  "handler db \<equiv> \<lparr>h_service = svc, h_db = db, h_auditor = aud\<rparr>"

lemma audit_inert:
  "received_w (handler_audit env (handler db) r names w) = received_w w \<and> counter_w (handler_audit env (handler db) r names w) = counter_w w
   \<and> ok_w (handler_audit env (handler db) r names w) = ok_w w"
  using aud_inert by (auto simp: handler_audit_def split: option.split)

text \<open>The batch endpoint on a request with the key and the document of a batch.\<close>

lemma endpoint_effect:
  assumes u: "UpdateMetricsJSON lib henv (handler db) r w = (resp, w')"
    and r: "request_json r = Some j" "batch_of_json lib j = Some (batch_Metrics b)"
      "header_Values (hr_Header r) delivery_Header = [batch_ID b]"
    and b: "ValidKey (batch_ID b)" "batch_Metrics b \<noteq> []"
  shows "effect b w w' \<and> (final_status resp = 200 \<longrightarrow> batch_ID b \<in> received_w w')"
proof -
  let ?ms = "batch_Metrics b"
  have k: "key_of r = Some (batch_ID b)" using r(3) b(1) by (simp add: key_of_def)
  show ?thesis
  proof (cases "validate_all ?ms = StatusOK")
    case False
    with validate_all_range [of ?ms] have "validate_all ?ms \<noteq> 200" by simp
    with u r(1,2) have "w' = w" "final_status resp \<noteq> 200" by (auto simp: UpdateMetricsJSON_def)
    then show ?thesis by (simp add: effect_refl)
  next
    case True
    obtain a e w1 where o: "Svc_UpdateMetricsOnce lib svc (batch_ID b) ?ms w = ((a, e), w1)" by (metis surj_pair)
    note eff = keyed_effect_once [OF b o]
    show ?thesis
    proof (cases e)
      case (Some x)
      with u r(1,2) True k o have "w' = w1" "final_status resp \<noteq> 200"
        by (auto simp: UpdateMetricsJSON_def storeBatch_cases split: if_splits)
      with eff show ?thesis by (simp add: effect_def)
    next
      case None
      with u r(1,2) True k o have "w' = (if a then handler_audit henv (handler db) r (map ID ?ms) w1 else w1)"
        by (auto simp: UpdateMetricsJSON_def storeBatch_cases)
      then have i: "received_w w' = received_w w1 \<and> counter_w w' = counter_w w1 \<and> ok_w w' = ok_w w1" using audit_inert by simp
      with keyed_effect_inert [OF eff i] once_stored [OF b o [unfolded None]] show ?thesis by (simp add: effect_def)
    qed
  qed
qed

lemma respond_effect:
  assumes c: "carries lib wl priv (ag_publicKey a) b" "rnd_ok (se_rand env)" "ValidKey (batch_ID b)" "batch_Metrics b \<noteq> []"
    and p: "http_payload lib wl env a (batch_Metrics b) = Inr (payload, hash)"
    and q: "req = (agent_request env a payload hash (batch_ID b))\<lparr>hr_RemoteAddr := peer\<rparr>"
    and s: "respond (http_serve lib wl key priv trusted (handler db) henv) req w = Some (resp, w')"
  shows "effect b w w' \<and> (final_status resp = 200 \<longrightarrow> batch_ID b \<in> received_w w')"
proof -
  let ?h = "UpdateMetricsJSON lib henv (handler db)"
  obtain subnet where sn: "subnet_of ''parse trusted subnet'' trusted = Inr subnet"
    using s by (cases "subnet_of ''parse trusted subnet'' trusted")
      (auto simp: http_serve_def respond_def server_stack_def Http_TrustedSubnet_def subnet_of_def split: if_splits option.splits)
  obtain layer :: "'w serve \<Rightarrow> 'w serve" where l: "guards (admit lib wl key priv subnet) layer"
    "server_stack lib wl key priv trusted (serve_handler ?h) = Inr (layer (serve_handler ?h))"
    using server_stack_ok [OF sn, of lib wl key priv] by blast
  have s': "respond (layer (serve_handler ?h)) req w = Some (resp, w')" using s l(2) by (simp add: http_serve_def)
  show ?thesis
  proof (cases "admit lib wl key priv subnet req")
    case (Inl c)
    from answers_respond [OF guardsD(1) [OF l(1) Inl, of "serve_handler ?h" w]] s' have "w' = w \<and> final_status resp = c" by auto
    moreover have "c \<noteq> 200" using Inl admit_refuses by fastforce
    ultimately show ?thesis by (simp add: effect_refl)
  next
    case (Inr r')
    obtain resp1 w1 where h: "?h r' w = (resp1, w1)" by fastforce
    have "final_status resp1 = (if rs_Status resp1 = None then 200 else final_status resp1)" by (simp add: final_status_def)
    with answers_handler [of ?h r' w, OF h] have "answers (serve_handler ?h) r' w (final_status resp1) w1" by simp
    from answers_respond [OF guardsD(2) [OF l(1) Inr this]] s' have w1: "w' = w1 \<and> final_status resp = final_status resp1"
      by auto
    from c have lib: "float_text_ok lib" "gzip_ok wl" "keys_match wl priv (ag_publicKey a)"
      by (simp_all add: carries_def link_ok_def)
    from admit_agent_request [OF p lib(2,3) c(2) q Inr] obtain j where
      j: "json_of_batch lib (batch_Metrics b) = Some j" "hr_Body r' = json_print j" "\<not> hr_BodyErr r'"
        "header_Values (hr_Header r') delivery_Header = [batch_ID b]" by blast
    from batch_text [OF lib(1) j(1)] sanitize_utf8_batch c(1) j(2,3)
    have "request_json r' = Some (sanitize_json j)" "batch_of_json lib (sanitize_json j) = Some (batch_Metrics b)"
      by (simp_all add: request_json_def carries_def)
    from endpoint_effect [OF h this j(4) c(3,4)] w1 show ?thesis by simp
  qed
qed

lemma http_do_effect:
  assumes resp: "\<And>w resp w'. respond serve (req\<lparr>hr_RemoteAddr := peer\<rparr>) w = Some (resp, w') \<Longrightarrow>
      effect b w w' \<and> (final_status resp = 200 \<longrightarrow> batch_ID b \<in> received_w w')"
  shows "http_do k peer serve req n = (res, n') \<Longrightarrow>
    effect b (nt_server n) (nt_server n') \<and> (res = Inr 200 \<longrightarrow> batch_ID b \<in> received_w (nt_server n'))"
proof -
  have one: "effect b (nt_server n) (nt_server n') \<and> (res = Inr 200 \<longrightarrow> batch_ID b \<in> received_w (nt_server n'))"
    if o: "http_once peer serve req n = (res, n')" for res n n'
  proof -
    obtain fate fs where f: "next_outcome (nt_fates n) = (fate, fs)" by fastforce
    show ?thesis
    proof (cases "respond serve (req\<lparr>hr_RemoteAddr := peer\<rparr>) (nt_server n)")
      case None
      with o f show ?thesis by (cases fate) (auto simp: http_once_def effect_refl)
    next
      case (Some x)
      then obtain rs w where x: "respond serve (req\<lparr>hr_RemoteAddr := peer\<rparr>) (nt_server n) = Some (rs, w)" by (cases x) auto
      with resp [OF x] o f show ?thesis by (cases fate) (auto simp: http_once_def effect_refl)
    qed
  qed
  show "effect b (nt_server n) (nt_server n') \<and> (res = Inr 200 \<longrightarrow> batch_ID b \<in> received_w (nt_server n'))"
    if "http_do k peer serve req n = (res, n')"
    using that
  proof (induction k arbitrary: n)
    case 0
    with one show ?case by simp
  next
    case (Suc k)
    obtain r1 n1 where o: "http_once peer serve req n = (r1, n1)" by fastforce
    show ?case
    proof (cases r1)
      case (Inl e)
      with Suc o have "http_do k peer serve req n1 = (res, n')" by simp
      from Suc.IH [OF this] one [OF o] effect_trans show ?thesis by blast
    next
      case (Inr c)
      with Suc.prems o one [OF o] show ?thesis by simp
    qed
  qed
qed

text \<open>One attempt of the agent, and a whole \<open>sendBatch\<close> with its retries.\<close>

lemma send_effect:
  assumes c: "carries lib wl priv pub b" "rnd_ok (se_rand env)" "ValidKey (batch_ID b)" "batch_Metrics b \<noteq> []"
    and a: "http_agent (http_serve lib wl key priv trusted (handler db)) akey pub a"
    and p: "http_payload lib wl env a (batch_Metrics b) = Inr (payload, hash)"
    and s: "sendCompressedMetrics env a payload hash (batch_ID b) n = (e, n')"
  shows "effect b (nt_server n) (nt_server n') \<and> (e = None \<longrightarrow> batch_ID b \<in> received_w (nt_server n'))"
proof -
  from a obtain k peer henv where cl: "ag_client a = http_do k peer (http_serve lib wl key priv trusted (handler db) henv)"
    and pub: "ag_publicKey a = pub" by (auto simp: http_agent_def)
  show ?thesis
  proof (cases "se_url_error env")
    case (Some x)
    with s show ?thesis by (auto simp: sendCompressedMetrics_def effect_refl)
  next
    case None
    let ?req = "agent_request env a payload hash (batch_ID b)"
    obtain res n1 where d: "http_do k peer (http_serve lib wl key priv trusted (handler db) henv) ?req n = (res, n1)" by fastforce
    note eff = http_do_effect [OF respond_effect [OF c(1) [folded pub] c(2-4) p refl] d]
    from s None d cl have "n' = n1" "e = None \<longrightarrow> res = Inr 200"
      by (auto simp: sendCompressedMetrics_def agent_request_def split: sum.splits if_splits)
    with eff show ?thesis by auto
  qed
qed

lemma http_attempt_effect:
  assumes c: "carries lib wl priv pub b" "ValidKey (batch_ID b)" "batch_Metrics b \<noteq> []"
    and at: "http_attempt lib wl (http_serve lib wl key priv trusted (handler db)) akey pub b n e n'"
  shows "effect b (nt_server n) (nt_server n') \<and> (e = None \<longrightarrow> batch_ID b \<in> received_w (nt_server n'))"
proof -
  from at obtain a fs env where a: "http_agent (http_serve lib wl key priv trusted (handler db)) akey pub a" "rnd_ok (se_rand env)"
    and s: "sendBatch lib wl env a b (n\<lparr>nt_fates := fs\<rparr>) = (e, n')
       \<or> (\<exists>payload hash. http_payload lib wl env a (batch_Metrics b) = Inr (payload, hash)
            \<and> sendCompressedMetrics env a payload hash (batch_ID b) (n\<lparr>nt_fates := fs\<rparr>) = (e, n'))"
    unfolding http_attempt_def by blast
  show ?thesis
  proof (cases "http_payload lib wl env a (batch_Metrics b)")
    case (Inl x)
    with s a(1) c(3) show ?thesis by (auto simp: sendBatch_def http_agent_def effect_refl)
  next
    case (Inr ph)
    then obtain payload hash where p: "http_payload lib wl env a (batch_Metrics b) = Inr (payload, hash)" by (cases ph) auto
    note one = send_effect [OF c(1) a(2) c(2,3) a(1) p]
    have "retried (sendCompressedMetrics env a payload hash (batch_ID b)) (\<lambda>_ s. s)
        (\<lambda>n n'. effect b (nt_server n) (nt_server n')) (\<lambda>n. batch_ID b \<in> received_w (nt_server n))"
    proof unfold_locales
      fix n
      show "effect b (nt_server n) (nt_server (snd (sendCompressedMetrics env a payload hash (batch_ID b) n)))"
        using one [of n "fst (sendCompressedMetrics env a payload hash (batch_ID b) n)"
            "snd (sendCompressedMetrics env a payload hash (batch_ID b) n)"] by simp
    qed (use one in \<open>auto intro: effect_refl effect_trans\<close>)
    note rt = retried.DoWithSleeper_keeps [OF this, of "n\<lparr>nt_fates := fs\<rparr>" isRetriableSendError]
      retried.DoWithSleeper_post [OF this, of isRetriableSendError "n\<lparr>nt_fates := fs\<rparr>"]
    from s show ?thesis
    proof (elim disjE exE conjE)
      assume "sendBatch lib wl env a b (n\<lparr>nt_fates := fs\<rparr>) = (e, n')"
      with a(1) c(3) p have "DoWithSleeper (sendCompressedMetrics env a payload hash (batch_ID b)) isRetriableSendError (\<lambda>_ s. s)
          (n\<lparr>nt_fates := fs\<rparr>) = (e, n')" by (simp add: sendBatch_def http_agent_def)
      with rt show ?thesis by auto
    next
      fix payload' hash' assume "http_payload lib wl env a (batch_Metrics b) = Inr (payload', hash')"
        "sendCompressedMetrics env a payload' hash' (batch_ID b) (n\<lparr>nt_fates := fs\<rparr>) = (e, n')"
      with p one [of "n\<lparr>nt_fates := fs\<rparr>" e n'] show ?thesis by simp
    qed
  qed
qed

end

sublocale http_service \<subseteq> http: metrics_server
  "http_attempt lib wl (http_serve lib wl key priv trusted \<lparr>h_service = svc, h_db = db, h_auditor = aud\<rparr>) akey pub"
  "\<lambda>n. received_w (nt_server n)" "\<lambda>n. counter_w (nt_server n)"
  "\<lambda>b. carries lib wl priv pub b \<and> typed_metrics typed (batch_Metrics b)" "\<lambda>n. ok_w (nt_server n)"
  for wl key priv trusted db akey pub
proof unfold_locales
  fix b n e n'
  let ?at = "http_attempt lib wl (http_serve lib wl key priv trusted \<lparr>h_service = svc, h_db = db, h_auditor = aud\<rparr>) akey pub b n"
  assume c: "carries lib wl priv pub b \<and> typed_metrics typed (batch_Metrics b)" "batch_Metrics b \<noteq> []" "ValidKey (batch_ID b)"
    and ok: "ok_w (nt_server n)"
  note eff = http_attempt_effect [OF conjunct1 [OF c(1)] c(3,2)]
  show "ok_w (nt_server n')" if "?at e n'"
    using effectD(1) [OF conjunct1 [OF eff [OF that]] ok conjunct2 [OF c(1)]] .
  show "received_w (nt_server n') = received_w (nt_server n) \<and> counter_w (nt_server n') = counter_w (nt_server n)
     \<or> batch_ID b \<notin> received_w (nt_server n) \<and> received_w (nt_server n') = insert (batch_ID b) (received_w (nt_server n))
       \<and> (\<forall>c. counter_w (nt_server n') c = counter_w (nt_server n) c + batch_delta c (batch_Metrics b))" if "?at e n'"
    using effectD(2) [OF conjunct1 [OF eff [OF that]] ok conjunct2 [OF c(1)]] .
  show "batch_ID b \<in> received_w (nt_server n')" if "?at None n'" using eff [OF that] by simp
qed

end
