(* ===== verification/Mem_Server.thy ===== *)
theory Mem_Server
  imports Grpc_Link
begin

text \<open>
  The server with in-memory storage as the receiving side of the agent: the service with and without
  synchronous saving, and the audit file, provide the interface \<open>keyed_service\<close>, so everything proved of
  the link holds for them.
\<close>

text \<open>The audit file observer on the files of the process.\<close>

definition mem_file_observer :: "audit_io \<Rightarrow> string \<Rightarrow> mem_world observer" where
  "mem_file_observer io apath ev w =
     (let (err, fs') = FileObserver_Notify io (NewFileObserver apath) ev (mw_fs w) in (err, w\<lparr>mw_fs := fs'\<rparr>))"

definition mem_received :: "mem_world \<Rightarrow> string set" where
  "mem_received w = dom (ms_receipts (mw_store w))"

definition mem_counter :: "mem_world \<Rightarrow> string \<Rightarrow> int64" where
  "mem_counter w c = map_get0 (ms_counters (mw_store w)) c"

lemma mem_observer_inert: "mw_store (snd (Notifier_Notify [mem_file_observer io apath] ev w)) = mw_store w"
  by (simp add: Notifier_Notify_def mem_file_observer_def split: prod.split)

text \<open>One keyed call of a service over the in-memory storage whose saves leave the storage alone.\<close>

lemma mem_once_effect:
  assumes "svc_repo s = mem_repository" "\<And>w. mw_store (snd (svc_save s w)) = mw_store w"
    and "ValidKey k" "ms \<noteq> []" "Svc_UpdateMetricsOnce lib s k ms w = ((a, e), w')"
  shows "(mem_received w' = mem_received w \<and> mem_counter w' = mem_counter w
      \<or> k \<notin> mem_received w \<and> mem_received w' = insert k (mem_received w)
        \<and> (\<forall>c. mem_counter w' c = mem_counter w c + batch_delta c ms))
    \<and> (e = None \<longrightarrow> k \<in> mem_received w')"
proof -
  have r: "rp_UpdateMetricsOnce (svc_repo s) = Some (\<lambda>k f ms. on_store (Mem_UpdateMetricsOnce k f ms))"
    by (simp add: assms(1) mem_repository_def)
  note call = assms(5) [unfolded Svc_UpdateMetricsOnce_keyed [OF assms(3,4) r]]
  show ?thesis
  proof (cases "Fingerprint lib ms")
    case (Inl x)
    with call show ?thesis by auto
  next
    case (Inr f)
    obtain a1 e1 s1 where o: "Mem_UpdateMetricsOnce k f ms (mw_store w) = ((a1, e1), s1)" by (metis surj_pair)
    have st: "mw_store w' = s1 \<and> (e1 \<noteq> None \<longrightarrow> e \<noteq> None)"
    proof (cases e1)
      case None
      with o have "on_store (Mem_UpdateMetricsOnce k f ms) w = ((a1, None), w\<lparr>mw_store := s1\<rparr>)" by simp
      with Inr call have "w' = snd (svc_save s (w\<lparr>mw_store := s1\<rparr>))" by (auto split: prod.splits)
      with assms(2) None show ?thesis by simp
    next
      case (Some x)
      with o have "on_store (Mem_UpdateMetricsOnce k f ms) w = ((a1, Some x), w\<lparr>mw_store := s1\<rparr>)" by simp
      with Inr call Some show ?thesis by auto
    qed
    from mem_once.once_atomic [OF o] have "mem_received w' = mem_received w \<and> mem_counter w' = mem_counter w
      \<or> k \<notin> mem_received w \<and> mem_received w' = insert k (mem_received w)
        \<and> (\<forall>c. mem_counter w' c = mem_counter w c + batch_delta c ms)"
    proof (elim disjE conjE)
      assume "mem_content s1 = mem_content (mw_store w)" "ms_receipts s1 = ms_receipts (mw_store w)"
      then show ?thesis using st by (simp add: mem_received_def mem_counter_def [abs_def] mem_content_def)
    next
      assume n: "ms_receipts (mw_store w) k = None" "mem_content s1 = mem_apply ms (mem_content (mw_store w))"
        "ms_receipts s1 = (ms_receipts (mw_store w))(k \<mapsto> f)"
      have "ms_counters s1 = ms_counters (updateMetricsLocked ms (mw_store w))"
        using trans [OF n(2) mem_content_update [symmetric]] by (simp add: mem_content_def)
      with n(1,3) st show ?thesis by (auto simp: mem_received_def mem_counter_def updateMetricsLocked_counter)
    qed
    moreover have "e = None \<longrightarrow> k \<in> mem_received w'"
      using st mem_once.once_ack [of k f ms "mw_store w" a1 s1] o by (auto simp: mem_received_def)
    ultimately show ?thesis by simp
  qed
qed

lemma synchronous_saves: "mw_store (snd (svc_save (synchronous_service lib path) w)) = mw_store w"
  using saveAndHandle_keeps [of lib path w "fst (saveAndHandle lib path w)" "snd (saveAndHandle lib path w)"]
  by (simp add: svc_save_def synchronous_service_def SetSaveOnUpdate_def)

interpretation plain_link: keyed_service "Svc_UpdateMetricsOnce lib (NewMetricsService mem_repository)"
  mem_received mem_counter None "\<lambda>_. True" "\<lambda>_ _. True" for lib
proof unfold_locales
  fix k ms w res w'
  assume a: "ValidKey k" "ms \<noteq> []" "Svc_UpdateMetricsOnce lib (NewMetricsService mem_repository) k ms w = (res, w')"
  then show "mem_received w' = mem_received w \<and> mem_counter w' = mem_counter w
      \<or> k \<notin> mem_received w \<and> mem_received w' = insert k (mem_received w)
        \<and> (\<forall>c. mem_counter w' c = mem_counter w c + batch_delta c ms)"
    using mem_once_effect [of "NewMetricsService mem_repository" k ms lib w "fst res" "snd res" w']
    by (simp add: NewMetricsService_def svc_save_def)
next
  fix k ms w a w'
  assume "ValidKey k" "ms \<noteq> []" "Svc_UpdateMetricsOnce lib (NewMetricsService mem_repository) k ms w = ((a, None), w')"
  then show "k \<in> mem_received w'"
    using mem_once_effect [of "NewMetricsService mem_repository" k ms lib w a None w']
    by (simp add: NewMetricsService_def svc_save_def)
qed auto

interpretation sync_link: keyed_service "Svc_UpdateMetricsOnce lib (synchronous_service lib path)"
  mem_received mem_counter "Some (Notifier_Notify [mem_file_observer io apath])"
  "\<lambda>_. True" "\<lambda>_ _. True" for lib path io apath
proof unfold_locales
  fix k ms w res w'
  assume a: "ValidKey k" "ms \<noteq> []" "Svc_UpdateMetricsOnce lib (synchronous_service lib path) k ms w = (res, w')"
  then show "mem_received w' = mem_received w \<and> mem_counter w' = mem_counter w
      \<or> k \<notin> mem_received w \<and> mem_received w' = insert k (mem_received w)
        \<and> (\<forall>c. mem_counter w' c = mem_counter w c + batch_delta c ms)"
    using mem_once_effect [of "synchronous_service lib path" k ms lib w "fst res" "snd res" w'] synchronous_saves
    by (simp add: synchronous_service_def SetSaveOnUpdate_def NewMetricsService_def)
next
  fix k ms w a w'
  assume "ValidKey k" "ms \<noteq> []" "Svc_UpdateMetricsOnce lib (synchronous_service lib path) k ms w = ((a, None), w')"
  then show "k \<in> mem_received w'"
    using mem_once_effect [of "synchronous_service lib path" k ms lib w a None w'] synchronous_saves
    by (simp add: synchronous_service_def SetSaveOnUpdate_def NewMetricsService_def)
next
  fix f ev w
  assume "Some (Notifier_Notify [mem_file_observer io apath]) = Some f"
  then have "f = Notifier_Notify [mem_file_observer io apath]" by simp
  then show "mem_received (snd (f ev w)) = mem_received w \<and> mem_counter (snd (f ev w)) = mem_counter w \<and> True = True"
    by (simp add: mem_observer_inert mem_received_def mem_counter_def [abs_def])
qed simp

section \<open>A concrete run\<close>

text \<open>One poll, then cancellation; the state in which \<open>Run\<close> starts its final report.\<close>

definition demo_net :: "mem_world net" where
  "demo_net = \<lparr>nt_server = \<lparr>mw_store = NewMemStorage, mw_fs = Map.empty, mw_io = good_io,
     mw_ord = \<lparr>ord_gauges = [], ord_counters = [], ord_receipts = []\<rparr>\<rparr>, nt_fates = []\<rparr>"

definition demo_polled :: Store where
  "demo_polled = PollOnce demo_memstats 0 NewStore"

definition loop_after_poll :: "'n \<Rightarrow> 'n loop" where
  "loop_after_poll n = (loop_start 1 NewStore n)
     \<lparr>lp_store := demo_polled, lp_polls := 1, lp_ctx := True, lp_polling := False, lp_system := False, lp_closed := True\<rparr>"

lemma loop_after_poll_run: "arun att (loop_start 1 NewStore n) (loop_after_poll n)"
proof -
  let ?l0 = "loop_start 1 NewStore n"
  let ?l1 = "?l0\<lparr>lp_store := demo_polled, lp_polls := 1\<rparr>"
  let ?l2 = "?l1\<lparr>lp_ctx := True\<rparr>"
  let ?l3 = "?l2\<lparr>lp_polling := False\<rparr>"
  let ?l4 = "?l3\<lparr>lp_system := False\<rparr>"
  have s1: "astep att ?l0 ?l1"
    using astep.poll [of ?l0 att demo_memstats 0] by (simp add: loop_start_def demo_polled_def)
  have s2: "astep att ?l1 ?l2" by (rule astep.cancel)
  have s3: "astep att ?l2 ?l3" by (rule astep.poll_exit) (simp_all add: loop_start_def)
  have s4: "astep att ?l3 ?l4" by (rule astep.system_exit) (simp_all add: loop_start_def)
  have s5: "astep att ?l4 (?l4\<lparr>lp_closed := True\<rparr>)" by (rule astep.close) (simp_all add: loop_start_def)
  have "arun att ?l0 (?l4\<lparr>lp_closed := True\<rparr>)"
    by (rule arun.more [OF arun.more [OF arun.more [OF arun.more [OF arun.more [OF arun.start s1] s2] s3] s4] s5])
  then show ?thesis by (simp add: loop_after_poll_def)
qed

lemma loop_after_poll_simps:
  "lp_net (loop_after_poll n) = n" "lp_made (loop_after_poll n) = []" "lp_pending (loop_after_poll n) = []"
  "lp_store (loop_after_poll n) = demo_polled" "lp_polls (loop_after_poll n) = 1" "quiescent (loop_after_poll n)"
  "lp_err (loop_after_poll n) = None"
  by (simp_all add: loop_after_poll_def loop_start_def quiescent_def)

definition demo_loop :: "mem_world net loop" where
  "demo_loop = loop_after_poll demo_net"

lemma demo_loop_run: "arun att (loop_start 1 NewStore demo_net) demo_loop"
  unfolding demo_loop_def by (rule loop_after_poll_run)

lemma demo_polled_maps:
  "finite (dom (st_gauges demo_polled))" "[] \<notin> dom (st_gauges demo_polled)" "st_counters demo_polled = [''PollCount'' \<mapsto> 1]"
  by (simp_all add: demo_polled_def PollOnce_def runtime_gauges_def SetGauge_def IncCounter_def NewStore_def map_inc_def
      domIff)

lemma demo_snapshot:
  obtains gks ms st where "snapshot_orders demo_polled gks [''PollCount'']"
    "SnapshotMetrics gks [''PollCount''] demo_polled = (ms, st)" "ms \<noteq> []"
    "list_all (\<lambda>m. proper m \<and> encodable m) ms"
proof -
  obtain gks where g: "range_order (st_gauges demo_polled) gks"
    using range_order_exists demo_polled_maps(1) by blast
  obtain ms st where m: "SnapshotMetrics gks [''PollCount''] demo_polled = (ms, st)" by fastforce
  have o: "snapshot_orders demo_polled gks [''PollCount'']"
    using g by (simp add: snapshot_orders_def demo_polled_maps(3) range_order_def)
  have "batch_delta ''PollCount'' ms = 1"
    using SnapshotMetrics_complete(2) [OF o m] by (simp add: demo_polled_maps(3))
  then have "ms \<noteq> []" by auto
  moreover have "all_finite demo_polled"
    unfolding demo_polled_def by (rule PollOnce_finite) (simp_all add: demo_memstats_def)
  moreover have "[] \<notin> set gks" using g demo_polled_maps(2) by (simp add: range_order_def)
  ultimately have "list_all (\<lambda>m. proper m \<and> encodable m) ms"
    using SnapshotMetrics_names [OF m] SnapshotMetrics_encodable(1) [OF _ m] by (force simp: list_all_iff proper_def)
  with o m \<open>ms \<noteq> []\<close> that show ?thesis by blast
qed

definition demo_id :: string where
  "demo_id = replicate 26 (CHR ''A'')"

lemma demo_id_form: "rand_text_form demo_id"
  by (simp add: rand_text_form_def demo_id_def)

text \<open>The server accepts every sendable batch under a new key when its files work.\<close>

lemma demo_accepts:
  assumes "ms \<noteq> []" "list_all (\<lambda>m. proper m \<and> encodable m) ms"
  shows "\<exists>w. Svc_UpdateMetricsOnce lib (synchronous_service lib ''file'') demo_id ms (nt_server demo_net) = ((True, None), w)"
proof -
  obtain f where f: "Fingerprint lib ms = Inr f"
    using assms(2) Fingerprint_ok_iff [of lib ms] by (auto simp: list_all_iff)
  have key: "ValidKey demo_id" by (rule rand_text_ValidKey [OF demo_id_form])
  let ?w = "nt_server demo_net"
  obtain s1 where o: "Mem_UpdateMetricsOnce demo_id f ms (mw_store ?w) = ((True, None), s1)"
    by (simp add: Mem_UpdateMetricsOnce_def demo_net_def NewMemStorage_def)
  have "json_of_records lib (records_of (mw_ord ?w) s1) = Some (JArr [])"
    by (simp add: records_of_def fileSnapshot_def snapshotMetricsLocked_def snapshot_gauges_def snapshot_counters_def
        List.map_filter_simps demo_net_def json_of_records_def)
  from demo_SaveToFile [OF this] obtain w where "saveAndHandle lib ''file'' (?w\<lparr>mw_store := s1\<rparr>) = (None, w)"
    by (simp add: saveAndHandle_def demo_net_def)
  moreover have "svc_save (synchronous_service lib ''file'') = saveAndHandle lib ''file''"
    by (simp add: fun_eq_iff svc_save_def synchronous_service_def SetSaveOnUpdate_def)
  moreover have "rp_UpdateMetricsOnce (svc_repo (synchronous_service lib ''file'')) =
      Some (\<lambda>k f ms. on_store (Mem_UpdateMetricsOnce k f ms))"
    by (simp add: synchronous_service_def SetSaveOnUpdate_def NewMetricsService_def mem_repository_def)
  ultimately show ?thesis using o f by (simp add: Svc_UpdateMetricsOnce_keyed [OF key assms(1)])
qed

definition demo_audit :: audit_io where
  "demo_audit = \<lparr>au_ctx = None, au_dir = ''.'', au_mkdir = None, au_open = None, au_write = None, au_written = []\<rparr>"

abbreviation demo_once :: "string \<Rightarrow> Metrics list \<Rightarrow> mem_world \<Rightarrow> (bool \<times> gerr) \<times> mem_world" where
  "demo_once \<equiv> Svc_UpdateMetricsOnce demo_lib (synchronous_service demo_lib ''file'')"

abbreviation demo_aud :: "mem_world observer option" where
  "demo_aud \<equiv> Some (Notifier_Notify [mem_file_observer demo_audit ''audit''])"

text \<open>A batch that the server's service accepts is acknowledged over a network that loses nothing.\<close>

lemma accepted_send:
  assumes ms: "ms \<noteq> []" "list_all (\<lambda>m. proper m \<and> encodable m) ms"
    and w: "once demo_id ms (nt_server n) = ((True, None), w)" and n: "nt_fates n = []"
  shows "\<exists>n'. grpc_send once aud 0 None (New_Batch demo_id ms) n = (None, n')"
proof -
  have key: "ValidKey demo_id" by (rule rand_text_ValidKey [OF demo_id_form])
  obtain its where i: "to_items ms = Inr its" "from_items its = Inr ms" using items_roundtrip [OF ms(2)] by blast
  obtain w1 where "Grpc_UpdateMetrics once aud 0 None (no_metadata(''idempotency-key'' := [demo_id])) (Some its)
      (nt_server n) = (None, w1)"
    using w i(2) key ms(1) by (cases aud) (simp_all add: Grpc_UpdateMetrics_def request_key_def)
  then have "\<exists>n'. grpc_call once aud 0 None (no_metadata(''idempotency-key'' := [demo_id])) its n = (None, n')"
    by (simp add: grpc_call_def next_outcome_def n)
  then obtain n' where "SendBatch (grpc_call once aud 0 None) (New_Batch demo_id ms) n = (None, n')"
    using i(1) key ms(1) by (auto simp: SendBatch_def)
  then show ?thesis using ms(1) by (simp add: grpc_send_def DoWithSleeper_def settled_def)
qed

lemma demo_send:
  assumes "ms \<noteq> []" "list_all (\<lambda>m. proper m \<and> encodable m) ms"
  shows "\<exists>n. grpc_send demo_once demo_aud 0 None (New_Batch demo_id ms) demo_net = (None, n)"
proof -
  obtain w where "demo_once demo_id ms (nt_server demo_net) = ((True, None), w)" using demo_accepts [OF assms] by blast
  from accepted_send [where once = demo_once, OF assms this] show ?thesis by (simp add: demo_net_def)
qed

end
