(* ===== verification/Handler_Store.thy ===== *)
theory Handler_Store
  imports Handler Persistence
begin

text \<open>
  The URL endpoints of the handler together with the in-memory storage: what is written can be read back
  and is listed, and what a NaN or a name that is not UTF-8 in a URL does to a server that saves to a file.
\<close>

definition mem_handler :: "mem_world MetricsHandler" where
  "mem_handler = NewMetricsHandler (NewMetricsService mem_repository)"

definition saving_handler :: "golib \<Rightarrow> string \<Rightarrow> mem_world MetricsHandler" where
  "saving_handler lib path = NewMetricsHandler (synchronous_service lib path)"

section \<open>Reading back\<close>

lemma mem_service_ops:
  "Svc_UpdateCounter (NewMetricsService mem_repository) n d w =
     (None, w\<lparr>mw_store := (mw_store w)\<lparr>ms_counters := map_inc (ms_counters (mw_store w)) n d\<rparr>\<rparr>)"
  "Svc_UpdateGauge (NewMetricsService mem_repository) n v w =
     (None, w\<lparr>mw_store := (mw_store w)\<lparr>ms_gauges := (ms_gauges (mw_store w))(n \<mapsto> v)\<rparr>\<rparr>)"
  "Svc_GetCounter (NewMetricsService mem_repository) n w = (ms_counters (mw_store w) n, w)"
  "Svc_GetGauge (NewMetricsService mem_repository) n w = (ms_gauges (mw_store w) n, w)"
  by (simp_all add: Svc_UpdateCounter_def Svc_UpdateGauge_def Svc_GetCounter_def Svc_GetGauge_def NewMetricsService_def
      mem_repository_def svc_save_def on_store_def Mem_UpdateCounter_def Mem_UpdateGauge_def)

text \<open>
  The URL endpoints round trip: after \<open>POST /update/counter/n/d\<close> with the decimal text of \<open>d\<close>,
  \<open>GET /value/counter/n\<close> answers 200 with the decimal text of the old value plus \<open>d\<close> (with wrap-around);
  after \<open>POST /update/gauge/n/t\<close>, \<open>GET /value/gauge/n\<close> answers with the text of the parsed value.
\<close>

theorem url_update_then_get:
  assumes "n \<noteq> []"
  shows "(case UpdateMetric lib env mem_handler Counter n (FormatInt d) r w of
            (resp, w') \<Rightarrow> final_status resp = 200
              \<and> rs_Body (fst (GetValue env mem_handler Counter n r w')) =
                FormatInt (map_get0 (ms_counters (mw_store w)) n + d))
       \<and> (case parse_float lib t of
            None \<Rightarrow> UpdateMetric lib env mem_handler Gauge n t r w = (status_response 400, w)
          | Some v \<Rightarrow>
              (case UpdateMetric lib env mem_handler Gauge n t r w of
                 (resp, w') \<Rightarrow> final_status resp = 200
                   \<and> rs_Body (fst (GetValue env mem_handler Gauge n r w')) = he_format_f env v))"
proof -
  have cg: "Counter \<noteq> Gauge" by (simp add: Counter_def Gauge_def)
  have b: "rs_Body (write_body x (set_header k y no_response)) = x" for x k y
    by (simp add: write_body_def set_header_def no_response_def WriteHeader_def Let_def)
  show ?thesis
    using assms cg
    by (auto simp: UpdateMetric_def GetValue_def mem_handler_def NewMetricsHandler_def mem_service_ops handler_audit_def
        map_inc_def b split: option.split)
qed

definition demo_env :: http_env where
  "demo_env = \<lparr>he_now = 0, he_split_host_port = (\<lambda>_. None), he_format_f = FormatInt, he_sprint = FormatInt\<rparr>"

definition demo_request :: http_request where
  "demo_request = \<lparr>hr_Method = ''POST'', hr_URL = [], hr_Header = no_header, hr_Body = [], hr_BodyErr = False, hr_RemoteAddr = []\<rparr>"

lemma url_update_then_get_witness:
  "case UpdateMetric demo_lib demo_env mem_handler Counter ''c'' (FormatInt 5) demo_request
          \<lparr>mw_store = demo_storage, mw_fs = Map.empty, mw_io = good_io, mw_ord = demo_orders\<rparr> of
     (resp, w') \<Rightarrow> rs_Body (fst (GetValue demo_env mem_handler Counter ''c'' demo_request w')) = FormatInt 10"
  using url_update_then_get [where n = "''c''" and lib = demo_lib and env = demo_env and d = 5 and r = demo_request
      and w = "\<lparr>mw_store = demo_storage, mw_fs = Map.empty, mw_io = good_io, mw_ord = demo_orders\<rparr>"]
  by (auto simp: demo_storage_def split: prod.splits)

section \<open>The list of metrics\<close>



section \<open>NaN in a URL\<close>

lemma saving_fails:
  assumes "ms_gauges (mw_store w) g = Some v" "\<not> f64_finite v"
    and "orders_of (mw_store w) (mw_ord w)" "fresh_temp (mw_io w) path (mw_fs w)"
  shows "\<exists>e. saveAndHandle lib path w = (Some e, w)"
proof -
  obtain err fs' where s: "SaveToFile lib (mw_io w) (mw_ord w) path (mw_store w) (mw_fs w) = (err, fs')" by fastforce
  with nan_blocks_saving [where lib = lib, OF assms] have "err \<noteq> None \<and> fs' = mw_fs w" by simp
  with s show ?thesis by (auto simp: saveAndHandle_def)
qed

lemma saving_service_ops:
  "Svc_UpdateCounter (synchronous_service lib path) n d w =
     saveAndHandle lib path (w\<lparr>mw_store := (mw_store w)\<lparr>ms_counters := map_inc (ms_counters (mw_store w)) n d\<rparr>\<rparr>)"
  "Svc_UpdateGauge (synchronous_service lib path) n v w =
     saveAndHandle lib path (w\<lparr>mw_store := (mw_store w)\<lparr>ms_gauges := (ms_gauges (mw_store w))(n \<mapsto> v)\<rparr>\<rparr>)"
  by (simp_all add: Svc_UpdateCounter_def Svc_UpdateGauge_def synchronous_service_def SetSaveOnUpdate_def NewMetricsService_def
      mem_repository_def svc_save_def on_store_def Mem_UpdateCounter_def Mem_UpdateGauge_def)


definition nan_lib :: golib where
  "nan_lib = demo_lib\<lparr>parse_float := (\<lambda>t. if t = ''NaN'' then Some 0x7FF8000000000001 else None)\<rparr>"

definition nan_world :: mem_world where
  "nan_world = \<lparr>mw_store = NewMemStorage, mw_fs = Map.empty, mw_io = good_io,
     mw_ord = \<lparr>ord_gauges = [''g''], ord_counters = [], ord_receipts = []\<rparr>\<rparr>"


section \<open>Invalid names in a URL\<close>

text \<open>
  C26. A URL such as \<open>/update/counter/%FF/5\<close> names a metric by bytes that are not UTF-8. The update is answered 200,
  saved, and read back; but the JSON of the storage file replaces those bytes, so after a restart from the file the
  same \<open>GET\<close> is answered 404 and the counter is found under the name with U+FFFD instead.
\<close>

theorem invalid_name_lost:
  assumes "float_text_ok lib" and "n \<noteq> []" and "\<not> valid_utf8 n" and "utf8_map (ms_receipts (mw_store w))"
    and "UpdateMetric lib env (saving_handler lib path) Counter n (FormatInt d) r w = (resp, w')" and "final_status resp = 200"
    and "orders_of (mw_store w') (mw_ord w)" and "fresh_temp (mw_io w) path (mw_fs w)"
  shows "rs_Body (fst (GetValue env (saving_handler lib path) Counter n r w')) = FormatInt (map_get0 (ms_counters (mw_store w)) n + d)
       \<and> (\<exists>s. NewMemStorageWithRestore lib None (mw_fs w') path True = Inr s
            \<and> final_status (fst (GetValue env (saving_handler lib path) Counter n r (w'\<lparr>mw_store := s\<rparr>))) = 404
            \<and> ms_counters s (sanitize n) \<noteq> None)"
proof -
  let ?h = "saving_handler lib path"
  have cg: "Counter \<noteq> Gauge" by (simp add: Counter_def Gauge_def)
  let ?s = "(mw_store w)\<lparr>ms_counters := map_inc (ms_counters (mw_store w)) n d\<rparr>"
  let ?u = "w\<lparr>mw_store := ?s\<rparr>"
  obtain e x where sv: "saveAndHandle lib path ?u = (e, x)" by fastforce
  have e: "e = None" "w' = x"
    using assms(2,5,6) cg sv
    by (cases e; auto simp: UpdateMetric_def saving_handler_def NewMetricsHandler_def saving_service_ops handler_audit_def
          final_status_def http_Error_def)+
  have st: "mw_store w' = ?s" using saveAndHandle_keeps [OF sv] e by simp
  from sv e obtain fs' where f: "SaveToFile lib (mw_io w) (mw_ord w) path ?s (mw_fs w) = (None, fs')" "mw_fs w' = fs'"
    by (auto simp: saveAndHandle_def split: prod.splits)
  have g: "Svc_GetCounter (h_service ?h) n v = (ms_counters (mw_store v) n, v)" for v
    by (simp add: Svc_GetCounter_def saving_handler_def NewMetricsHandler_def synchronous_service_def SetSaveOnUpdate_def
        NewMetricsService_def mem_repository_def on_store_def)
  have b: "rs_Body (write_body x (set_header k y no_response)) = x" for x k y
    by (simp add: write_body_def set_header_def no_response_def WriteHeader_def Let_def)
  have ord: "orders_of ?s (mw_ord w)" using assms(7) st by simp
  define s where "s = restore_records (map sanitize_record (records_of (mw_ord w) ?s)) NewMemStorage"
  have "NewMemStorageWithRestore lib None (mw_fs w') path True = Inr s"
    using saved_reads [OF assms(1) _ ord assms(8) f(1)] assms(4) f(2) by (simp add: s_def)
  moreover have "ms_counters s n = None" using restored_counters(1) [OF ord s_def, of n] assms(3) by blast
  moreover have "ms_counters s (sanitize n) \<noteq> None"
    using restored_counters(2) [OF ord s_def, of n] by (simp add: map_inc_def)
  moreover have "final_status (status_response 404) = 404"
    by (simp add: status_response_def final_status_def WriteHeader_def no_response_def)
  ultimately show ?thesis using assms(2) cg st by (auto simp: GetValue_def g b map_inc_def)
qed

lemma invalid_name_lost_witness:
  "\<exists>resp w'. UpdateMetric demo_lib demo_env (saving_handler demo_lib ''file'') Counter [CHR 0xFF] (FormatInt 5) demo_request
        (nan_world\<lparr>mw_ord := \<lparr>ord_gauges = [], ord_counters = [[CHR 0xFF]], ord_receipts = []\<rparr>\<rparr>) = (resp, w')
     \<and> final_status resp = 200
     \<and> (\<exists>s. NewMemStorageWithRestore demo_lib None (mw_fs w') ''file'' True = Inr s
          \<and> final_status (fst (GetValue demo_env (saving_handler demo_lib ''file'') Counter [CHR 0xFF] demo_request
                (w'\<lparr>mw_store := s\<rparr>))) = 404)"
proof -
  let ?n = "[CHR 0xFF]" and ?h = "saving_handler demo_lib ''file''"
  let ?o = "\<lparr>ord_gauges = [], ord_counters = [?n], ord_receipts = []\<rparr>"
  let ?w = "nan_world\<lparr>mw_ord := ?o\<rparr>"
  let ?s = "NewMemStorage\<lparr>ms_counters := [?n \<mapsto> 5]\<rparr>"
  have bad: "\<not> valid_utf8 ?n" by (simp add: valid_utf8.simps [of ?n] rune_size_def lead_def)
  have "json_of_records demo_lib (records_of ?o ?s) \<noteq> None"
    by (simp add: json_of_records_None_iff records_of_def fileSnapshot_def snapshotMetricsLocked_def snapshot_gauges_def
        snapshot_counters_def List.map_filter_simps encodable_def NewMemStorage_def)
  then obtain j where j: "json_of_records demo_lib (records_of ?o ?s) = Some j" by blast
  let ?x = "?w\<lparr>mw_store := ?s, mw_fs := [''file'' \<mapsto> json_print j @ newline]\<rparr>"
  have sv: "saveAndHandle demo_lib ''file'' (?w\<lparr>mw_store := ?s\<rparr>) = (None, ?x)"
    using demo_SaveToFile [OF j] by (simp add: saveAndHandle_def nan_world_def)
  have u: "UpdateMetric demo_lib demo_env ?h Counter ?n (FormatInt 5) demo_request ?w = (status_response 200, ?x)"
    using sv by (simp add: UpdateMetric_def saving_handler_def NewMetricsHandler_def saving_service_ops handler_audit_def
        Counter_def Gauge_def nan_world_def NewMemStorage_def map_inc_def map_get0_def)
  have h: "utf8_map (ms_receipts (mw_store ?w))" "final_status (status_response 200) = 200"
    "orders_of (mw_store ?x) (mw_ord ?w)" "fresh_temp (mw_io ?w) ''file'' (mw_fs ?w)"
    using good_io_fresh
    by (simp_all add: utf8_map_def nan_world_def NewMemStorage_def status_response_def final_status_def WriteHeader_def
        no_response_def orders_of_def range_order_def)
  from invalid_name_lost [OF demo_lib_float _ bad h(1) u h(2-4)] u h(2) show ?thesis by auto
qed

end
