(* ===== verification/Mem_Http.thy ===== *)
theory Mem_Http
  imports Http_Link Mem_Server Handler_Store
begin

text \<open>
  The HTTP link with the server as \<open>cmd/server/main.go\<close> builds it for a storage file with synchronous saving
  and an audit file, and what an agent's run over it does to the counters.
\<close>

interpretation sync_http: http_service lib "synchronous_service lib path" mem_received mem_counter
  "Some (Notifier_Notify [mem_file_observer io apath])" "\<lambda>_. True" "\<lambda>_ _. True" for lib path io apath
  unfolding http_service_def by (rule sync_link.keyed_service_axioms)

interpretation plain_http: http_service lib "NewMetricsService mem_repository" mem_received mem_counter None
  "\<lambda>_. True" "\<lambda>_ _. True" for lib
  unfolding http_service_def by (rule plain_link.keyed_service_axioms)

definition sync_handler :: "golib \<Rightarrow> string \<Rightarrow> audit_io \<Rightarrow> string \<Rightarrow> mem_world MetricsHandler" where
  "sync_handler lib path io apath = main_handler (synchronous_service lib path) None [mem_file_observer io apath]"

lemma sync_handler_eq:
  "sync_handler lib path io apath = \<lparr>h_service = synchronous_service lib path, h_db = Some None,
     h_auditor = Some (Notifier_Notify [mem_file_observer io apath])\<rparr>"
  by (simp add: sync_handler_def main_handler_def NewMetricsHandlerWithDBAndAudit_def interface_of_pointer_def Enabled_def)

text \<open>
  C2. End to end over HTTP. The same as over gRPC, with everything HTTP adds in between: JSON, compression,
  an optional signature (the keys of the two sides need not agree), optional encryption, the trusted subnet
  and the response writers; requests and responses may be lost and requests replayed by the transport.
  When \<open>Agent.Run\<close> has stopped its loops and, after the final report, returns nil, nothing is left to send and every
  counter of the server has grown by exactly what the agent counted, modulo \<open>2\<^sup>6\<^sup>4\<close>. \<open>link_ok\<close> is what
  is asked of the libraries (gzip, AES-GCM, OAEP and float text invert what they wrote), and that an
  encrypting agent has the server's public key.
\<close>

theorem agent_to_http_server_exact:
  fixes l :: "mem_world net loop"
  assumes "arun (http_attempt lib wl (http_serve lib wl key priv trusted (sync_handler lib path io apath)) akey pub)
             (loop_start rate NewStore n0) l"
    and "quiescent l"
    and "link_ok lib wl priv pub" and "\<forall>b \<in> set (lp_made l). batch_ID b \<notin> mem_received (nt_server n0)"
    and "http_agent (http_serve lib wl key priv trusted (sync_handler lib path io apath)) akey pub a"
    and "ag_pending a = lp_pending l" and "ag_store a = lp_store l"
    and "\<forall>b n. \<exists>env. rnd_ok (se_rand env) \<and> send b n = sendBatch lib wl env a b n"
    and "rand_text_form i" and "i \<notin> batch_ID ` set (lp_made l)" and "i \<notin> mem_received (nt_server n0)"
    and "snapshot_orders (lp_store l) gks cks"
    and "Run_finish send i gks cks l a = (None, a', n')"
  shows "ag_pending a' = []
       \<and> mem_counter (nt_server n') c = mem_counter (nt_server n0) c + (if c = ''PollCount'' then of_nat (lp_polls l) else 0)"
proof -
  note eqs = sync_handler_eq and names = arun_names [OF assms(1)]
  have "sync_http.http.implements lib wl key priv trusted path (Some None) io apath akey pub send"
    unfolding sync_http.http.implements_def unfolding eqs [symmetric] using assms(8) http_attempt_send [OF assms(5)] by blast
  moreover have "sync_http.http.fresh_ids lib wl priv pub n0 (lp_made l)"
    unfolding sync_http.http.fresh_ids_def using assms(3,4) names by (simp add: carries_def names_ok_def)
  moreover have "carries lib wl priv pub (New_Batch i (fst (SnapshotMetrics gks cks (lp_store l))))"
    using assms(3,12) names SnapshotMetrics_utf8(1) [of "lp_store l" gks cks]
    by (cases "SnapshotMetrics gks cks (lp_store l)") (simp add: carries_def names_ok_def)
  ultimately show ?thesis
    using sync_http.http.run_delivers_all [OF TrueI assms(1) [unfolded eqs] assms(2) _ _ assms(6,7,9-12) _ Run_finish_None(1) [OF assms(13)], of c]
    by (simp add: NewStore_def polled_def)
qed

section \<open>A concrete run\<close>

definition demo_send_env :: send_env where
  "demo_send_env = \<lparr>se_rand = demo_rand, se_ip = None, se_url_error = None\<rparr>"

definition demo_agent :: "golib \<Rightarrow> mem_world net Agent" where
  "demo_agent lib = \<lparr>ag_sender = None, ag_pending = [], ag_pollInterval = 1, ag_reportInterval = 1, ag_serverURL = ''http'',
     ag_client = http_do 0 ''peer'' (http_serve lib demo_wire [] None [] (sync_handler lib ''file'' demo_audit ''audit'') demo_env),
     ag_store = demo_polled, ag_key = [], ag_publicKey = None, ag_rateLimit = 1, ag_retrySleep = (\<lambda>_ n. n)\<rparr>"

lemma demo_gzip_ok: "gzip_ok demo_wire"
  by (simp add: gzip_ok_def demo_wire_def)

lemma demo_link_ok: "link_ok demo_lib demo_wire None None"
  by (simp add: link_ok_def demo_gzip_ok keys_match_def)

lemma proper_valid: "list_all (\<lambda>m. proper m \<and> encodable m) ms \<Longrightarrow> validate_all ms = StatusOK"
proof -
  have "effective (gauge_metric n v)" "effective (counter_metric n d)" for n v d
    by (simp_all add: effective_def Counter_def Gauge_def)
  then have "proper m \<Longrightarrow> ID m \<noteq> [] \<and> effective m" for m unfolding proper_def by metis
  then show "list_all (\<lambda>m. proper m \<and> encodable m) ms \<Longrightarrow> validate_all ms = StatusOK"
    by (auto simp: validate_all_iff list_all_iff)
qed

lemma demo_http_send:
  assumes ms: "ms \<noteq> []" "list_all (\<lambda>m. proper m \<and> encodable m) ms" "list_all utf8_metric ms" and j: "json_of_batch demo_lib ms = Some j"
  shows "\<exists>n. sendBatch demo_lib demo_wire demo_send_env (demo_agent demo_lib) (New_Batch demo_id ms) demo_net = (None, n)"
proof -
  let ?lib = demo_lib and ?a = "demo_agent demo_lib" and ?doc = "json_print j"
  let ?h = "sync_handler ?lib ''file'' demo_audit ''audit''"
  let ?w = "nt_server demo_net"
  let ?req = "(agent_request demo_send_env ?a ?doc [] demo_id)\<lparr>hr_RemoteAddr := ''peer''\<rparr>"
  let ?r = "?req\<lparr>hr_Body := ?doc, hr_BodyErr := False\<rparr>"
  have key: "ValidKey demo_id" by (rule rand_text_ValidKey [OF demo_id_form])
  obtain w where w: "Svc_UpdateMetricsOnce ?lib (synchronous_service ?lib ''file'') demo_id ms ?w = ((True, None), w)"
    using demo_accepts [OF ms(1,2)] by blast
  have pub: "ag_publicKey ?a = None" by (simp add: demo_agent_def)
  have b: "json_read_first ?doc = Some (sanitize_json j)" "batch_of_json ?lib (sanitize_json j) = Some ms"
    using batch_text [OF demo_lib_float j] sanitize_utf8_batch [OF ms(3)] by simp_all
  have k: "key_of ?r = Some demo_id" using key by (simp add: key_of_def agent_request_simps)
  obtain resp w1 where u: "UpdateMetricsJSON ?lib demo_env ?h ?r ?w = (resp, w1)" by fastforce
  have ok: "final_status resp = 200"
    using u b k proper_valid [OF ms(2)] w
    by (auto simp: UpdateMetricsJSON_def request_json_def storeBatch_cases sync_handler_eq)
  obtain layer :: "mem_world serve \<Rightarrow> mem_world serve" where l: "guards (admit ?lib demo_wire [] None None) layer"
    "server_stack ?lib demo_wire [] None [] (serve_handler (UpdateMetricsJSON ?lib demo_env ?h)) = Inr (layer (serve_handler (UpdateMetricsJSON ?lib demo_env ?h)))"
    using server_stack_ok [of "[]" None ?lib demo_wire "[]" None] by (auto simp: subnet_of_def)
  have "admit ?lib demo_wire [] None None ?req = Inr ?r"
    by (simp add: admit_def and_then_def admit_subnet_def in_subnet_def admit_decrypt_def admit_gzip_def admit_hash_def
        agent_request_simps gzip_token demo_wire_def)
  moreover have "answers (serve_handler (UpdateMetricsJSON ?lib demo_env ?h)) ?r ?w 200 w1"
    using answers_handler [of "UpdateMetricsJSON ?lib demo_env ?h" ?r ?w, OF u] ok by (simp split: if_splits)
  ultimately have "answers (layer (serve_handler (UpdateMetricsJSON ?lib demo_env ?h))) ?req ?w 200 w1"
    by (rule guardsD(2) [OF l(1)])
  from answers_respond [OF this] obtain out where
    "respond (http_serve ?lib demo_wire [] None [] ?h demo_env) ?req ?w = Some (out, w1)" "final_status out = 200"
    by (auto simp: http_serve_def l(2))
  then have "http_do 0 ''peer'' (http_serve ?lib demo_wire [] None [] ?h demo_env) (agent_request demo_send_env ?a ?doc [] demo_id) demo_net
      = (Inr 200, demo_net\<lparr>nt_fates := [], nt_server := w1\<rparr>)"
    by (simp add: http_once_def next_outcome_def demo_net_def)
  moreover have "ag_client ?a = http_do 0 ''peer'' (http_serve ?lib demo_wire [] None [] ?h demo_env)" by (simp add: demo_agent_def)
  ultimately have "sendCompressedMetrics demo_send_env ?a ?doc [] demo_id demo_net = (None, demo_net\<lparr>nt_fates := [], nt_server := w1\<rparr>)"
    by (simp add: sendCompressedMetrics_def agent_request_def demo_send_env_def)
  moreover have "http_payload ?lib demo_wire demo_send_env ?a ms = Inr (?doc, [])"
    using j by (simp add: http_payload_def demo_agent_def demo_wire_def Let_def)
  moreover have "ag_sender ?a = None" by (simp add: demo_agent_def)
  ultimately show ?thesis using ms(1) by (simp add: sendBatch_def DoWithSleeper_def settled_def)
qed

lemma agent_to_http_server_exact_witness:
  "\<exists>gks a a' n'. ag_pending a = [] \<and> ag_store a = demo_polled
     \<and> Run_finish (sendBatch demo_lib demo_wire demo_send_env a) demo_id gks [''PollCount''] demo_loop a = (None, a', n')
     \<and> mem_counter (nt_server n') ''PollCount'' = 1"
proof -
  obtain gks ms st where s: "snapshot_orders demo_polled gks [''PollCount'']"
    "SnapshotMetrics gks [''PollCount''] demo_polled = (ms, st)" "ms \<noteq> []"
    "list_all (\<lambda>m. proper m \<and> encodable m) ms" by (rule demo_snapshot)
  have u: "list_all utf8_metric ms"
    using SnapshotMetrics_utf8(1) [OF _ s(1,2)] arun_names [OF demo_loop_run] by (simp add: names_ok_def demo_loop_def loop_after_poll_simps)
  from s obtain j where j: "json_of_batch demo_lib ms = Some j"
    using json_of_batch_None_iff [of demo_lib ms] by (auto simp: list_all_iff)
  let ?lib = demo_lib and ?a = "demo_agent demo_lib" and ?doc = "json_print j"
  let ?send = "sendBatch ?lib demo_wire demo_send_env ?a"
  obtain n' where n: "?send (New_Batch demo_id ms) demo_net = (None, n')" using demo_http_send [OF s(3,4) u j] by blast
  have a: "ag_pending ?a = []" "ag_store ?a = demo_polled"
    "http_agent (http_serve ?lib demo_wire [] None [] (sync_handler ?lib ''file'' demo_audit ''audit'')) [] None ?a"
    by (auto simp: demo_agent_def http_agent_def)
  have l: "lp_net demo_loop = demo_net" "lp_made demo_loop = []" "lp_pending demo_loop = []" "lp_store demo_loop = demo_polled"
    "lp_polls demo_loop = 1" "quiescent demo_loop" "lp_err demo_loop = None"
    by (simp_all add: demo_loop_def loop_after_poll_simps)
  obtain a' where r0: "ReportOnce ?send demo_id gks [''PollCount''] ?a demo_net = (None, a', n')"
    using s(2,3) n a(1,2) by (simp add: ReportOnce_def takePending_def)
  then have r: "Run_finish ?send demo_id gks [''PollCount''] demo_loop ?a = (None, a', n')"
    by (simp add: Run_finish_def l errors_Join_None_iff)
  have e: "mem_received (nt_server demo_net) = {}" "mem_counter (nt_server demo_net) ''PollCount'' = 0"
    by (simp_all add: demo_net_def mem_received_def mem_counter_def NewMemStorage_def)
  have send: "\<forall>b n. \<exists>env. rnd_ok (se_rand env) \<and> ?send b n = sendBatch ?lib demo_wire env ?a b n"
    using demo_wire_ok(3) by (intro allI exI [of _ demo_send_env]) (simp add: demo_send_env_def)
  from agent_to_http_server_exact [OF demo_loop_run l(6) demo_link_ok _ a(3) _ _ send demo_id_form _ _ s(1) [folded l(4)] r,
      of "''PollCount''"]
  have "mem_counter (nt_server n') ''PollCount'' = 1" by (simp add: l e a)
  with r a(1,2) show ?thesis by blast
qed

end
