(* ===== verification/Pg_Server.thy ===== *)
theory Pg_Server
  imports Mem_Server
begin

text \<open>
  The server with PostgreSQL storage as the receiving side of the agent. Rows are keyed by the name alone, so the
  interface \<open>keyed_service\<close> holds of it for batches and tables in which every name keeps its type; the agent's own
  batches are of this kind.
\<close>

section \<open>The service over the database\<close>

definition pg_received :: "pgdb \<Rightarrow> string set" where
  "pg_received db = dom (tbl_receipts db)"

definition pg_counter :: "pgdb \<Rightarrow> string \<Rightarrow> int64" where
  "pg_counter db c = map_get0 (pg_counter_view (tbl_metrics db)) c"

definition pg_ok :: "(string \<Rightarrow> string) \<Rightarrow> pgdb \<Rightarrow> bool" where
  "pg_ok T db \<longleftrightarrow> wf_table (tbl_metrics db) \<and> typed_table T (tbl_metrics db)"

text \<open>An auditor outside the database; what it answers is arbitrary.\<close>

definition outside :: "(Event \<Rightarrow> gerr) \<Rightarrow> pgdb observer" where
  "outside answer ev db = (answer ev, db)"

lemma typed_batch_metrics: "typed_metrics (\<lambda>n t. t = T n) ms = typed_batch T ms"
  by (simp add: typed_metrics_def typed_batch_def)

text \<open>A batch that is applied adds its deltas to what readers of the database see.\<close>

lemma pg_applies_counter:
  assumes "wf_table t" "typed_table T t" "typed_batch T ms" "pg_applies ms t t'"
  shows "wf_table t' \<and> typed_table T t' \<and> map_get0 (pg_counter_view t') c = map_get0 (pg_counter_view t) c + batch_delta c ms"
proof -
  have r: "pg_content t' = mem_apply ms (pg_content t)" "wf_table t'" "typed_table T t'"
    using updateMetricsTx_refines [OF assms(1-3) assms(4) [unfolded pg_applies_def]] by simp_all
  let ?s = "\<lparr>ms_gauges = pg_gauge_view t, ms_counters = pg_counter_view t, ms_receipts = Map.empty\<rparr>"
  have "mem_apply ms (pg_content t) = mem_content (updateMetricsLocked ms ?s)"
    using mem_content_update [of ms ?s] by (simp add: mem_content_def pg_content_def)
  with r(1) have "pg_counter_view t' = ms_counters (updateMetricsLocked ms ?s)" by (simp add: pg_content_def mem_content_def)
  with r(2,3) show ?thesis by (simp add: updateMetricsLocked_counter)
qed

lemma pg_service_once:
  assumes "ValidKey k" "ms \<noteq> []"
  shows "Svc_UpdateMetricsOnce lib (NewMetricsService pg_repository) k ms db =
    (case Fingerprint lib ms of
       Inl e \<Rightarrow> ((False, Some (WrapError ''fingerprint metrics'' [e])), db)
     | Inr f \<Rightarrow> (case Pg_UpdateMetricsOnce k f ms db of
                  ((_, Some e), db') \<Rightarrow> ((False, Some e), db')
                | ((applied, None), db') \<Rightarrow> ((applied, None), db')))"
proof -
  have "rp_UpdateMetricsOnce (svc_repo (NewMetricsService pg_repository)) = Some Pg_UpdateMetricsOnce"
    "svc_save (NewMetricsService pg_repository) w = (None, w)" for w
    by (simp_all add: NewMetricsService_def pg_repository_def svc_save_def)
  then show ?thesis by (simp add: Svc_UpdateMetricsOnce_keyed [OF assms] split: sum.split prod.split option.split)
qed

lemma pg_once_effect:
  assumes "ValidKey k" "ms \<noteq> []" "Svc_UpdateMetricsOnce lib (NewMetricsService pg_repository) k ms db = ((a, e), db')"
  shows "pg_ok T db \<Longrightarrow> typed_batch T ms \<Longrightarrow> pg_ok T db' \<and>
      (pg_received db' = pg_received db \<and> pg_counter db' = pg_counter db
       \<or> k \<notin> pg_received db \<and> pg_received db' = insert k (pg_received db)
         \<and> (\<forall>c. pg_counter db' c = pg_counter db c + batch_delta c ms))"
    and "e = None \<longrightarrow> k \<in> pg_received db'"
proof -
  have "db' = db \<and> e \<noteq> None \<or> (\<exists>f a'. Pg_UpdateMetricsOnce k f ms db = ((a', e), db'))"
    using assms(3) unfolding pg_service_once [OF assms(1,2)] by (auto split: sum.splits prod.splits option.splits)
  then consider "db' = db" "e \<noteq> None" | f a' where "Pg_UpdateMetricsOnce k f ms db = ((a', e), db')" by blast
  note cases = this
  show "pg_ok T db' \<and>
      (pg_received db' = pg_received db \<and> pg_counter db' = pg_counter db
       \<or> k \<notin> pg_received db \<and> pg_received db' = insert k (pg_received db)
         \<and> (\<forall>c. pg_counter db' c = pg_counter db c + batch_delta c ms))" if "pg_ok T db" "typed_batch T ms"
    using cases
  proof cases
    case 1
    with that show ?thesis by simp
  next
    case (2 f a')
    from Pg_UpdateMetricsOnce_step [OF 2] that pg_applies_counter [of "tbl_metrics db" T ms "tbl_metrics db'"] show ?thesis
      by (auto simp: once_step_def pg_ok_def pg_received_def pg_counter_def [abs_def])
  qed
  show "e = None \<longrightarrow> k \<in> pg_received db'"
    using cases by cases (auto simp: pg_received_def dest: pg_once.once_ack)
qed

interpretation pg_link: keyed_service "Svc_UpdateMetricsOnce lib (NewMetricsService pg_repository)"
  pg_received pg_counter "map_option outside answer" "pg_ok T" "\<lambda>n t. t = T n" for lib answer T
proof unfold_locales
  fix w ms k res w'
  assume a: "pg_ok T w" "typed_metrics (\<lambda>n t. t = T n) ms" "ValidKey k" "ms \<noteq> []"
    "Svc_UpdateMetricsOnce lib (NewMetricsService pg_repository) k ms w = (res, w')"
  note eff = pg_once_effect(1) [OF a(3,4), of lib w "fst res" "snd res" w' T] 
  show "pg_ok T w'" "pg_received w' = pg_received w \<and> pg_counter w' = pg_counter w
      \<or> k \<notin> pg_received w \<and> pg_received w' = insert k (pg_received w)
        \<and> (\<forall>c. pg_counter w' c = pg_counter w c + batch_delta c ms)"
    using eff a(1,2,5) by (simp_all add: typed_batch_metrics)
next
  fix k ms w a w'
  assume "ValidKey k" "ms \<noteq> []" "Svc_UpdateMetricsOnce lib (NewMetricsService pg_repository) k ms w = ((a, None), w')"
  then show "k \<in> pg_received w'" using pg_once_effect(2) [of k ms lib w a None w'] by simp
qed (auto simp: outside_def)

section \<open>The names of the agent\<close>

definition agent_gauge :: "string \<Rightarrow> bool" where
  "agent_gauge n \<longleftrightarrow> n \<in> fst ` set (runtime_gauges demo_memstats) \<or> n \<in> {''RandomValue'', ''TotalMemory'', ''FreeMemory''}
     \<or> HasPrefix n ''CPUutilization''"

definition typed_store :: "(string \<Rightarrow> string) \<Rightarrow> Store \<Rightarrow> bool" where
  "typed_store T s \<longleftrightarrow> (\<forall>n. (st_gauges s n \<noteq> None \<longrightarrow> T n = Gauge) \<and> (st_counters s n \<noteq> None \<longrightarrow> T n = Counter))"

text \<open>\<open>T\<close> agrees with the agent.\<close>

definition agent_types :: "(string \<Rightarrow> string) \<Rightarrow> bool" where
  "agent_types T \<longleftrightarrow> T ''PollCount'' = Counter \<and> (\<forall>n. agent_gauge n \<longrightarrow> T n = Gauge)"

lemma typed_store_simps [simp]:
  "typed_store T NewStore" "typed_store T s \<Longrightarrow> T n = Counter \<Longrightarrow> typed_store T (IncCounter n d s)"
  "typed_store T s \<Longrightarrow> T n = Gauge \<Longrightarrow> typed_store T (SetGauge n v s)"
  by (auto simp: typed_store_def NewStore_def IncCounter_def SetGauge_def map_inc_def)

lemma typed_store_fold:
  "list_all (\<lambda>(n, v). T n = Gauge) kvs \<Longrightarrow> typed_store T s \<Longrightarrow> typed_store T (fold (\<lambda>(n, v). SetGauge n v) kvs s)"
  by (induction kvs arbitrary: s) auto

lemma runtime_gauges_names: "map fst (runtime_gauges m) = map fst (runtime_gauges m')"
  by (simp add: runtime_gauges_def)

lemma runtime_gauges_typed: "agent_types T \<Longrightarrow> list_all (\<lambda>(n, v). T n = Gauge) (runtime_gauges m)"
proof -
  assume "agent_types T"
  then have "\<forall>n \<in> set (map fst (runtime_gauges m)). T n = Gauge"
    unfolding runtime_gauges_names [of m demo_memstats] by (auto simp: agent_types_def agent_gauge_def)
  then show ?thesis by (auto simp: list_all_iff)
qed

lemma typed_store_cpus: "agent_types T \<Longrightarrow> typed_store T s \<Longrightarrow> typed_store T (set_cpus i vs s)"
  by (induction vs arbitrary: i s) (simp_all add: agent_types_def agent_gauge_def HasPrefix_def)

lemma PollOnce_typed: "agent_types T \<Longrightarrow> typed_store T s \<Longrightarrow> typed_store T (PollOnce m rnd s)"
  using runtime_gauges_typed [of T m] by (simp add: PollOnce_def typed_store_fold agent_types_def agent_gauge_def)

lemma PollSystemOnce_typed: "agent_types T \<Longrightarrow> typed_store T s \<Longrightarrow> PollSystemOnce vm cpu s = (err, s') \<Longrightarrow> typed_store T s'"
proof -
  assume t: "agent_types T" "typed_store T s" "PollSystemOnce vm cpu s = (err, s')"
  then have "T ''TotalMemory'' = Gauge" "T ''FreeMemory'' = Gauge" by (simp_all add: agent_types_def agent_gauge_def)
  with t show ?thesis by (auto simp: PollSystemOnce_def typed_store_cpus split: sum.splits)
qed

lemma SnapshotMetrics_typed:
  assumes "typed_store T s" "SnapshotMetrics gks cks s = (ms, s')"
  shows "typed_batch T ms" "typed_store T s'"
proof -
  have g: "typed_batch T (gauge_loop (st_gauges s) ks)" for ks
    using assms(1) by (induction ks) (auto simp: typed_batch_def typed_store_def gauge_metric_def split: option.splits)
  have c: "typed_batch T xs"
    if "counter_loop ks f = (xs, f')" "\<forall>n. f n \<noteq> None \<longrightarrow> T n = Counter" for ks f xs f'
    using that
  proof (induction ks arbitrary: f xs)
    case (Cons k ks)
    show ?case
    proof (cases "f k")
      case None
      with Cons show ?thesis by simp
    next
      case (Some v)
      obtain ys where y: "counter_loop ks (f(k := None)) = (ys, f')" "xs = counter_metric k v # ys"
        using Cons.prems(1) Some by (auto split: prod.splits)
      have "typed_batch T ys" using Cons.prems(2) by (intro Cons.IH [OF y(1)]) simp
      with Cons.prems(2) Some y(2) show ?thesis by (simp add: typed_batch_def counter_metric_def)
    qed
  qed (simp add: typed_batch_def)
  obtain xs f' where x: "counter_loop cks (st_counters s) = (xs, f')" by fastforce
  with assms(2) have "ms = gauge_loop (st_gauges s) gks @ xs" "s' = s\<lparr>st_counters := f'\<rparr>" by (auto simp: SnapshotMetrics_def)
  with g [of gks] c [OF x] counter_loop_left [OF x] assms(1) show "typed_batch T ms" "typed_store T s'"
    by (auto simp: typed_batch_def typed_store_def split: if_splits)
qed

definition types_ok :: "(string \<Rightarrow> string) \<Rightarrow> 'n loop \<Rightarrow> bool" where
  "types_ok T l \<longleftrightarrow> typed_store T (lp_store l) \<and> (\<forall>b \<in> set (lp_made l). typed_batch T (batch_Metrics b))"

lemma types_ok_step: "astep att l l' \<Longrightarrow> agent_types T \<Longrightarrow> types_ok T l \<Longrightarrow> types_ok T l'"
proof (induction rule: astep.induct)
  case (snapshot l gks cks ms st i b)
  with SnapshotMetrics_typed [OF _ snapshot(4)] show ?case by (auto simp: types_ok_def)
qed (auto simp: types_ok_def PollOnce_typed intro: PollSystemOnce_typed)

lemma types_ok_run: "arun att k l \<Longrightarrow> agent_types T \<Longrightarrow> types_ok T k \<Longrightarrow> types_ok T l"
  by (induction rule: arun.induct) (auto intro: types_ok_step)

lemma arun_types: "arun att (loop_start rate NewStore n) l \<Longrightarrow> agent_types T \<Longrightarrow> types_ok T l"
  by (erule types_ok_run) (simp_all add: types_ok_def loop_start_def)

section \<open>The agent and the database\<close>

text \<open>The table does not use a name of the agent with the other type.\<close>

definition agent_names_free :: "row gomap \<Rightarrow> bool" where
  "agent_names_free t \<longleftrightarrow> (\<forall>n r. t n = Some r \<longrightarrow>
     (n = ''PollCount'' \<longrightarrow> row_type r = Counter) \<and> (agent_gauge n \<longrightarrow> row_type r = Gauge))"

definition table_types :: "row gomap \<Rightarrow> string \<Rightarrow> string" where
  "table_types t n = (if n = ''PollCount'' then Counter else if agent_gauge n then Gauge
     else case t n of None \<Rightarrow> Gauge | Some r \<Rightarrow> row_type r)"

lemma PollCount_no_gauge: "\<not> agent_gauge ''PollCount''"
  by (simp add: agent_gauge_def runtime_gauges_def HasPrefix_def)

lemma table_types_ok:
  assumes "agent_names_free t"
  shows "typed_table (table_types t) t" "agent_types (table_types t)"
  using assms PollCount_no_gauge
  by (auto simp: typed_table_def agent_types_def table_types_def agent_names_free_def)

text \<open>
  C3. End to end with PostgreSQL. An agent runs its loops against a server that stores in PostgreSQL: requests and
  replies between agent and server may be lost, and so may calls of the server to the database and their replies,
  commits included; both sides retry. The table must not hold \<open>PollCount\<close> as a gauge or one of the agent's gauges as
  a counter, since such rows overwrite each other. When \<open>Agent.Run\<close> returns nil after the final report, nothing is left to
  send and what a reader of the database sees of every counter has grown by exactly what the agent counted.
\<close>

theorem agent_to_pg_server_exact:
  assumes "arun (grpc_attempt (Svc_UpdateMetricsOnce lib (NewMetricsService pg_repository)) (map_option outside answer))
             (loop_start rate NewStore n0) l"
    and "quiescent l"
    and "wf_table (tbl_metrics (nt_server n0))" and "agent_names_free (tbl_metrics (nt_server n0))"
    and "\<forall>b \<in> set (lp_made l). tbl_receipts (nt_server n0) (batch_ID b) = None"
    and "ag_pending a = lp_pending l" and "ag_store a = lp_store l"
    and "rand_text_form i" and "i \<notin> batch_ID ` set (lp_made l)" and "tbl_receipts (nt_server n0) i = None"
    and "snapshot_orders (lp_store l) gks cks"
    and "Run_finish (grpc_send (Svc_UpdateMetricsOnce lib (NewMetricsService pg_repository)) (map_option outside answer) now ctx)
             i gks cks l a = (None, a', n')"
  shows "ag_pending a' = []
       \<and> map_get0 (pg_counter_view (tbl_metrics (nt_server n'))) c =
           map_get0 (pg_counter_view (tbl_metrics (nt_server n0))) c + (if c = ''PollCount'' then of_nat (lp_polls l) else 0)"
proof -
  let ?T = "table_types (tbl_metrics (nt_server n0))"
  let ?send = "grpc_send (Svc_UpdateMetricsOnce lib (NewMetricsService pg_repository)) (map_option outside answer) now ctx"
  note T = table_types_ok [OF assms(4)]
  have types: "types_ok ?T l" by (rule arun_types [OF assms(1) T(2)])
  have "pg_link.server.implements lib answer ?send"
    unfolding pg_link.server.implements_def by (simp add: grpc_attempt_send)
  moreover have "pg_link.server.fresh_ids ?T n0 (lp_made l)"
    unfolding pg_link.server.fresh_ids_def using assms(5) types
    by (auto simp: pg_received_def typed_batch_metrics types_ok_def)
  moreover have "pg_ok ?T (nt_server n0)" using assms(3) T(1) by (simp add: pg_ok_def)
  moreover have "typed_metrics (\<lambda>n t. t = ?T n) (batch_Metrics (New_Batch i (fst (SnapshotMetrics gks cks (lp_store l)))))"
    using types SnapshotMetrics_typed(1) [of ?T "lp_store l" gks cks]
    by (cases "SnapshotMetrics gks cks (lp_store l)") (simp add: typed_batch_metrics types_ok_def)
  moreover have "i \<notin> pg_received (nt_server n0)" using assms(10) by (simp add: pg_received_def domIff)
  ultimately show ?thesis
    using pg_link.server.run_delivers_all [OF _ assms(1,2) _ _ assms(6-9) _ assms(11) _ Run_finish_None(1) [OF assms(12)], of ?T c]
    by (simp add: NewStore_def polled_def pg_counter_def)
qed

section \<open>A concrete run\<close>

definition demo_pg :: "pgdb net" where
  "demo_pg = \<lparr>nt_server = \<lparr>tbl_metrics = Map.empty, tbl_receipts = Map.empty, outcomes = []\<rparr>, nt_fates = []\<rparr>"

lemma updateMetricsTx_gauges:
  "\<exists>t'. updateMetricsTx (gauge_loop m ks @ ms) t [] = updateMetricsTx ms t' [] \<and> (\<forall>n. n \<notin> set ks \<longrightarrow> t' n = t n)"
proof (induction ks arbitrary: t)
  case (Cons k ks)
  show ?case
  proof (cases "m k")
    case None
    with Cons.IH [of t] show ?thesis by auto
  next
    case (Some v)
    obtain t1 where u: "upsertGaugeQuery k Gauge v t = Inr t1" "\<forall>n. n \<noteq> k \<longrightarrow> t1 n = t n"
      by (cases "t k") (auto simp: upsertGaugeQuery_def)
    have "tx_Exec (upsertGaugeQuery k Gauge v) t [] = (Inr t1, [])" by (simp add: tx_Exec_def u(1))
    with Cons.IH [of t1] Some u(2) show ?thesis by (auto simp: gauge_metric_def)
  qed
qed auto

lemma demo_pg_accepts:
  assumes "snapshot_orders demo_polled gks [''PollCount'']" "SnapshotMetrics gks [''PollCount''] demo_polled = (ms, st)"
    and "list_all (\<lambda>m. proper m \<and> encodable m) ms"
  shows "\<exists>db. Svc_UpdateMetricsOnce lib (NewMetricsService pg_repository) demo_id ms (nt_server demo_pg) = ((True, None), db)"
proof -
  have ms: "ms = gauge_loop (st_gauges demo_polled) gks @ [counter_metric ''PollCount'' 1]"
    using assms(2) by (simp add: SnapshotMetrics_def demo_polled_maps(3))
  have "st_gauges demo_polled ''PollCount'' = None"
    by (simp add: demo_polled_def PollOnce_def runtime_gauges_def SetGauge_def IncCounter_def NewStore_def)
  then have "''PollCount'' \<notin> set gks" using assms(1) by (simp add: snapshot_orders_def range_order_def domIff)
  with updateMetricsTx_gauges [of "st_gauges demo_polled" gks "[counter_metric ''PollCount'' 1]" Map.empty]
  obtain t' where "updateMetricsTx ms Map.empty [] = (Inr t', [])"
    by (auto simp: ms counter_metric_def Counter_def Gauge_def tx_Exec_def upsertCounterQuery_def)
  moreover obtain f where "Fingerprint lib ms = Inr f"
    using assms(3) Fingerprint_ok_iff [of lib ms] by (auto simp: list_all_iff)
  moreover have "ValidKey demo_id" "ms \<noteq> []" by (simp_all add: rand_text_ValidKey [OF demo_id_form] ms)
  ultimately show ?thesis
    by (simp add: pg_service_once demo_pg_def Pg_UpdateMetricsOnce_def retryPostgres_def Do_def DoWithSleeper_def once_closure_def
        pg_updateMetricsOnce_def plain_call_def commit_call_def settled_def)
qed

lemma agent_to_pg_server_exact_witness:
  "\<exists>gks a a' n'. ag_pending a = [] \<and> ag_store a = demo_polled
     \<and> Run_finish (grpc_send (Svc_UpdateMetricsOnce demo_lib (NewMetricsService pg_repository)) None 0 None)
          demo_id gks [''PollCount''] (loop_after_poll demo_pg) a = (None, a', n')
     \<and> map_get0 (pg_counter_view (tbl_metrics (nt_server n'))) ''PollCount'' = 1"
proof -
  let ?once = "Svc_UpdateMetricsOnce demo_lib (NewMetricsService pg_repository)"
  obtain gks ms st where s: "snapshot_orders demo_polled gks [''PollCount'']"
    "SnapshotMetrics gks [''PollCount''] demo_polled = (ms, st)" "ms \<noteq> []"
    "list_all (\<lambda>m. proper m \<and> encodable m) ms" by (rule demo_snapshot)
  obtain db where db: "?once demo_id ms (nt_server demo_pg) = ((True, None), db)" using demo_pg_accepts [OF s(1,2,4)] by blast
  obtain n' where n: "grpc_send ?once None 0 None (New_Batch demo_id ms) demo_pg = (None, n')"
    using accepted_send [where once = ?once, OF s(3,4) db] by (auto simp: demo_pg_def)
  let ?a = "\<lparr>ag_sender = None, ag_pending = [], ag_pollInterval = 1, ag_reportInterval = 1, ag_serverURL = ''http'',
    ag_client = (\<lambda>_ n. (Inr 200, n)), ag_store = demo_polled, ag_key = [], ag_publicKey = None, ag_rateLimit = 1,
    ag_retrySleep = (\<lambda>_ n. n)\<rparr> :: pgdb net Agent"
  obtain a' where "ReportOnce (grpc_send ?once None 0 None) demo_id gks [''PollCount''] ?a demo_pg = (None, a', n')"
    using s(2,3) n by (simp add: ReportOnce_def takePending_def)
  then have r: "Run_finish (grpc_send ?once (map_option outside None) 0 None) demo_id gks [''PollCount'']
      (loop_after_poll demo_pg) ?a = (None, a', n')"
    by (simp add: Run_finish_def loop_after_poll_simps errors_Join_None_iff)
  have t: "wf_table (tbl_metrics (nt_server demo_pg))" "agent_names_free (tbl_metrics (nt_server demo_pg))"
    "tbl_receipts (nt_server demo_pg) demo_id = None" "map_get0 (pg_counter_view (tbl_metrics (nt_server demo_pg))) ''PollCount'' = 0"
    by (simp_all add: demo_pg_def wf_table_def agent_names_free_def pg_counter_view_def map_get0_def)
  from agent_to_pg_server_exact [OF loop_after_poll_run loop_after_poll_simps(6) t(1,2) _ _ _ demo_id_form _ t(3) _ r, of "''PollCount''"]
  have "map_get0 (pg_counter_view (tbl_metrics (nt_server n'))) ''PollCount'' = 1"
    using s(1) t(4) by (simp add: loop_after_poll_simps)
  with r show ?thesis by (intro exI [of _ gks] exI [of _ ?a] exI [of _ a'] exI [of _ n']) simp
qed

end
