(* ===== verification/Pg_Http.thy ===== *)
theory Pg_Http
  imports Pg_Server Http_Link
begin

text \<open>
  The HTTP link with the server as \<open>cmd/server/main.go\<close> builds it for a database.
\<close>

interpretation pg_http: http_service lib "NewMetricsService pg_repository" pg_received pg_counter "map_option outside answer"
  "pg_ok T" "\<lambda>n t. t = T n" for lib answer T
  unfolding http_service_def by (rule pg_link.keyed_service_axioms)

definition pg_handler :: "(pgdb \<Rightarrow> gerr \<times> pgdb) \<Rightarrow> (Event \<Rightarrow> gerr) option \<Rightarrow> pgdb MetricsHandler" where
  "pg_handler ping answer =
     NewMetricsHandlerWithDBAndAudit (NewMetricsService pg_repository) (Some (Some ping)) (map_option outside answer)"

text \<open>
  The same as over gRPC, with everything HTTP adds in between: when \<open>Agent.Run\<close> returns nil, what a reader of the
  database sees of every counter has grown by exactly what the agent counted.
\<close>

theorem agent_to_pg_http_server_exact:
  fixes l :: "pgdb net loop"
  assumes "arun (http_attempt lib wl (http_serve lib wl key priv trusted (pg_handler ping answer)) akey pub)
             (loop_start rate NewStore n0) l"
    and "quiescent l" and "link_ok lib wl priv pub"
    and "wf_table (tbl_metrics (nt_server n0))" and "agent_names_free (tbl_metrics (nt_server n0))"
    and "\<forall>b \<in> set (lp_made l). tbl_receipts (nt_server n0) (batch_ID b) = None"
    and "http_agent (http_serve lib wl key priv trusted (pg_handler ping answer)) akey pub a"
    and "ag_pending a = lp_pending l" and "ag_store a = lp_store l"
    and "\<forall>b n. \<exists>env. rnd_ok (se_rand env) \<and> send b n = sendBatch lib wl env a b n"
    and "rand_text_form i" and "i \<notin> batch_ID ` set (lp_made l)" and "tbl_receipts (nt_server n0) i = None"
    and "snapshot_orders (lp_store l) gks cks"
    and "Run_finish send i gks cks l a = (None, a', n')"
  shows "ag_pending a' = []
       \<and> map_get0 (pg_counter_view (tbl_metrics (nt_server n'))) c =
           map_get0 (pg_counter_view (tbl_metrics (nt_server n0))) c + (if c = ''PollCount'' then of_nat (lp_polls l) else 0)"
proof -
  let ?T = "table_types (tbl_metrics (nt_server n0))"
  let ?ms = "fst (SnapshotMetrics gks cks (lp_store l))"
  note h = pg_handler_def [of ping answer, unfolded NewMetricsHandlerWithDBAndAudit_def]
  note T = table_types_ok [OF assms(5)] and names = arun_names [OF assms(1)]
  have types: "types_ok ?T l" by (rule arun_types [OF assms(1) T(2)])
  have "pg_http.http.implements lib wl key priv trusted (Some (Some ping)) answer akey pub send"
    unfolding pg_http.http.implements_def unfolding h [symmetric] using assms(10) http_attempt_send [OF assms(7)] by blast
  moreover have "pg_http.http.fresh_ids lib wl priv pub ?T n0 (lp_made l)"
    unfolding pg_http.http.fresh_ids_def using assms(3,6) types names
    by (auto simp: pg_received_def typed_batch_metrics types_ok_def carries_def names_ok_def)
  moreover have "pg_ok ?T (nt_server n0)" using assms(4) T(1) by (simp add: pg_ok_def)
  moreover have "carries lib wl priv pub (New_Batch i ?ms) \<and> typed_metrics (\<lambda>n t. t = ?T n) (batch_Metrics (New_Batch i ?ms))"
    using assms(3,14) types names SnapshotMetrics_typed(1) [of ?T "lp_store l" gks cks] SnapshotMetrics_utf8(1) [of "lp_store l" gks cks]
    by (cases "SnapshotMetrics gks cks (lp_store l)") (simp add: typed_batch_metrics types_ok_def carries_def names_ok_def)
  moreover have "i \<notin> pg_received (nt_server n0)" using assms(13) by (simp add: pg_received_def domIff)
  ultimately show ?thesis
    using pg_http.http.run_delivers_all [OF _ assms(1) [unfolded h] assms(2) _ _ assms(8,9,11,12) _ assms(14) _
        Run_finish_None(1) [OF assms(15)], of ?T c]
    by (simp add: NewStore_def polled_def pg_counter_def)
qed

end
