(* ===== verification/Audit_Once.thy ===== *)
theory Audit_Once
  imports Mem_Http
begin

text \<open>
  Keyed batches and the audit file: over both transports, and however often batches are delivered, the audit file
  has one line for every batch that took effect. With synchronous saving there is an exception, which is stated exactly.
\<close>

section \<open>Calls of the batch endpoints\<close>

datatype batch_call =
    HttpBatch http_env http_request
  | HttpSingle http_env http_request
  | GrpcBatch int64 "nat option" metadata "pb_Metric option list option"

text \<open>A server without synchronous saving whose audit file works.\<close>

definition audit_works :: "audit_io \<Rightarrow> bool" where
  "audit_works io \<longleftrightarrow> au_ctx io = None \<and> au_mkdir io = None \<and> au_open io = None \<and> au_write io = None"

definition audited_handler :: "audit_io \<Rightarrow> string \<Rightarrow> mem_world MetricsHandler" where
  "audited_handler io apath = main_handler (NewMetricsService mem_repository) None [mem_file_observer io apath]"

fun serve_call :: "golib \<Rightarrow> audit_io \<Rightarrow> string \<Rightarrow> batch_call \<Rightarrow> mem_world \<Rightarrow> mem_world" where
  "serve_call lib io apath (HttpBatch env r) w = snd (UpdateMetricsJSON lib env (audited_handler io apath) r w)"
| "serve_call lib io apath (HttpSingle env r) w = snd (UpdateMetricJSON lib env (audited_handler io apath) r w)"
| "serve_call lib io apath (GrpcBatch now ctx md req) w =
     snd (Grpc_UpdateMetrics (Svc_UpdateMetricsOnce lib (NewMetricsService mem_repository))
            (Some (Notifier_Notify [mem_file_observer io apath])) now ctx md req w)"

text \<open>The call carries a key, valid or not.\<close>

fun keyed_call :: "batch_call \<Rightarrow> bool" where
  "keyed_call (HttpBatch env r) \<longleftrightarrow> header_Values (hr_Header r) delivery_Header \<noteq> []"
| "keyed_call (HttpSingle env r) \<longleftrightarrow> header_Values (hr_Header r) delivery_Header \<noteq> []"
| "keyed_call (GrpcBatch now ctx md req) \<longleftrightarrow> md ''idempotency-key'' \<noteq> []"

lemma audited_handler_eq:
  "audited_handler io apath = \<lparr>h_service = NewMetricsService mem_repository, h_db = Some None,
     h_auditor = Some (Notifier_Notify [mem_file_observer io apath])\<rparr>"
  by (simp add: audited_handler_def main_handler_def NewMetricsHandlerWithDBAndAudit_def interface_of_pointer_def Enabled_def)

lemma notify_line:
  assumes "audit_works io"
  shows "snd (Notifier_Notify [mem_file_observer io apath] ev w) = w\<lparr>mw_fs := append_file apath (event_line ev @ newline) (mw_fs w)\<rparr>"
  using assms by (simp add: Notifier_Notify_def mem_file_observer_def FileObserver_Notify_def NewFileObserver_def audit_works_def event_line_def)

section \<open>One call\<close>

text \<open>What a keyed call of the service does: nothing, or it applies the batch for the first time and says so.\<close>

lemma plain_once_cases:
  assumes "k \<noteq> []" "Svc_UpdateMetricsOnce lib (NewMetricsService mem_repository) k ms w = ((a, e), w')"
  obtains (none) "w' = w" "e \<noteq> None \<or> \<not> a"
  | (new) "a" "e = None" "ms \<noteq> []" "k \<notin> mem_received w" "mw_fs w' = mw_fs w" "mem_received w' = insert k (mem_received w)"
      "\<And>c. mem_counter w' c = mem_counter w c + batch_delta c ms"
proof (cases "ms = [] \<or> \<not> ValidKey k")
  case True
  with assms have "w' = w" "e \<noteq> None \<or> \<not> a" by (auto simp: Svc_UpdateMetricsOnce_def split: if_splits)
  with none show ?thesis by blast
next
  case False
  then have kv: "ValidKey k" "ms \<noteq> []" by simp_all
  have r: "rp_UpdateMetricsOnce (svc_repo (NewMetricsService mem_repository)) = Some (\<lambda>k f ms. on_store (Mem_UpdateMetricsOnce k f ms))"
    "svc_save (NewMetricsService mem_repository) v = (None, v)" for v
    by (simp_all add: NewMetricsService_def mem_repository_def svc_save_def)
  note call = assms(2) [unfolded Svc_UpdateMetricsOnce_keyed [OF kv r(1)] r(2)]
  show ?thesis
  proof (cases "Fingerprint lib ms")
    case (Inl x)
    with call none show ?thesis by auto
  next
    case (Inr f)
    show ?thesis
    proof (cases "ms_receipts (mw_store w) k")
      case (Some g)
      then have "on_store (Mem_UpdateMetricsOnce k f ms) w = ((False, if g \<noteq> f then Some ErrConflict else None), w)"
        by (simp add: on_store_def Mem_UpdateMetricsOnce_def)
      with call Inr none show ?thesis by (auto split: if_splits)
    next
      case None
      let ?s = "updateMetricsLocked ms (mw_store w)"
      have "on_store (Mem_UpdateMetricsOnce k f ms) w
          = ((True, None), w\<lparr>mw_store := ?s\<lparr>ms_receipts := (ms_receipts ?s)(k \<mapsto> f)\<rparr>\<rparr>)"
        using None by (simp add: on_store_def Mem_UpdateMetricsOnce_def Let_def)
      with call Inr have w': "a" "e = None" "w' = w\<lparr>mw_store := ?s\<lparr>ms_receipts := (ms_receipts ?s)(k \<mapsto> f)\<rparr>\<rparr>" by auto
      show ?thesis
      proof (rule new)
        show "mem_received w' = insert k (mem_received w)"
          using updateMetricsLocked_receipts [of ms "mw_store w"] by (simp add: w'(3) mem_received_def)
        show "mem_counter w' c = mem_counter w c + batch_delta c ms" for c
          by (simp add: w'(3) mem_counter_def updateMetricsLocked_counter)
      qed (use w' kv None in \<open>simp_all add: mem_received_def domIff\<close>)
    qed
  qed
qed

text \<open>The effect of one call on storage and audit file.\<close>

definition audited_step :: "string \<Rightarrow> mem_world \<Rightarrow> mem_world \<Rightarrow> bool" where
  "audited_step apath w w' \<longleftrightarrow> w' = w
     \<or> (\<exists>k ms ev. k \<notin> mem_received w \<and> mem_received w' = insert k (mem_received w)
          \<and> (\<forall>c. mem_counter w' c = mem_counter w c + batch_delta c ms)
          \<and> ev_Metrics ev = map ID ms \<and> mw_fs w' = append_file apath (event_line ev @ newline) (mw_fs w))"

lemma audited_once:
  assumes "k \<noteq> []" "Svc_UpdateMetricsOnce lib (NewMetricsService mem_repository) k ms w = ((a, e), w1)" "audit_works io"
    and "ev_Metrics ev = map ID ms"
    and "w' = (if e = None \<and> a then snd (Notifier_Notify [mem_file_observer io apath] ev w1) else w1)"
  shows "audited_step apath w w'"
  using assms(1,2)
proof (cases rule: plain_once_cases)
  case none
  with assms(5) show ?thesis by (auto simp: audited_step_def)
next
  case new
  with assms(5) notify_line [OF assms(3)] have "w' = w1\<lparr>mw_fs := append_file apath (event_line ev @ newline) (mw_fs w1)\<rparr>" by simp
  with new assms(4) show ?thesis
    unfolding audited_step_def by (intro disjI2 exI [of _ k] exI [of _ ms] exI [of _ ev]) (simp add: mem_received_def mem_counter_def)
qed

lemma storeBatch_audited:
  assumes "header_Values (hr_Header r) delivery_Header \<noteq> []" "audit_works io" "ms \<noteq> []"
    and "storeBatch lib env (audited_handler io apath) r ms no_response w = (ok, resp, w')"
  shows "audited_step apath w w'"
proof (cases "key_of r")
  case None
  with assms(4) show ?thesis by (simp add: storeBatch_cases audited_step_def)
next
  case (Some k)
  have k: "k \<noteq> []" using Some assms(1) by (auto simp: key_of_def ValidKey_def Let_def split: list.splits if_splits)
  obtain a e w1 where o: "Svc_UpdateMetricsOnce lib (NewMetricsService mem_repository) k ms w = ((a, e), w1)" by (metis surj_pair)
  let ?ev = "NewEvent (he_split_host_port env) (he_now env) (map ID ms) (hr_RemoteAddr r)"
  have "w' = (if e = None \<and> a then snd (Notifier_Notify [mem_file_observer io apath] ?ev w1) else w1)"
    using assms(3,4) Some o
    by (cases e) (auto simp: storeBatch_cases audited_handler_eq handler_audit_def split: if_splits)
  from audited_once [OF k o assms(2) _ this] show ?thesis by (simp add: NewEvent_def)
qed

lemma serve_call_audited:
  assumes "keyed_call call" "audit_works io"
  shows "audited_step apath w (serve_call lib io apath call w)"
proof (cases call)
  case (HttpBatch env r)
  let ?h = "audited_handler io apath"
  obtain resp w' where u: "UpdateMetricsJSON lib env ?h r w = (resp, w')" by fastforce
  have "w' = w \<or> (\<exists>ms ok resp'. ms \<noteq> [] \<and> storeBatch lib env ?h r ms no_response w = (ok, resp', w'))"
  proof (cases "\<exists>j ms. request_json r = Some j \<and> batch_of_json lib j = Some ms \<and> validate_all ms = StatusOK")
    case True
    then obtain j ms where j: "request_json r = Some j" "batch_of_json lib j = Some ms" "validate_all ms = StatusOK" by blast
    obtain ok resp' w1 where s: "storeBatch lib env ?h r ms no_response w = (ok, resp', w1)" by (metis surj_pair)
    have "w' = w1" using u j s by (cases ok) (auto simp: UpdateMetricsJSON_def)
    moreover have "w1 = w" if "ms = []"
      using s that by (auto simp: storeBatch_cases Svc_UpdateMetricsOnce_def split: option.splits)
    ultimately show ?thesis using s by blast
  next
    case False
    with u show ?thesis by (auto simp: UpdateMetricsJSON_def split: option.splits if_splits)
  qed
  with HttpBatch u assms storeBatch_audited show ?thesis by (auto simp: audited_step_def [of apath w w])
next
  case (HttpSingle env r)
  let ?h = "audited_handler io apath"
  obtain resp w' where u: "UpdateMetricJSON lib env ?h r w = (resp, w')" by fastforce
  then have "w' = w \<or> (\<exists>m ok resp'. storeBatch lib env ?h r [m] no_response w = (ok, resp', w'))"
    by (fastforce simp: UpdateMetricJSON_def split: option.splits if_splits prod.splits bool.splits)
  with HttpSingle u assms storeBatch_audited [of r io "[_]"] show ?thesis by (auto simp: audited_step_def [of apath w w])
next
  case (GrpcBatch now ctx md req)
  let ?once = "Svc_UpdateMetricsOnce lib (NewMetricsService mem_repository)"
  let ?aud = "Some (Notifier_Notify [mem_file_observer io apath])"
  obtain err w' where u: "Grpc_UpdateMetrics ?once ?aud now ctx md req w = (err, w')" by fastforce
  show ?thesis
  proof (cases "\<exists>its k ms. req = Some its \<and> request_key (md ''idempotency-key'') = Some k \<and> from_items its = Inr ms \<and> ms \<noteq> [] \<and> ctx = None")
    case False
    then have "w' = w" using u by (auto simp: Grpc_UpdateMetrics_def split: option.splits sum.splits if_splits)
    with GrpcBatch u show ?thesis by (simp add: audited_step_def)
  next
    case True
    then obtain its k ms where i: "req = Some its" "request_key (md ''idempotency-key'') = Some k" "from_items its = Inr ms"
      "ms \<noteq> []" "ctx = None" by blast
    have k: "k \<noteq> []"
      using i(2) GrpcBatch assms(1) by (auto simp: request_key_def ValidKey_def split: if_splits)
    obtain a e w1 where o: "?once k ms w = ((a, e), w1)" by (metis surj_pair)
    let ?ev = "\<lparr>ev_Timestamp = now, ev_Metrics = map ID ms, ev_IPAddress = incoming_ip md\<rparr>"
    have "w' = (if e = None \<and> a then snd (Notifier_Notify [mem_file_observer io apath] ?ev w1) else w1)"
      using u i o by (cases e) (auto simp: Grpc_UpdateMetrics_def split: if_splits)
    from audited_once [OF k o assms(2) _ this] GrpcBatch u show ?thesis by simp
  qed
qed

section \<open>Any sequence of calls\<close>

text \<open>The text of the audit file, and the lines of a log of keys, batches and events.\<close>

definition audit_text :: "string \<Rightarrow> mem_world \<Rightarrow> string" where
  "audit_text apath w = (case mw_fs w apath of None \<Rightarrow> [] | Some t \<Rightarrow> t)"

definition log_text :: "(string \<times> Metrics list \<times> Event) list \<Rightarrow> string" where
  "log_text entries = concat (map (\<lambda>ev. event_line ev @ newline) (map (\<lambda>(k, ms, ev). ev) entries))"

text \<open>The keys of the log are new and different, and storage and file have changed by exactly its batches and events.\<close>

definition logged :: "string \<Rightarrow> mem_world \<Rightarrow> mem_world \<Rightarrow> (string \<times> Metrics list \<times> Event) list \<Rightarrow> bool" where
  "logged apath w w' entries \<longleftrightarrow>
     distinct (map fst entries) \<and> set (map fst entries) \<inter> mem_received w = {}
     \<and> mem_received w' = mem_received w \<union> set (map fst entries)
     \<and> (\<forall>c. mem_counter w' c = mem_counter w c + sum_list (map (\<lambda>(k, ms, ev). batch_delta c ms) entries))
     \<and> list_all (\<lambda>(k, ms, ev). ev_Metrics ev = map ID ms) entries
     \<and> audit_text apath w' = audit_text apath w @ log_text entries"

lemma logged_Nil: "logged apath w w []"
  by (simp add: logged_def log_text_def)

lemma logged_step:
  assumes "audited_step apath w w1" "logged apath w1 w' entries"
  shows "\<exists>entries'. logged apath w w' entries'"
  using assms(1) unfolding audited_step_def
proof (elim disjE exE conjE)
  assume "w1 = w"
  with assms(2) show ?thesis by blast
next
  fix k ms ev
  assume n: "k \<notin> mem_received w" "mem_received w1 = insert k (mem_received w)"
    "\<forall>c. mem_counter w1 c = mem_counter w c + batch_delta c ms" "ev_Metrics ev = map ID ms"
    "mw_fs w1 = append_file apath (event_line ev @ newline) (mw_fs w)"
  then have "audit_text apath w1 = audit_text apath w @ event_line ev @ newline" by (simp add: audit_text_def append_file_def)
  with n assms(2) show ?thesis by (intro exI [of _ "(k, ms, ev) # entries"]) (auto simp: logged_def log_text_def add.assoc)
qed

lemma calls_logged:
  "list_all keyed_call calls \<Longrightarrow> audit_works io \<Longrightarrow> \<exists>entries. logged apath w (fold (serve_call lib io apath) calls w) entries"
proof (induction calls arbitrary: w)
  case Nil
  then show ?case using logged_Nil by auto
next
  case (Cons call calls)
  let ?w1 = "serve_call lib io apath call w"
  obtain entries where "logged apath ?w1 (fold (serve_call lib io apath) calls ?w1) entries" using Cons by fastforce
  from logged_step [OF serve_call_audited this] Cons.prems show ?case by simp
qed


definition quiet_world :: mem_world where
  "quiet_world = nt_server demo_net"

definition twice :: "batch_call list" where
  "twice = replicate 2 (GrpcBatch 0 None (no_metadata(''idempotency-key'' := [demo_id]))
     (Some [Some \<lparr>pb_Id = ''c'', pb_Type = Metric_COUNTER, pb_Delta = 5, pb_Value = 0\<rparr>]))"


section \<open>A failed save loses the event\<close>

lemma sync_once_eq:
  assumes "ValidKey k" "ms \<noteq> []" "Fingerprint lib ms = Inr f"
  shows "Svc_UpdateMetricsOnce lib (synchronous_service lib path) k ms w =
    (case Mem_UpdateMetricsOnce k f ms (mw_store w) of
       ((_, Some e), s) \<Rightarrow> ((False, Some e), w\<lparr>mw_store := s\<rparr>)
     | ((applied, None), s) \<Rightarrow> (let (err, w2) = saveAndHandle lib path (w\<lparr>mw_store := s\<rparr>) in ((applied, err), w2)))"
proof -
  have "rp_UpdateMetricsOnce (svc_repo (synchronous_service lib path)) = Some (\<lambda>k f ms. on_store (Mem_UpdateMetricsOnce k f ms))"
    "svc_save (synchronous_service lib path) v = saveAndHandle lib path v" for v
    by (simp_all add: synchronous_service_def SetSaveOnUpdate_def NewMetricsService_def mem_repository_def svc_save_def)
  then show ?thesis
    using assms(3) by (simp add: Svc_UpdateMetricsOnce_keyed [OF assms(1,2)] on_store_def split: prod.split option.split)
qed

text \<open>A save keeps every other file.\<close>

lemma saveAndHandle_files:
  assumes "fresh_temp (mw_io w) path (mw_fs w)" "saveAndHandle lib path w = (e, w')" "p \<noteq> path"
  shows "mw_fs w' p = mw_fs w p"
proof -
  obtain fs' where s: "SaveToFile lib (mw_io w) (mw_ord w) path (mw_store w) (mw_fs w) = (e, fs')" "w' = w\<lparr>mw_fs := fs'\<rparr>"
    using assms(2) by (auto simp: saveAndHandle_def split: prod.splits)
  from SaveToFile_result [OF assms(1) s(1)] s(2) assms(3) show ?thesis by (auto split: option.splits)
qed

text \<open>
  C27. With synchronous saving an audit event can be lost. A batch with a new key is applied in memory, the save fails and
  the endpoint answers 500, without an audit event. The agent delivers the batch again under its key; the server finds the
  receipt, repeats the save as it means to, and acknowledges with 200, but as a duplicate it is not audited. The batch is
  stored, counted and acknowledged, and the audit file has never heard of it.
\<close>

theorem failed_save_unaudited:
  assumes "Option.bind (request_json r) (batch_of_json lib) = Some ms" and "validate_all ms = StatusOK" and "ms \<noteq> []"
    and "key_of r = Some k" and "ValidKey k" and "k \<notin> mem_received w" and "apath \<noteq> path"
    and "fresh_temp (mw_io w) path (mw_fs w)" and "fresh_temp io2 path (mw_fs w1)"
    and "UpdateMetricsJSON lib env (sync_handler lib path io apath) r w = (resp, w1)" and "final_status resp = 500"
    and "UpdateMetricsJSON lib env2 (sync_handler lib path io apath) r (w1\<lparr>mw_io := io2, mw_ord := o2\<rparr>) = (resp2, w2)"
    and "final_status resp2 = 200"
  shows "mem_received w2 = insert k (mem_received w) \<and> mem_counter w2 c = mem_counter w c + batch_delta c ms
       \<and> audit_text apath w2 = audit_text apath w"
proof -
  let ?h = "sync_handler lib path io apath"
  from assms(1) obtain j where j: "request_json r = Some j" "batch_of_json lib j = Some ms" by (cases "request_json r") auto
  have u: "UpdateMetricsJSON lib env ?h r v = (resp, v') \<Longrightarrow> Svc_UpdateMetricsOnce lib (synchronous_service lib path) k ms v = ((a, e), v1)
      \<Longrightarrow> (final_status resp = 200 \<longleftrightarrow> e = None) \<and> (e \<noteq> None \<or> \<not> a \<longrightarrow> v' = v1)" for env v resp v' a e v1
    using assms(2,4) j by (cases e) (auto simp: UpdateMetricsJSON_def storeBatch_cases sync_handler_eq split: if_splits)
  let ?s = "updateMetricsLocked ms (mw_store w)"
  have conflictless: "Fingerprint lib ms \<noteq> Inl x" for x
  proof
    assume x: "Fingerprint lib ms = Inl x"
    have "Svc_UpdateMetricsOnce lib (synchronous_service lib path) k ms v = ((False, Some (WrapError ''fingerprint metrics'' [x])), v)" for v
      using x assms(3,5) Svc_UpdateMetricsOnce_keyed [of k ms "synchronous_service lib path" _ lib v]
      by (simp add: synchronous_service_def SetSaveOnUpdate_def NewMetricsService_def mem_repository_def)
    from u [OF assms(12) this] assms(13) show False by simp
  qed
  then obtain f where f: "Fingerprint lib ms = Inr f" by (cases "Fingerprint lib ms") auto
  note once = sync_once_eq [OF assms(5,3) f]
  have new: "Mem_UpdateMetricsOnce k f ms (mw_store w) = ((True, None), ?s\<lparr>ms_receipts := (ms_receipts ?s)(k \<mapsto> f)\<rparr>)"
    using assms(6) by (simp add: Mem_UpdateMetricsOnce_def Let_def mem_received_def domIff)
  let ?u = "w\<lparr>mw_store := ?s\<lparr>ms_receipts := (ms_receipts ?s)(k \<mapsto> f)\<rparr>\<rparr>"
  obtain e1 x1 where s1: "saveAndHandle lib path ?u = (e1, x1)" by fastforce
  from u [OF assms(10), of True e1 x1] once [where w = w] new s1 assms(11) have w1: "w1 = x1" by auto
  have st1: "mw_store w1 = mw_store ?u" using saveAndHandle_keeps [OF s1] w1 by simp
  let ?v = "w1\<lparr>mw_io := io2, mw_ord := o2\<rparr>"
  have dup: "Mem_UpdateMetricsOnce k f ms (mw_store ?v) = ((False, None), mw_store ?v)"
    by (simp add: Mem_UpdateMetricsOnce_def st1)
  obtain e2 x2 where s2: "saveAndHandle lib path ?v = (e2, x2)" by fastforce
  from u [OF assms(12), of False e2 x2] once [where w = ?v] dup s2 have w2: "w2 = x2" by auto
  have "mw_store w2 = mw_store ?u" using saveAndHandle_keeps [OF s2] w2 st1 by simp
  moreover have "mw_fs w2 apath = mw_fs w apath"
    using saveAndHandle_files [OF _ s1 assms(7)] saveAndHandle_files [OF _ s2 assms(7)] w1 w2 assms(8,9) by simp
  ultimately show ?thesis
    by (simp add: mem_received_def mem_counter_def audit_text_def updateMetricsLocked_counter)
qed

definition once_batch :: "Metrics list" where
  "once_batch = [counter_metric ''c'' 5]"

definition once_request :: http_request where
  "once_request = demo_request\<lparr>hr_Header := header_Set delivery_Header demo_id no_header,
     hr_Body := json_print (the (json_of_batch demo_lib once_batch))\<rparr>"

lemma once_request_decodes:
  "Option.bind (request_json once_request) (batch_of_json demo_lib) = Some once_batch" "validate_all once_batch = StatusOK"
  "key_of once_request = Some demo_id"
proof -
  obtain j where j: "json_of_batch demo_lib once_batch = Some j"
    using json_of_batch_None_iff [of demo_lib once_batch] by (cases "json_of_batch demo_lib once_batch") (auto simp: once_batch_def encodable_counter)
  have "list_all utf8_metric once_batch"
    by (simp add: once_batch_def utf8_metric_def ascii_utf8 Counter_def)
  with batch_text [OF demo_lib_float j] sanitize_utf8_batch j
  show "Option.bind (request_json once_request) (batch_of_json demo_lib) = Some once_batch"
    by (simp add: request_json_def once_request_def demo_request_def)
  show "validate_all once_batch = StatusOK"
    by (simp add: once_batch_def validateUpdateMetric_def counter_metric_def Counter_def Gauge_def)
  show "key_of once_request = Some demo_id"
    using rand_text_ValidKey [OF demo_id_form] by (simp add: key_of_def once_request_def)
qed

lemma failed_save_unaudited_witness:
  "\<exists>resp w1 resp2 w2 io o'.
     UpdateMetricsJSON demo_lib demo_env (sync_handler demo_lib ''file'' demo_audit ''audit'') once_request
       (quiet_world\<lparr>mw_io := good_io\<lparr>io_create := Some (ErrorString ''disk full'')\<rparr>\<rparr>) = (resp, w1)
     \<and> final_status resp = 500
     \<and> UpdateMetricsJSON demo_lib demo_env (sync_handler demo_lib ''file'' demo_audit ''audit'') once_request
         (w1\<lparr>mw_io := io, mw_ord := o'\<rparr>) = (resp2, w2)
     \<and> final_status resp2 = 200 \<and> mem_counter w2 ''c'' = 5 \<and> audit_text ''audit'' w2 = []"
proof -
  let ?w = "quiet_world\<lparr>mw_io := good_io\<lparr>io_create := Some (ErrorString ''disk full'')\<rparr>\<rparr>"
  let ?o = "\<lparr>ord_gauges = [], ord_counters = [''c''], ord_receipts = [demo_id]\<rparr>"
  let ?h = "sync_handler demo_lib ''file'' demo_audit ''audit''"
  have key: "ValidKey demo_id" "once_batch \<noteq> []" by (simp_all add: rand_text_ValidKey [OF demo_id_form] once_batch_def)
  obtain f where f: "Fingerprint demo_lib once_batch = Inr f"
    using Fingerprint_ok_iff [of demo_lib once_batch] by (auto simp: once_batch_def encodable_counter)
  obtain j where j: "request_json once_request = Some j" "batch_of_json demo_lib j = Some once_batch"
    using once_request_decodes(1) by (cases "request_json once_request") auto
  note once = sync_once_eq [OF key f]
  have u: "Svc_UpdateMetricsOnce demo_lib (synchronous_service demo_lib ''file'') demo_id once_batch v = ((a, e), v1) \<Longrightarrow> \<not> a \<or> e \<noteq> None \<Longrightarrow>
      \<exists>resp. UpdateMetricsJSON demo_lib demo_env ?h once_request v = (resp, v1) \<and> final_status resp = (case e of None \<Rightarrow> 200 | Some x \<Rightarrow> if is_conflict x then 409 else 500)"
    for v a e v1
    using once_request_decodes(2,3) j by (cases e) (auto simp: UpdateMetricsJSON_def storeBatch_cases sync_handler_eq)
  let ?s = "NewMemStorage\<lparr>ms_counters := [''c'' \<mapsto> 5], ms_receipts := [demo_id \<mapsto> f]\<rparr>"
  let ?u = "?w\<lparr>mw_store := ?s\<rparr>"
  have m: "Mem_UpdateMetricsOnce demo_id f once_batch (mw_store ?w) = ((True, None), ?s)"
    by (simp add: Mem_UpdateMetricsOnce_def quiet_world_def demo_net_def once_batch_def NewMemStorage_def update_metric_def
        counter_metric_def Counter_def Gauge_def map_inc_def map_get0_def Let_def)
  let ?e = "WrapError ''failed to create temp file'' [ErrorString ''disk full'']"
  have s1: "saveAndHandle demo_lib ''file'' ?u = (Some ?e, ?u)"
    by (simp add: saveAndHandle_def SaveToFile_def good_io_def wrap_def)
  have "\<not> is_conflict ?e" by (simp add: is_conflict_def)
  with u [of ?w True "Some ?e" ?u] once [where w = ?w] m s1 obtain resp where
    r1: "UpdateMetricsJSON demo_lib demo_env ?h once_request ?w = (resp, ?u)" "final_status resp = 500" by auto
  let ?v = "?u\<lparr>mw_io := good_io, mw_ord := ?o\<rparr>"
  have "json_of_records demo_lib (records_of ?o ?s) \<noteq> None"
    by (simp add: json_of_records_None_iff records_of_def fileSnapshot_def snapshotMetricsLocked_def snapshot_gauges_def
        snapshot_counters_def List.map_filter_simps encodable_def NewMemStorage_def)
  then obtain d where d: "json_of_records demo_lib (records_of ?o ?s) = Some d" by blast
  obtain x where s2: "saveAndHandle demo_lib ''file'' ?v = (None, x)"
    using demo_SaveToFile [OF d] by (simp add: saveAndHandle_def quiet_world_def demo_net_def)
  define v where "v = ?v"
  have "Mem_UpdateMetricsOnce demo_id f once_batch (mw_store v) = ((False, None), mw_store v)"
    by (simp add: Mem_UpdateMetricsOnce_def v_def)
  with once [where w = v] s2 [folded v_def]
  have "Svc_UpdateMetricsOnce demo_lib (synchronous_service demo_lib ''file'') demo_id once_batch v = ((False, None), x)" by simp
  from u [OF this] obtain resp2 where
    r2: "UpdateMetricsJSON demo_lib demo_env ?h once_request ?v = (resp2, x)" "final_status resp2 = 200" unfolding v_def by auto
  have t: "fresh_temp (mw_io ?w) ''file'' (mw_fs ?w)" "fresh_temp good_io ''file'' (mw_fs ?u)" "demo_id \<notin> mem_received ?w"
    "mem_counter ?w ''c'' = 0" "audit_text ''audit'' ?w = []" "batch_delta ''c'' once_batch = 5"
    by (simp_all add: fresh_temp_def good_io_def quiet_world_def demo_net_def mem_received_def mem_counter_def NewMemStorage_def
        audit_text_def once_batch_def)
  from failed_save_unaudited [OF once_request_decodes(1,2) key(2) once_request_decodes(3) key(1) t(3) _ t(1,2) r1 r2, of "''c''"] t(4-6)
  have "mem_counter x ''c'' = 5 \<and> audit_text ''audit'' x = []" by simp
  with r1 r2 show ?thesis by blast
qed

end
