(* ===== verification/Lifecycle.thy ===== *)
theory Lifecycle
  imports Persistence
begin

text \<open>
  \<open>internal/server\<close>: serving with one or two transports until cancellation or a failing listener, the shutdown of
  the transports and the flush after it, as a step relation over the state machine of the saver. The theory
  shows that the flush comes when no handler can write any more, which is what the saver assumes of its
  callers, and that the shutdown ends.
\<close>

section \<open>Transports\<close>

text \<open>
  A listener with its server: \<open>active\<close> handlers, whether \<open>Shutdown\<close> or \<open>GracefulStop\<close> was called and has
  returned, what \<open>Serve\<close> returned, and whether that was received from the channel \<open>results\<close>.
\<close>

record transport =
  tr_grpc :: bool
  tr_active :: nat
  tr_closing :: bool
  tr_down :: bool
  tr_ret :: "gerr option"
  tr_received :: bool

definition new_transport :: "bool \<Rightarrow> transport" where
  "new_transport g = \<lparr>tr_grpc = g, tr_active = 0, tr_closing = False, tr_down = False, tr_ret = None, tr_received = False\<rparr>"

definition ErrServerClosed :: goerror where
  "ErrServerClosed = Sentinel ''http: Server closed''"

definition ErrServerStopped :: goerror where
  "ErrServerStopped = Sentinel ''grpc: the server has been stopped''"

text \<open>\<open>errs[i] = nil\<close> for the errors of an orderly end.\<close>

definition orderly :: "gerr \<Rightarrow> gerr" where
  "orderly err =
     (case err of None \<Rightarrow> None
      | Some e \<Rightarrow> if errors_Is e ''http: Server closed'' \<or> errors_Is e ''grpc: the server has been stopped'' then None else Some e)"

section \<open>The life of a server\<close>

text \<open>
  The goroutine of \<open>serve\<close> and \<open>serveBoth\<close>: waiting in the \<open>select\<close>, waiting for the shutdown calls, receiving
  the remaining results, in \<open>flush\<close>, or returned. \<open>lc_errs\<close> is the slice \<open>errs\<close>: the first result and the
  error of \<open>srv.Shutdown\<close>, then the results in the order of their arrival.
\<close>

datatype phase = Serving | Draining | Collecting | Flushing | Returned gerr

record 'w lifecycle =
  lc_ctx :: bool
  lc_phase :: phase
  lc_transports :: "transport list"
  lc_first :: gerr
  lc_shutdown :: gerr
  lc_rest :: "gerr list"
  lc_saver :: "'w persistence"

definition lifecycle_start :: "bool \<Rightarrow> 'w persistence \<Rightarrow> 'w lifecycle" where
  "lifecycle_start both p =
     \<lparr>lc_ctx = False, lc_phase = Serving,
      lc_transports = (if both then [new_transport False, new_transport True] else [new_transport False]),
      lc_first = None, lc_shutdown = None, lc_rest = [], lc_saver = p\<rparr>"

text \<open>What is returned with the result of \<open>flush\<close>: \<open>serveBoth\<close> joins the slice, \<open>serve\<close> the error of its
  only transport, that of \<open>Shutdown\<close> and that of \<open>flush\<close>.\<close>

definition both_result :: "'w lifecycle \<Rightarrow> gerr \<Rightarrow> gerr" where
  "both_result l flushed = errors_Join (map orderly ([lc_first l, lc_shutdown l] @ lc_rest l) @ [flushed])"

definition single_result :: "'w lifecycle \<Rightarrow> gerr \<Rightarrow> gerr" where
  "single_result l flushed =
     (let serveErr = (if lc_first l = None then (case lc_rest l of e # _ \<Rightarrow> e | [] \<Rightarrow> None) else lc_first l);
          serveErr' = (case serveErr of None \<Rightarrow> None
                       | Some e \<Rightarrow> if errors_Is e ''http: Server closed'' then None else Some e)
      in errors_Join [serveErr', lc_shutdown l, flushed])"

definition lifecycle_result :: "'w lifecycle \<Rightarrow> gerr \<Rightarrow> gerr" where
  "lifecycle_result l flushed = (if length (lc_transports l) = 1 then single_result l flushed else both_result l flushed)"

definition set_transport :: "nat \<Rightarrow> transport \<Rightarrow> 'w lifecycle \<Rightarrow> 'w lifecycle" where
  "set_transport i t l = l\<lparr>lc_transports := (lc_transports l)[i := t]\<rparr>"

text \<open>The shutdown calls are made on every transport when the \<open>select\<close> is left.\<close>

definition begin_shutdown :: "'w lifecycle \<Rightarrow> 'w lifecycle" where
  "begin_shutdown l = l\<lparr>lc_phase := Draining, lc_transports := map (\<lambda>t. t\<lparr>tr_closing := True\<rparr>) (lc_transports l)\<rparr>"

text \<open>
  The steps. Handlers start while their server is not down: a connection accepted before the shutdown may
  still send its request. \<open>upd\<close> is what a handler does to the storage. \<open>Serve\<close> fails on its own with an error,
  or returns when its server is closing. \<open>Shutdown\<close> and \<open>GracefulStop\<close> return when no handler is active.
  The saver's goroutine and its environment run throughout. The label of a step is that of the saver.
\<close>

inductive lstep ::
  "('w \<Rightarrow> gerr \<times> 'w) \<Rightarrow> ('w \<Rightarrow> 'w \<Rightarrow> bool) \<Rightarrow> ('w \<Rightarrow> 'w \<Rightarrow> bool) \<Rightarrow> 'w lifecycle \<Rightarrow> 'w lifecycle \<Rightarrow> bool"
  for save :: "'w \<Rightarrow> gerr \<times> 'w" and upd env :: "'w \<Rightarrow> 'w \<Rightarrow> bool" where
  handler_start: "i < length (lc_transports l) \<Longrightarrow> t = lc_transports l ! i \<Longrightarrow> \<not> tr_down t \<Longrightarrow>
     lstep save upd env l (set_transport i (t\<lparr>tr_active := tr_active t + 1\<rparr>) l)"
| handler_write: "i < length (lc_transports l) \<Longrightarrow> tr_active (lc_transports l ! i) > 0 \<Longrightarrow> upd (p_world (lc_saver l)) w \<Longrightarrow>
     lstep save upd env l (l\<lparr>lc_saver := (lc_saver l)\<lparr>p_world := w\<rparr>\<rparr>)"
| handler_end: "i < length (lc_transports l) \<Longrightarrow> t = lc_transports l ! i \<Longrightarrow> tr_active t > 0 \<Longrightarrow>
     lstep save upd env l (set_transport i (t\<lparr>tr_active := tr_active t - 1\<rparr>) l)"
| serve_fails: "i < length (lc_transports l) \<Longrightarrow> t = lc_transports l ! i \<Longrightarrow> tr_ret t = None \<Longrightarrow>
     lstep save upd env l (set_transport i (t\<lparr>tr_ret := Some (Some e)\<rparr>) l)"
| serve_ends: "i < length (lc_transports l) \<Longrightarrow> t = lc_transports l ! i \<Longrightarrow> tr_ret t = None \<Longrightarrow> tr_closing t \<Longrightarrow>
     e = (if tr_grpc t then None else Some ErrServerClosed) \<Longrightarrow>
     lstep save upd env l (set_transport i (t\<lparr>tr_ret := Some e\<rparr>) l)"
| cancel: "lstep save upd env l (l\<lparr>lc_ctx := True\<rparr>)"
| wake_ctx: "lc_phase l = Serving \<Longrightarrow> lc_ctx l \<Longrightarrow> lstep save upd env l (begin_shutdown l)"
| wake_result: "lc_phase l = Serving \<Longrightarrow> i < length (lc_transports l) \<Longrightarrow> t = lc_transports l ! i \<Longrightarrow> tr_ret t = Some e \<Longrightarrow>
     lstep save upd env l (begin_shutdown (set_transport i (t\<lparr>tr_received := True\<rparr>) (l\<lparr>lc_first := e\<rparr>)))"
| shutdown_returns: "lc_phase l = Draining \<Longrightarrow> i < length (lc_transports l) \<Longrightarrow> t = lc_transports l ! i \<Longrightarrow>
     tr_active t = 0 \<Longrightarrow> \<not> tr_down t \<Longrightarrow>
     lstep save upd env l (set_transport i (t\<lparr>tr_down := True\<rparr>) (if tr_grpc t then l else l\<lparr>lc_shutdown := e\<rparr>))"
| drained: "lc_phase l = Draining \<Longrightarrow> \<forall>t \<in> set (lc_transports l). tr_down t \<Longrightarrow>
     lstep save upd env l (l\<lparr>lc_phase := Collecting\<rparr>)"
| collect: "lc_phase l = Collecting \<Longrightarrow> i < length (lc_transports l) \<Longrightarrow> t = lc_transports l ! i \<Longrightarrow>
     tr_ret t = Some e \<Longrightarrow> \<not> tr_received t \<Longrightarrow>
     lstep save upd env l (set_transport i (t\<lparr>tr_received := True\<rparr>) (l\<lparr>lc_rest := lc_rest l @ [e]\<rparr>))"
| flush_begin: "lc_phase l = Collecting \<Longrightarrow> \<forall>t \<in> set (lc_transports l). tr_received t \<Longrightarrow> p_once (lc_saver l) = NotStarted \<Longrightarrow>
     lstep save upd env l (l\<lparr>lc_phase := Flushing, lc_saver := close_begin (lc_saver l)\<rparr>)"
| flush_end: "lc_phase l = Flushing \<Longrightarrow> p_done (lc_saver l) \<Longrightarrow> p = close_finish save (lc_saver l) \<Longrightarrow>
     lstep save upd env l (l\<lparr>lc_phase := Returned (lifecycle_result l (p_err p)), lc_saver := p\<rparr>)"
| saver_ticks: "\<not> p_done (lc_saver l) \<Longrightarrow> lstep save upd env l (l\<lparr>lc_saver := run_tick save (lc_saver l)\<rparr>)"
| saver_returns: "\<not> p_done (lc_saver l) \<Longrightarrow> p_stop (lc_saver l) \<Longrightarrow> lstep save upd env l (l\<lparr>lc_saver := run_return (lc_saver l)\<rparr>)"
| environment: "env (p_world (lc_saver l)) w \<Longrightarrow> lstep save upd env l (l\<lparr>lc_saver := (lc_saver l)\<lparr>p_world := w\<rparr>\<rparr>)"

inductive lrun ::
  "('w \<Rightarrow> gerr \<times> 'w) \<Rightarrow> ('w \<Rightarrow> 'w \<Rightarrow> bool) \<Rightarrow> ('w \<Rightarrow> 'w \<Rightarrow> bool) \<Rightarrow> 'w lifecycle \<Rightarrow> 'w lifecycle \<Rightarrow> bool"
  for save :: "'w \<Rightarrow> gerr \<times> 'w" and upd env :: "'w \<Rightarrow> 'w \<Rightarrow> bool" where
  start: "lrun save upd env l l"
| more: "lrun save upd env l l' \<Longrightarrow> lstep save upd env l' l'' \<Longrightarrow> lrun save upd env l l''"


section \<open>The flush comes last\<close>

definition served :: "'w lifecycle \<Rightarrow> bool" where
  "served l \<longleftrightarrow>
     (\<forall>t \<in> set (lc_transports l). (tr_down t \<longrightarrow> tr_active t = 0) \<and> (lc_phase l \<noteq> Serving \<longrightarrow> tr_closing t)
        \<and> (lc_phase l \<noteq> Serving \<and> lc_phase l \<noteq> Draining \<longrightarrow> tr_down t))
   \<and> (case lc_phase l of
        Flushing \<Rightarrow> p_once (lc_saver l) = Closing \<and> p_stop (lc_saver l)
      | Returned r \<Rightarrow> p_once (lc_saver l) = Finished \<and> r = lifecycle_result l (p_err (lc_saver l))
      | _ \<Rightarrow> p_once (lc_saver l) = NotStarted)"

lemma served_start: "served (lifecycle_start both (configurePersistence i w))"
  by (auto simp: served_def lifecycle_start_def new_transport_def configurePersistence_def)

lemma set_transport_sel [simp]:
  "lc_transports (set_transport i t l) = (lc_transports l)[i := t]" "lc_phase (set_transport i t l) = lc_phase l"
  "lc_saver (set_transport i t l) = lc_saver l" "lc_ctx (set_transport i t l) = lc_ctx l"
  "lc_first (set_transport i t l) = lc_first l" "lc_shutdown (set_transport i t l) = lc_shutdown l"
  "lc_rest (set_transport i t l) = lc_rest l"
  "lifecycle_result (set_transport i t l) = lifecycle_result l"
  by (simp_all add: set_transport_def lifecycle_result_def both_result_def [abs_def] single_result_def [abs_def] fun_eq_iff)

lemma lifecycle_result_cong [simp]:
  "lifecycle_result (l\<lparr>lc_saver := p\<rparr>) = lifecycle_result l" "lifecycle_result (l\<lparr>lc_ctx := b\<rparr>) = lifecycle_result l"
  "lifecycle_result (l\<lparr>lc_phase := ph\<rparr>) = lifecycle_result l"
  by (simp_all add: lifecycle_result_def both_result_def single_result_def fun_eq_iff)

text \<open>A changed transport that keeps the clauses of \<open>served\<close>.\<close>

lemma served_update:
  assumes "served l" "i < length (lc_transports l)"
    and "tr_closing (lc_transports l ! i) \<Longrightarrow> tr_closing t" "tr_down (lc_transports l ! i) \<Longrightarrow> tr_down t" "tr_down t \<Longrightarrow> tr_active t = 0"
  shows "served (set_transport i t l)"
proof -
  have old: "lc_transports l ! i \<in> set (lc_transports l)" using assms(2) by simp
  have new: "x = t \<or> x \<in> set (lc_transports l)" if "x \<in> set ((lc_transports l)[i := t])" for x
    using that set_update_subset_insert [of "lc_transports l" i t] by auto
  let ?P = "\<lambda>t. (tr_down t \<longrightarrow> tr_active t = 0) \<and> (lc_phase l \<noteq> Serving \<longrightarrow> tr_closing t)
     \<and> (lc_phase l \<noteq> Serving \<and> lc_phase l \<noteq> Draining \<longrightarrow> tr_down t)"
  have all: "\<forall>t \<in> set (lc_transports l). ?P t" using assms(1) by (simp add: served_def)
  with old assms(3-5) have "?P t" by blast
  with all new have "\<forall>x \<in> set ((lc_transports l)[i := t]). ?P x" by blast
  with assms(1) show ?thesis by (cases "lc_phase l") (simp_all add: served_def)
qed

lemma served_nth:
  "served l \<Longrightarrow> i < length (lc_transports l) \<Longrightarrow> tr_down (lc_transports l ! i) \<Longrightarrow> tr_active (lc_transports l ! i) = 0"
  "served l \<Longrightarrow> i < length (lc_transports l) \<Longrightarrow> lc_phase l \<noteq> Serving \<Longrightarrow> tr_closing (lc_transports l ! i)"
  "served l \<Longrightarrow> i < length (lc_transports l) \<Longrightarrow> lc_phase l \<noteq> Serving \<Longrightarrow> lc_phase l \<noteq> Draining \<Longrightarrow> tr_down (lc_transports l ! i)"
  by (auto simp: served_def)

lemma served_other:
  "served l \<Longrightarrow> lc_phase l \<in> {Serving, Draining, Collecting} \<Longrightarrow> served (l\<lparr>lc_first := e\<rparr>)"
  "served l \<Longrightarrow> lc_phase l \<in> {Serving, Draining, Collecting} \<Longrightarrow> served (l\<lparr>lc_shutdown := e\<rparr>)"
  "served l \<Longrightarrow> lc_phase l \<in> {Serving, Draining, Collecting} \<Longrightarrow> served (l\<lparr>lc_rest := es\<rparr>)"
  by (auto simp: served_def)

lemma served_step:
  assumes "lstep save upd env l l'" "served l"
  shows "served l'"
  using assms(1)
proof cases
  case (handler_start i t)
  show ?thesis unfolding handler_start(1) by (rule served_update [OF assms(2)]) (use handler_start in auto)
next
  case (handler_end i t)
  show ?thesis unfolding handler_end(1) by (rule served_update [OF assms(2)]) (use handler_end served_nth(1) [OF assms(2)] in auto)
next
  case (serve_fails i t e)
  show ?thesis unfolding serve_fails(1) by (rule served_update [OF assms(2)]) (use serve_fails served_nth(1) [OF assms(2)] in auto)
next
  case (serve_ends i t e)
  show ?thesis unfolding serve_ends(1) by (rule served_update [OF assms(2)]) (use serve_ends served_nth(1) [OF assms(2)] in auto)
next
  case wake_ctx
  with assms(2) show ?thesis by (auto simp: served_def begin_shutdown_def)
next
  case (wake_result i t e)
  let ?l = "set_transport i (t\<lparr>tr_received := True\<rparr>) (l\<lparr>lc_first := e\<rparr>)"
  have "served (l\<lparr>lc_first := e\<rparr>)" using assms(2) wake_result(2) by (simp add: served_other)
  then have "served ?l" using wake_result by (intro served_update) (auto simp: served_def)
  with wake_result show ?thesis by (auto simp: served_def begin_shutdown_def)
next
  case (shutdown_returns i t e)
  have "served (if tr_grpc t then l else l\<lparr>lc_shutdown := e\<rparr>)" using assms(2) shutdown_returns(2) by (simp add: served_other)
  then show ?thesis using shutdown_returns unfolding shutdown_returns(1) by (intro served_update) (auto split: if_splits)
next
  case (collect i t e)
  have "served (l\<lparr>lc_rest := lc_rest l @ [e]\<rparr>)" using assms(2) collect(2) by (simp add: served_other)
  then show ?thesis using collect served_nth(1) [OF assms(2), of i] unfolding collect(1) by (intro served_update) auto
next
  case flush_end
  with assms(2) show ?thesis by (auto simp: served_def close_finish_def split: prod.split)
qed (use assms(2) in \<open>auto simp: served_def close_begin_def run_tick_def run_return_def split: phase.splits\<close>)

text \<open>So the lifecycle gives the saver what \<open>Close\<close> asks of its callers: no writer once it has begun.\<close>

lemma saver_step:
  assumes "lstep save upd env l l'" "served l"
  shows "lc_saver l' = lc_saver l \<or> (\<exists>b. pstep save upd env (lc_saver l) b (lc_saver l'))"
  using assms(1)
proof cases
  case (handler_write i w)
  have "lc_phase l = Serving \<or> lc_phase l = Draining"
    using served_nth(1,3) [OF assms(2) handler_write(2)] handler_write(3) by auto
  with assms(2) have "p_once (lc_saver l) = NotStarted" by (auto simp: served_def)
  from pstep.writer [OF this, of upd w save env] handler_write show ?thesis by auto
next
  case flush_begin
  with pstep.closing [of "lc_saver l" save upd env] show ?thesis by auto
next
  case (flush_end p)
  with assms(2) have "p_once (lc_saver l) = Closing" by (simp add: served_def)
  from pstep.finish [OF this, of save upd env] flush_end show ?thesis by auto
next
  case saver_ticks
  with pstep.tick [of "lc_saver l" save upd env] show ?thesis by auto
next
  case saver_returns
  with pstep.returns [of "lc_saver l" save upd env] show ?thesis by auto
next
  case (environment w)
  with pstep.choose [of env "lc_saver l" w save upd] show ?thesis by auto
qed (simp_all add: begin_shutdown_def)

lemma lrun_served: "lrun save upd env l l' \<Longrightarrow> served l \<Longrightarrow> served l'"
  by (induction rule: lrun.induct) (auto intro: served_step)

lemma lrun_saver:
  assumes "lrun save upd env l l'" "served l"
  shows "\<exists>bs. prun save upd env (lc_saver l) bs (lc_saver l')"
  using assms
proof (induction rule: lrun.induct)
  case (start l)
  show ?case by (rule exI [of _ "[]"]) (rule prun.start)
next
  case (more l l' l'')
  then obtain bs where bs: "prun save upd env (lc_saver l) bs (lc_saver l')" by blast
  from saver_step [OF more(2) lrun_served [OF more(1,4)]] show ?case
    by (metis bs prun.more)
qed

section \<open>Shutdown ends\<close>

definition transport_work :: "transport \<Rightarrow> nat" where
  "transport_work t = tr_active t + (if tr_down t then 0 else 1) + (if tr_ret t = None then 1 else 0) + (if tr_received t then 0 else 1)"

definition phase_work :: "phase \<Rightarrow> nat" where
  "phase_work ph = (case ph of Serving \<Rightarrow> 4 | Draining \<Rightarrow> 3 | Collecting \<Rightarrow> 2 | Flushing \<Rightarrow> 1 | Returned r \<Rightarrow> 0)"

definition shutdown_work :: "'w lifecycle \<Rightarrow> nat" where
  "shutdown_work l = phase_work (lc_phase l) + sum_list (map transport_work (lc_transports l)) + (if p_done (lc_saver l) then 0 else 1)"

lemma work_update:
  assumes "i < length ts" "transport_work t < transport_work (ts ! i)"
  shows "sum_list (map transport_work (ts[i := t])) < sum_list (map transport_work ts)"
proof -
  have "transport_work (ts ! i) \<le> sum_list (map transport_work ts)" using assms(1) by (intro member_le_sum_list) auto
  with assms show ?thesis by (simp add: map_update sum_list_update)
qed

lemma work_map: "(\<And>t. transport_work (f t) = transport_work t) \<Longrightarrow> sum_list (map transport_work (map f ts)) = sum_list (map transport_work ts)"
  by (induction ts) auto

text \<open>A cancelled server always has a step of its own that brings the end nearer.\<close>

lemma shutdown_progress:
  assumes "served l" "lc_ctx l" "\<forall>r. lc_phase l \<noteq> Returned r"
  shows "\<exists>l'. lstep save upd env l l' \<and> lc_ctx l' \<and> shutdown_work l' < shutdown_work l"
proof (cases "lc_phase l")
  case Serving
  have "lstep save upd env l (begin_shutdown l)" using Serving assms(2) by (rule lstep.wake_ctx)
  moreover have "shutdown_work (begin_shutdown l) < shutdown_work l"
    using Serving work_map [of "\<lambda>t. t\<lparr>tr_closing := True\<rparr>" "lc_transports l"]
    by (simp add: shutdown_work_def begin_shutdown_def phase_work_def transport_work_def)
  ultimately show ?thesis using assms(2) by (intro exI [of _ "begin_shutdown l"]) (simp add: begin_shutdown_def)
next
  case Draining
  show ?thesis
  proof (cases "\<forall>t \<in> set (lc_transports l). tr_down t")
    case True
    with lstep.drained [OF Draining, of save upd env] assms(2) Draining show ?thesis
      by (intro exI [of _ "l\<lparr>lc_phase := Collecting\<rparr>"]) (simp add: shutdown_work_def phase_work_def)
  next
    case False
    then obtain i where i: "i < length (lc_transports l)" "\<not> tr_down (lc_transports l ! i)" by (auto simp: in_set_conv_nth)
    let ?t = "lc_transports l ! i"
    show ?thesis
    proof (cases "tr_active ?t = 0")
      case True
      let ?l' = "set_transport i (?t\<lparr>tr_down := True\<rparr>) (if tr_grpc ?t then l else l\<lparr>lc_shutdown := None\<rparr>)"
      have "lstep save upd env l ?l'" using lstep.shutdown_returns [OF Draining i(1) refl True i(2)] .
      moreover have "shutdown_work ?l' < shutdown_work l"
        using work_update [OF i(1), of "?t\<lparr>tr_down := True\<rparr>"] i(2) by (simp add: shutdown_work_def transport_work_def)
      ultimately show ?thesis using assms(2) by (intro exI [of _ ?l']) simp
    next
      case False
      let ?l' = "set_transport i (?t\<lparr>tr_active := tr_active ?t - 1\<rparr>) l"
      have "lstep save upd env l ?l'" using lstep.handler_end [OF i(1) refl] False by simp
      moreover have "shutdown_work ?l' < shutdown_work l"
        using work_update [OF i(1), of "?t\<lparr>tr_active := tr_active ?t - 1\<rparr>"] False by (simp add: shutdown_work_def transport_work_def)
      ultimately show ?thesis using assms(2) by (intro exI [of _ ?l']) simp
    qed
  qed
next
  case Collecting
  show ?thesis
  proof (cases "\<forall>t \<in> set (lc_transports l). tr_received t")
    case True
    have "p_once (lc_saver l) = NotStarted" using assms(1) Collecting by (simp add: served_def)
    from lstep.flush_begin [OF Collecting True this, of save upd env] assms(2) Collecting show ?thesis
      by (intro exI [of _ "l\<lparr>lc_phase := Flushing, lc_saver := close_begin (lc_saver l)\<rparr>"])
         (simp add: shutdown_work_def phase_work_def close_begin_def)
  next
    case False
    then obtain i where i: "i < length (lc_transports l)" "\<not> tr_received (lc_transports l ! i)" by (auto simp: in_set_conv_nth)
    let ?t = "lc_transports l ! i"
    show ?thesis
    proof (cases "tr_ret ?t")
      case None
      let ?e = "if tr_grpc ?t then None else Some ErrServerClosed"
      let ?l' = "set_transport i (?t\<lparr>tr_ret := Some ?e\<rparr>) l"
      have "tr_closing ?t" using served_nth(2) [OF assms(1) i(1)] Collecting by simp
      from lstep.serve_ends [OF i(1) refl None this refl] have "lstep save upd env l ?l'" .
      moreover have "shutdown_work ?l' < shutdown_work l"
        using work_update [OF i(1), of "?t\<lparr>tr_ret := Some ?e\<rparr>"] None by (simp add: shutdown_work_def transport_work_def)
      ultimately show ?thesis using assms(2) by (intro exI [of _ ?l']) simp
    next
      case (Some e)
      let ?l' = "set_transport i (?t\<lparr>tr_received := True\<rparr>) (l\<lparr>lc_rest := lc_rest l @ [e]\<rparr>)"
      have "lstep save upd env l ?l'" using lstep.collect [OF Collecting i(1) refl Some i(2)] .
      moreover have "shutdown_work ?l' < shutdown_work l"
        using work_update [OF i(1), of "?t\<lparr>tr_received := True\<rparr>"] i(2) by (simp add: shutdown_work_def transport_work_def)
      ultimately show ?thesis using assms(2) by (intro exI [of _ ?l']) simp
    qed
  qed
next
  case Flushing
  show ?thesis
  proof (cases "p_done (lc_saver l)")
    case True
    let ?p = "close_finish save (lc_saver l)"
    have "p_done ?p" using True by (simp add: close_finish_def split: prod.split)
    with lstep.flush_end [OF Flushing True refl, of save upd env] assms(2) Flushing True show ?thesis
      by (intro exI [of _ "l\<lparr>lc_phase := Returned (lifecycle_result l (p_err ?p)), lc_saver := ?p\<rparr>"])
         (simp add: shutdown_work_def phase_work_def)
  next
    case False
    have "p_stop (lc_saver l)" using assms(1) Flushing by (simp add: served_def)
    from lstep.saver_returns [OF False this, of save upd env] assms(2) Flushing False show ?thesis
      by (intro exI [of _ "l\<lparr>lc_saver := run_return (lc_saver l)\<rparr>"]) (simp add: shutdown_work_def run_return_def)
  qed
next
  case (Returned r)
  with assms(3) show ?thesis by simp
qed

inductive lsteps ::
  "('w \<Rightarrow> gerr \<times> 'w) \<Rightarrow> ('w \<Rightarrow> 'w \<Rightarrow> bool) \<Rightarrow> ('w \<Rightarrow> 'w \<Rightarrow> bool) \<Rightarrow> nat \<Rightarrow> 'w lifecycle \<Rightarrow> 'w lifecycle \<Rightarrow> bool"
  for save :: "'w \<Rightarrow> gerr \<times> 'w" and upd env :: "'w \<Rightarrow> 'w \<Rightarrow> bool" where
  none: "lsteps save upd env 0 l l"
| one: "lstep save upd env l l' \<Longrightarrow> lsteps save upd env n l' l'' \<Longrightarrow> lsteps save upd env (Suc n) l l''"

lemma shutdown_ends:
  assumes "served l" "lc_ctx l"
  shows "\<exists>n l' r. lsteps save upd env n l l' \<and> n \<le> shutdown_work l \<and> lc_phase l' = Returned r"
  using assms
proof (induction "shutdown_work l" arbitrary: l rule: less_induct)
  case less
  show ?case
  proof (cases "\<forall>r. lc_phase l \<noteq> Returned r")
    case False
    then show ?thesis by (auto intro: lsteps.none)
  next
    case True
    from shutdown_progress [OF less(2,3) True] obtain l1 where l1: "lstep save upd env l l1" "lc_ctx l1" "shutdown_work l1 < shutdown_work l"
      by blast
    from less(1) [OF l1(3) served_step [OF l1(1) less(2)] l1(2)] obtain n l' r where
      "lsteps save upd env n l1 l'" "n \<le> shutdown_work l1" "lc_phase l' = Returned r" by blast
    with l1 lsteps.one [OF l1(1)] show ?thesis by (intro exI [of _ "Suc n"] exI [of _ l'] exI [of _ r]) auto
  qed
qed


section \<open>Starting to serve\<close>

text \<open>\<open>flush()\<close> without interleaving: the goroutine returns, the last save is made.\<close>

definition close_now :: "('w \<Rightarrow> gerr \<times> 'w) \<Rightarrow> 'w persistence \<Rightarrow> 'w persistence" where
  "close_now save p = close_finish save (run_return (close_begin p))"

text \<open>\<open>Run\<close> and \<open>RunWithGRPC\<close>: an address that cannot be listened on ends the program, but still flushes.
  \<open>rpc\<close> is \<^const>\<open>None\<close> without a gRPC server, else the result of listening on its address.\<close>

definition Run_http :: "('w \<Rightarrow> gerr \<times> 'w) \<Rightarrow> gerr \<Rightarrow> 'w persistence \<Rightarrow> (gerr \<times> 'w persistence) + 'w lifecycle" where
  "Run_http save listen p =
     (case listen of
        Some e \<Rightarrow> (let q = close_now save p in Inl (errors_Join [Some (WrapError ''listen'' [e]), p_err q], q))
      | None \<Rightarrow> Inr (lifecycle_start False p))"

definition RunWithGRPC :: "('w \<Rightarrow> gerr \<times> 'w) \<Rightarrow> gerr \<Rightarrow> gerr option \<Rightarrow> 'w persistence \<Rightarrow> (gerr \<times> 'w persistence) + 'w lifecycle" where
  "RunWithGRPC save listen rpc p =
     (case rpc of
        None \<Rightarrow> Run_http save listen p
      | Some rpcListen \<Rightarrow>
        (case listen of
           Some e \<Rightarrow> (let q = close_now save p in Inl (errors_Join [Some e, p_err q], q))
         | None \<Rightarrow>
           (case rpcListen of
              Some e \<Rightarrow> (let q = close_now save p in Inl (errors_Join [Some e, p_err q], q))
            | None \<Rightarrow> Inr (lifecycle_start True p))))"

lemma RunWithGRPC_started:
  "RunWithGRPC save listen rpc p = Inr l \<Longrightarrow> l = lifecycle_start (rpc \<noteq> None) p"
  by (auto simp: RunWithGRPC_def Run_http_def Let_def split: option.splits)

lemma close_now_run: "p_once p = NotStarted \<Longrightarrow> \<not> p_done p \<Longrightarrow> \<exists>bs. prun save upd env p bs (close_now save p)"
proof -
  assume p: "p_once p = NotStarted" "\<not> p_done p"
  have "prun save upd env p ((([] @ [False]) @ [False]) @ [True]) (close_now save p)"
    unfolding close_now_def
    by (rule prun.more [OF prun.more [OF prun.more [OF prun.start pstep.closing] pstep.returns] pstep.finish])
       (use p in \<open>simp_all add: pstep_defs\<close>)
  then show ?thesis by blast
qed

section \<open>The in-memory storage with its file\<close>

lemma lifecycle_result_None: "lifecycle_result l f = None \<Longrightarrow> f = None"
  by (auto simp: lifecycle_result_def single_result_def both_result_def errors_Join_None_iff Let_def split: if_splits)

lemma returned_rests:
  assumes "lstep save upd env l l'" "served l" "lc_phase l = Returned r"
  shows "lc_phase l' = Returned r"
  using assms(1) by cases (use assms(3) in \<open>auto simp: begin_shutdown_def\<close>)

lemma mem_lifecycle_ok:
  assumes "float_text_ok lib" "env_ok path w"
    and "RunWithGRPC (saveAndHandle lib path) listen rpc (configurePersistence interval w) = Inr l0"
    and "lrun (saveAndHandle lib path) (mem_writer path) (mem_env path) l0 l"
  shows "served l" "mem_saver.ok lib path (lc_saver l)"
    "lc_phase l = Returned None \<Longrightarrow> restorable lib path (p_world (lc_saver l))"
proof -
  let ?save = "saveAndHandle lib path" and ?upd = "mem_writer path" and ?env = "mem_env path"
  have l0: "l0 = lifecycle_start (rpc \<noteq> None) (configurePersistence interval w)" by (rule RunWithGRPC_started [OF assms(3)])
  have s0: "served l0" unfolding l0 by (rule served_start)
  show sv: "served l" by (rule lrun_served [OF assms(4) s0])
  have "lc_saver l0 = configurePersistence interval w" by (simp add: l0 lifecycle_start_def)
  with lrun_saver [OF assms(4) s0] obtain bs where r: "prun ?save ?upd ?env (configurePersistence interval w) bs (lc_saver l)"
    by auto
  show ok: "mem_saver.ok lib path (lc_saver l)" using mem_saver.ok_run [OF r mem_saver.ok_init] assms(1,2) by simp
  assume "lc_phase l = Returned None"
  with sv have "p_once (lc_saver l) = Finished" "p_err (lc_saver l) = None"
    using lifecycle_result_None [of l "p_err (lc_saver l)"] by (simp_all add: served_def)
  with ok show "restorable lib path (p_world (lc_saver l))" by (simp add: mem_saver.ok_def)
qed



end
