(* ===== verification/Grpc_Server.thy ===== *)
theory Grpc_Server
  imports Grpc_Api Server_Stack
begin

text \<open>
  \<open>NewServer\<close> and \<open>NewClient\<close> of \<open>internal/grpcapi\<close> with their interceptors and credentials, and the trusted
  subnet over both transports: the client announces the local address of its connection, the server
  compares it with its CIDR. A TLS configuration is what the code reads of it.
\<close>

section \<open>TLS settings\<close>

record tls_Config =
  tls_Certificates :: nat
  tls_MinVersion :: nat
  tls_InsecureSkipVerify :: bool
  tls_RootCAs :: "string list option"

definition VersionTLS12 :: nat where
  "VersionTLS12 = 771"

definition at_least_TLS12 :: "tls_Config \<Rightarrow> tls_Config" where
  "at_least_TLS12 c = (if tls_MinVersion c < VersionTLS12 then c\<lparr>tls_MinVersion := VersionTLS12\<rparr> else c)"

text \<open>\<open>LoadServerTLS\<close>, with the result of loading the pair of files; \<open>LoadClientTLS\<close>, with the result of reading the
  file and the certificates \<open>AppendCertsFromPEM\<close> finds in it.\<close>

definition LoadServerTLS :: "(string \<Rightarrow> string \<Rightarrow> gerr) \<Rightarrow> string \<Rightarrow> string \<Rightarrow> goerror + tls_Config" where
  "LoadServerTLS load certFile keyFile =
     (case load certFile keyFile of
        Some e \<Rightarrow> Inl (WrapError ''load gRPC server certificate'' [e])
      | None \<Rightarrow> Inr \<lparr>tls_Certificates = 1, tls_MinVersion = VersionTLS12, tls_InsecureSkipVerify = False, tls_RootCAs = None\<rparr>)"

definition LoadClientTLS :: "(string \<Rightarrow> goerror + bytes) \<Rightarrow> (bytes \<Rightarrow> string list) \<Rightarrow> string \<Rightarrow> goerror + tls_Config" where
  "LoadClientTLS read_file certs caFile =
     (let cfg = \<lparr>tls_Certificates = 0, tls_MinVersion = VersionTLS12, tls_InsecureSkipVerify = False, tls_RootCAs = None\<rparr> in
      if caFile = [] then Inr cfg
      else case read_file caFile of
        Inl e \<Rightarrow> Inl (WrapError ''read gRPC trust bundle'' [e])
      | Inr pem \<Rightarrow> if certs pem = [] then Inl (ErrorString ''gRPC trust bundle contains no certificates'')
                   else Inr (cfg\<lparr>tls_RootCAs := Some (certs pem)\<rparr>))"

section \<open>The server\<close>

type_synonym 'w unary = "metadata \<Rightarrow> pb_Metric option list option \<Rightarrow> 'w \<Rightarrow> gerr \<times> 'w"

text \<open>The logging interceptor hands on the result of the next handler.\<close>

definition grpc_logging :: "'w unary \<Rightarrow> 'w unary" where
  "grpc_logging next md req w = (let (err, w') = next md req w in (err, w'))"

definition Grpc_TrustedSubnet :: "string \<Rightarrow> goerror + ('w unary \<Rightarrow> 'w unary)" where
  "Grpc_TrustedSubnet cidr =
     (case subnet_of ''parse gRPC trusted subnet'' cidr of
        Inl e \<Rightarrow> Inl e
      | Inr subnet \<Rightarrow> Inr (\<lambda>next md req w.
          if in_subnet subnet (md ''x-real-ip'') then next md req w
          else (Some (StatusError codes_PermissionDenied ''IP is outside trusted subnet''), w)))"

text \<open>\<open>NewServer\<close>: the checks, the interceptors and the registered method; \<open>service\<close> is \<^const>\<open>None\<close> for nil.\<close>

definition NewServer ::
  "(string \<Rightarrow> Metrics list \<Rightarrow> 'w \<Rightarrow> (bool \<times> gerr) \<times> 'w) option \<Rightarrow> string \<Rightarrow> 'w observer option \<Rightarrow> tls_Config option \<Rightarrow>
   goerror + tls_Config \<times> (int64 \<Rightarrow> nat option \<Rightarrow> 'w unary)" where
  "NewServer service subnet auditor tlsConfig =
     (case service of
        None \<Rightarrow> Inl (ErrorString ''metrics service is required'')
      | Some once \<Rightarrow>
        (case tlsConfig of
           None \<Rightarrow> Inl (ErrorString ''gRPC TLS server certificate is required'')
         | Some tls \<Rightarrow>
           if tls_Certificates tls = 0 then Inl (ErrorString ''gRPC TLS server certificate is required'')
           else if subnet \<noteq> []
           then (case Grpc_TrustedSubnet subnet of
                   Inl e \<Rightarrow> Inl e
                 | Inr check \<Rightarrow> Inr (at_least_TLS12 tls, \<lambda>now ctx. grpc_logging (check (Grpc_UpdateMetrics once auditor now ctx))))
           else Inr (at_least_TLS12 tls, \<lambda>now ctx. grpc_logging (Grpc_UpdateMetrics once auditor now ctx))))"

section \<open>The client\<close>

definition NewClient :: "tls_Config option \<Rightarrow> gerr \<Rightarrow> goerror + tls_Config" where
  "NewClient tlsConfig dial =
     (case tlsConfig of
        None \<Rightarrow> Inl (ErrorString ''verified gRPC TLS configuration is required'')
      | Some tls \<Rightarrow>
        if tls_InsecureSkipVerify tls then Inl (ErrorString ''verified gRPC TLS configuration is required'')
        else (case dial of
                Some e \<Rightarrow> Inl (WrapError ''create gRPC client'' [e])
              | None \<Rightarrow> Inr (at_least_TLS12 tls)))"

text \<open>
  \<open>ipCredentials.ClientHandshake\<close>: the result of the TLS handshake, which is \<^const>\<open>None\<close> when its information
  is not that of TLS, and the local address of the connection give the address to announce. \<open>GetRequestMetadata\<close>
  attaches it to every call of the connection.
\<close>

definition ClientHandshake ::
  "(goerror + unit option) \<Rightarrow> (string \<Rightarrow> string option) \<Rightarrow> (ip \<Rightarrow> string) \<Rightarrow> string \<Rightarrow> goerror + string" where
  "ClientHandshake handshake split_host_port fmt6 localAddr =
     (case handshake of
        Inl e \<Rightarrow> Inl e
      | Inr None \<Rightarrow> Inl (ErrorString ''gRPC TLS handshake information unavailable'')
      | Inr (Some _) \<Rightarrow>
        (case split_host_port localAddr of
           None \<Rightarrow> Inl (WrapError ''gRPC local address'' [ErrorString ''address''])
         | Some host \<Rightarrow>
           (case local_ip fmt6 host of
              None \<Rightarrow> Inl (WrapError ''gRPC local IP'' [ErrorString ''unable to parse IP''])
            | Some addr \<Rightarrow> Inr addr)))"

text \<open>The outer \<^const>\<open>None\<close> is a call without connection information, the inner one a connection that was not made
  by \<open>ipCredentials\<close>.\<close>

definition GetRequestMetadata :: "string option option \<Rightarrow> goerror + metadata" where
  "GetRequestMetadata info =
     (case info of
        None \<Rightarrow> Inl (ErrorString ''gRPC connection information unavailable'')
      | Some None \<Rightarrow> Inl (ErrorString ''gRPC source IP unavailable'')
      | Some (Some addr) \<Rightarrow> Inr (no_metadata(''x-real-ip'' := [addr])))"

section \<open>The trusted subnet over both transports\<close>



end
