(* ===== verification/Config.thy ===== *)
theory Config
  imports Agent Go_Strings "HOL-Library.Signed_Division"
begin

text \<open>
  \<open>internal/config\<close>: how agent and server settings are put together from defaults, the JSON file, flags
  and environment, and what is rejected. The command line enters as the state of the flag package after
  \<open>flag.Parse\<close>: the value of every flag and the set of flags that were given. The environment is a map,
  reading the file is an argument, and so is \<open>time.ParseDuration\<close>.
\<close>

section \<open>Flags and the configuration file\<close>

datatype fval = FStr string | FInt int64 | FBool bool

record flagset =
  fl_val :: "string \<Rightarrow> fval option"
  fl_set :: "string set"

type_synonym environ = "string \<Rightarrow> string option"

definition ParseBool :: "string \<Rightarrow> bool option" where
  "ParseBool s =
     (if s \<in> {''1'', ''t'', ''T'', ''TRUE'', ''true'', ''True''} then Some True
      else if s \<in> {''0'', ''f'', ''F'', ''FALSE'', ''false'', ''False''} then Some False
      else None)"

definition FormatBool :: "bool \<Rightarrow> string" where
  "FormatBool b = (if b then ''true'' else ''false'')"

text \<open>
  \<open>flag.Set\<close>: parses by the type of the flag and marks it as set. Integers only come from \<open>FormatInt\<close>
  and \<open>Itoa\<close> here, for which base 0 and base 10 agree.
\<close>

definition flag_Set :: "string \<Rightarrow> string \<Rightarrow> flagset \<Rightarrow> goerror + flagset" where
  "flag_Set name value fs =
     (case fl_val fs name of
        None \<Rightarrow> Inl (ErrorString ''no such flag'')
      | Some old \<Rightarrow>
        (case (case old of FStr _ \<Rightarrow> Some (FStr value) | FInt _ \<Rightarrow> map_option FInt (ParseInt value)
               | FBool _ \<Rightarrow> map_option FBool (ParseBool value)) of
           None \<Rightarrow> Inl (ErrorString ''parse error'')
         | Some v \<Rightarrow> Inr \<lparr>fl_val = (fl_val fs)(name \<mapsto> v), fl_set = insert name (fl_set fs)\<rparr>))"

record fileOption =
  fo_field :: string
  fo_flag :: string
  fo_env :: "string list"
  fo_duration :: bool

text \<open>\<open>duration % time.Second\<close> and \<open>duration / time.Second\<close> truncate towards zero.\<close>

definition fileFlagValue :: "(string \<Rightarrow> duration option) \<Rightarrow> flagset \<Rightarrow> json \<Rightarrow> fileOption \<Rightarrow> goerror + string" where
  "fileFlagValue parse_duration fs raw opt =
     (if raw = JNull then Inl (ErrorString ''null is not a configuration value'')
      else if fo_duration opt then
        (case raw of
           JStr value \<Rightarrow>
             (case parse_duration value of
                None \<Rightarrow> Inl (WrapError ''parse duration'' [ErrorString ''time: invalid duration''])
              | Some d \<Rightarrow>
                if sint d smod sint time_Second \<noteq> 0 then Inl (ErrorString ''duration must be a whole number of seconds'')
                else Inr (FormatInt (word_of_int (sint d sdiv sint time_Second))))
         | _ \<Rightarrow> Inl (WrapError ''expected duration string'' [ErrorString ''json: cannot unmarshal'']))
      else case fl_val fs (fo_flag opt) of
             Some (FStr _) \<Rightarrow> (case raw of JStr v \<Rightarrow> Inr v | _ \<Rightarrow> Inl (ErrorString ''json: cannot unmarshal''))
           | Some (FInt _) \<Rightarrow>
               (case raw of
                  JNum t \<Rightarrow> (case ParseInt t of Some i \<Rightarrow> Inr (FormatInt i) | None \<Rightarrow> Inl (ErrorString ''json: cannot unmarshal''))
                | _ \<Rightarrow> Inl (ErrorString ''json: cannot unmarshal''))
           | Some (FBool _) \<Rightarrow> (case raw of JBool b \<Rightarrow> Inr (FormatBool b) | _ \<Rightarrow> Inl (ErrorString ''json: cannot unmarshal''))
           | None \<Rightarrow> Inl (ErrorString ''unsupported flag type''))"

text \<open>The loop of \<open>applyFile\<close> over the options; \<open>explicit\<close> was computed before it.\<close>

fun apply_options ::
  "(string \<Rightarrow> duration option) \<Rightarrow> environ \<Rightarrow> json gomap \<Rightarrow> string set \<Rightarrow> fileOption list \<Rightarrow> flagset \<Rightarrow> goerror + flagset" where
  "apply_options pd env fds explicit [] fs = Inr fs"
| "apply_options pd env fds explicit (opt # opts) fs =
     (case fds (fo_field opt) of
        None \<Rightarrow> apply_options pd env fds explicit opts fs
      | Some raw \<Rightarrow>
        if fo_flag opt \<in> explicit then apply_options pd env fds explicit opts fs
        else if list_ex (\<lambda>name. env name \<noteq> None) (fo_env opt) then apply_options pd env fds explicit opts fs
        else case fileFlagValue pd fs raw opt of
               Inl e \<Rightarrow> Inl (WrapError ''config field'' [e])
             | Inr value \<Rightarrow>
               (case flag_Set (fo_flag opt) value fs of
                  Inl e \<Rightarrow> Inl (WrapError ''config field'' [e])
                | Inr fs' \<Rightarrow> apply_options pd env fds explicit opts fs'))"

text \<open>\<open>json.Unmarshal\<close> into \<open>map[string]json.RawMessage\<close>: the last of equal keys counts.\<close>

definition json_fields :: "json \<Rightarrow> goerror + json gomap option" where
  "json_fields j = (case j of JObj kvs \<Rightarrow> Inr (Some (map_of (rev kvs))) | JNull \<Rightarrow> Inr None
                    | _ \<Rightarrow> Inl (ErrorString ''json: cannot unmarshal''))"

definition applyFile ::
  "(string \<Rightarrow> duration option) \<Rightarrow> environ \<Rightarrow> (string \<Rightarrow> goerror + bytes) \<Rightarrow> string \<Rightarrow> fileOption list \<Rightarrow> flagset \<Rightarrow>
   goerror + flagset" where
  "applyFile pd env read_file path0 options fs =
     (let path = (case env ''CONFIG'' of Some v \<Rightarrow> v | None \<Rightarrow> path0) in
      if path = [] then Inr fs
      else case read_file path of
        Inl e \<Rightarrow> Inl (WrapError ''read config'' [e])
      | Inr data \<Rightarrow>
        (case json_read data of
           None \<Rightarrow> Inl (WrapError ''decode config'' [ErrorString ''json: syntax error''])
         | Some j \<Rightarrow>
           (case json_fields j of
              Inl e \<Rightarrow> Inl (WrapError ''decode config'' [e])
            | Inr None \<Rightarrow> Inl (ErrorString ''config must be a JSON object'')
            | Inr (Some fds) \<Rightarrow>
                if \<not> dom fds \<subseteq> set (map fo_field options) then Inl (ErrorString ''unknown config field'')
                else apply_options pd env fds (fl_set fs) options fs)))"

section \<open>Checks\<close>

definition validateSeconds :: "string \<Rightarrow> int64 \<Rightarrow> gerr" where
  "validateSeconds name seconds =
     (if sint seconds > (2 ^ 63 - 1) div 1000000000 then Some (ErrorString (name @ '' exceeds maximum supported duration'')) else None)"

definition validateGRPCSecurity :: "string \<Rightarrow> string \<Rightarrow> string \<Rightarrow> gerr" where
  "validateGRPCSecurity address key cryptoKey =
     (if address \<noteq> [] \<and> (key \<noteq> [] \<or> cryptoKey \<noteq> []) then Some (ErrorString ''gRPC does not support KEY or CRYPTO_KEY'') else None)"

definition normalizeServerURL :: "string \<Rightarrow> string" where
  "normalizeServerURL addr = (if HasPrefix addr ''http://'' \<or> HasPrefix addr ''https://'' then addr else ''http://'' @ addr)"

definition normalizeListenAddr :: "string \<Rightarrow> string" where
  "normalizeListenAddr addr =
     (if HasPrefix addr ''http://'' then TrimPrefix addr ''http://''
      else if HasPrefix addr ''https://'' then TrimPrefix addr ''https://'' else addr)"

definition parsePositiveSeconds :: "string \<Rightarrow> string \<Rightarrow> goerror + int64" where
  "parsePositiveSeconds name value =
     (case ParseInt value of
        None \<Rightarrow> Inl (WrapError (name @ '' must be an integer value in seconds'') [ErrorString ''strconv.Atoi: invalid''])
      | Some s \<Rightarrow> if sint s \<le> 0 then Inl (ErrorString (name @ '' must be positive'')) else Inr s)"

definition parseNonNegativeSeconds :: "string \<Rightarrow> string \<Rightarrow> goerror + int64" where
  "parseNonNegativeSeconds name value =
     (case ParseInt value of
        None \<Rightarrow> Inl (WrapError (name @ '' must be an integer value in seconds'') [ErrorString ''strconv.Atoi: invalid''])
      | Some s \<Rightarrow> if sint s < 0 then Inl (ErrorString (name @ '' must be non-negative'')) else Inr s)"

section \<open>The agent\<close>

record AgentConfig =
  ac_Address :: string
  ac_GRPCAddress :: string
  ac_GRPCTLSCA :: string
  ac_ReportInterval :: int64
  ac_PollInterval :: int64
  ac_RateLimit :: int64
  ac_Key :: string
  ac_CryptoKey :: string

definition agent_options :: "fileOption list" where
  "agent_options =
     [\<lparr>fo_field = ''grpc_address'', fo_flag = ''grpc-address'', fo_env = [''GRPC_ADDRESS''], fo_duration = False\<rparr>,
      \<lparr>fo_field = ''grpc_tls_ca'', fo_flag = ''grpc-tls-ca'', fo_env = [''GRPC_TLS_CA''], fo_duration = False\<rparr>,
      \<lparr>fo_field = ''address'', fo_flag = ''a'', fo_env = [''ADDRESS''], fo_duration = False\<rparr>,
      \<lparr>fo_field = ''report_interval'', fo_flag = ''r'', fo_env = [''REPORT_INTERVAL''], fo_duration = True\<rparr>,
      \<lparr>fo_field = ''poll_interval'', fo_flag = ''p'', fo_env = [''POLL_INTERVAL''], fo_duration = True\<rparr>,
      \<lparr>fo_field = ''rate_limit'', fo_flag = ''l'', fo_env = [''RATE_LIMIT''], fo_duration = False\<rparr>,
      \<lparr>fo_field = ''key'', fo_flag = ''k'', fo_env = [''KEY''], fo_duration = False\<rparr>,
      \<lparr>fo_field = ''crypto_key'', fo_flag = ''crypto-key'', fo_env = [''CRYPTO_KEY''], fo_duration = False\<rparr>]"

text \<open>The typed values of flags, and a string setting with the environment on top.\<close>

definition flag_str :: "flagset \<Rightarrow> string \<Rightarrow> string" where
  "flag_str fs name = (case fl_val fs name of Some (FStr s) \<Rightarrow> s | _ \<Rightarrow> [])"

definition flag_int :: "flagset \<Rightarrow> string \<Rightarrow> int64" where
  "flag_int fs name = (case fl_val fs name of Some (FInt i) \<Rightarrow> i | _ \<Rightarrow> 0)"

definition flag_bool :: "flagset \<Rightarrow> string \<Rightarrow> bool" where
  "flag_bool fs name = (case fl_val fs name of Some (FBool b) \<Rightarrow> b | _ \<Rightarrow> False)"

definition env_str :: "environ \<Rightarrow> string \<Rightarrow> string \<Rightarrow> string" where
  "env_str env name old = (case env name of Some v \<Rightarrow> v | None \<Rightarrow> old)"

definition env_parsed :: "environ \<Rightarrow> string \<Rightarrow> (string \<Rightarrow> goerror + 'a) \<Rightarrow> 'a \<Rightarrow> goerror + 'a" where
  "env_parsed env name parse old = (case env name of Some v \<Rightarrow> parse v | None \<Rightarrow> Inr old)"

definition parse_rate :: "string \<Rightarrow> goerror + int64" where
  "parse_rate v = (case ParseInt v of None \<Rightarrow> Inl (WrapError ''RATE_LIMIT must be an integer'' [ErrorString ''strconv.Atoi: invalid''])
                   | Some i \<Rightarrow> Inr i)"

definition LoadAgentConfig ::
  "(string \<Rightarrow> duration option) \<Rightarrow> environ \<Rightarrow> (string \<Rightarrow> goerror + bytes) \<Rightarrow> string \<Rightarrow> flagset \<Rightarrow> goerror + AgentConfig" where
  "LoadAgentConfig pd env read_file path flags =
     (case applyFile pd env read_file path agent_options flags of
        Inl e \<Rightarrow> Inl e
      | Inr fs \<Rightarrow>
        (case env_parsed env ''REPORT_INTERVAL'' (parsePositiveSeconds ''REPORT_INTERVAL'') (flag_int fs ''r'') of
           Inl e \<Rightarrow> Inl e
         | Inr report \<Rightarrow>
           (case env_parsed env ''POLL_INTERVAL'' (parsePositiveSeconds ''POLL_INTERVAL'') (flag_int fs ''p'') of
              Inl e \<Rightarrow> Inl e
            | Inr poll \<Rightarrow>
              (case env_parsed env ''RATE_LIMIT'' parse_rate (flag_int fs ''l'') of
                 Inl e \<Rightarrow> Inl e
               | Inr rate \<Rightarrow>
                 (let cfg = \<lparr>ac_Address = env_str env ''ADDRESS'' (flag_str fs ''a''),
                             ac_GRPCAddress = env_str env ''GRPC_ADDRESS'' (flag_str fs ''grpc-address''),
                             ac_GRPCTLSCA = env_str env ''GRPC_TLS_CA'' (flag_str fs ''grpc-tls-ca''),
                             ac_ReportInterval = report, ac_PollInterval = poll, ac_RateLimit = rate,
                             ac_Key = env_str env ''KEY'' (flag_str fs ''k''),
                             ac_CryptoKey = env_str env ''CRYPTO_KEY'' (flag_str fs ''crypto-key'')\<rparr>
                  in if sint poll \<le> 0 then Inl (ErrorString ''poll interval must be positive'')
                     else if sint report \<le> 0 then Inl (ErrorString ''report interval must be positive'')
                     else if sint rate \<le> 0 then Inl (ErrorString ''rate limit must be positive'')
                     else case validateSeconds ''PollInterval'' poll of
                       Some e \<Rightarrow> Inl e
                     | None \<Rightarrow>
                       (case validateSeconds ''ReportInterval'' report of
                          Some e \<Rightarrow> Inl e
                        | None \<Rightarrow>
                          (case validateGRPCSecurity (ac_GRPCAddress cfg) (ac_Key cfg) (ac_CryptoKey cfg) of
                             Some e \<Rightarrow> Inl e
                           | None \<Rightarrow> Inr (cfg\<lparr>ac_Address := normalizeServerURL (ac_Address cfg)\<rparr>))))))))"

section \<open>The server\<close>

record ServerConfig =
  sc_Address :: string
  sc_GRPCAddress :: string
  sc_GRPCTLSCert :: string
  sc_GRPCTLSKey :: string
  sc_StoreInterval :: int64
  sc_FileStoragePath :: string
  sc_FileStorageEnabled :: bool
  sc_Restore :: bool
  sc_DatabaseDSN :: string
  sc_Key :: string
  sc_CryptoKey :: string
  sc_AuditFile :: string
  sc_AuditURL :: string
  sc_TrustedSubnet :: string

definition server_options :: "fileOption list" where
  "server_options =
     [\<lparr>fo_field = ''grpc_address'', fo_flag = ''grpc-address'', fo_env = [''GRPC_ADDRESS''], fo_duration = False\<rparr>,
      \<lparr>fo_field = ''grpc_tls_cert'', fo_flag = ''grpc-tls-cert'', fo_env = [''GRPC_TLS_CERT''], fo_duration = False\<rparr>,
      \<lparr>fo_field = ''grpc_tls_key'', fo_flag = ''grpc-tls-key'', fo_env = [''GRPC_TLS_KEY''], fo_duration = False\<rparr>,
      \<lparr>fo_field = ''address'', fo_flag = ''a'', fo_env = [''ADDRESS''], fo_duration = False\<rparr>,
      \<lparr>fo_field = ''store_interval'', fo_flag = ''i'', fo_env = [''STORE_INTERVAL''], fo_duration = True\<rparr>,
      \<lparr>fo_field = ''store_file'', fo_flag = ''f'', fo_env = [''FILE_STORAGE_PATH'', ''STORE_FILE''], fo_duration = False\<rparr>,
      \<lparr>fo_field = ''restore'', fo_flag = ''r'', fo_env = [''RESTORE''], fo_duration = False\<rparr>,
      \<lparr>fo_field = ''database_dsn'', fo_flag = ''d'', fo_env = [''DATABASE_DSN''], fo_duration = False\<rparr>,
      \<lparr>fo_field = ''key'', fo_flag = ''k'', fo_env = [''KEY''], fo_duration = False\<rparr>,
      \<lparr>fo_field = ''crypto_key'', fo_flag = ''crypto-key'', fo_env = [''CRYPTO_KEY''], fo_duration = False\<rparr>,
      \<lparr>fo_field = ''audit_file'', fo_flag = ''audit-file'', fo_env = [''AUDIT_FILE''], fo_duration = False\<rparr>,
      \<lparr>fo_field = ''audit_url'', fo_flag = ''audit-url'', fo_env = [''AUDIT_URL''], fo_duration = False\<rparr>,
      \<lparr>fo_field = ''trusted_subnet'', fo_flag = ''t'', fo_env = [''TRUSTED_SUBNET''], fo_duration = False\<rparr>]"

text \<open>\<open>STORE_FILE\<close>, then \<open>FILE_STORAGE_PATH\<close>, each with the switch that enables file storage.\<close>

definition file_storage :: "environ \<Rightarrow> flagset \<Rightarrow> string \<times> bool" where
  "file_storage env fs =
     (let flagged = (flag_str fs ''f'', ''f'' \<in> fl_set fs \<and> flag_str fs ''f'' \<noteq> []);
          stored = (case env ''STORE_FILE'' of Some v \<Rightarrow> (v, v \<noteq> []) | None \<Rightarrow> flagged)
      in case env ''FILE_STORAGE_PATH'' of Some v \<Rightarrow> (v, v \<noteq> []) | None \<Rightarrow> stored)"

definition parse_restore :: "string \<Rightarrow> goerror + bool" where
  "parse_restore v = (case ParseBool v of None \<Rightarrow> Inl (WrapError ''RESTORE must be boolean'' [ErrorString ''strconv.ParseBool: invalid''])
                      | Some b \<Rightarrow> Inr b)"

definition LoadServerConfig ::
  "(string \<Rightarrow> duration option) \<Rightarrow> environ \<Rightarrow> (string \<Rightarrow> goerror + bytes) \<Rightarrow> string \<Rightarrow> flagset \<Rightarrow> goerror + ServerConfig" where
  "LoadServerConfig pd env read_file path flags =
     (case applyFile pd env read_file path server_options flags of
        Inl e \<Rightarrow> Inl e
      | Inr fs \<Rightarrow>
        (case env_parsed env ''STORE_INTERVAL'' (parseNonNegativeSeconds ''STORE_INTERVAL'') (flag_int fs ''i'') of
           Inl e \<Rightarrow> Inl e
         | Inr store \<Rightarrow>
           (case env_parsed env ''RESTORE'' parse_restore (flag_bool fs ''r'') of
              Inl e \<Rightarrow> Inl e
            | Inr restore \<Rightarrow>
              (let cfg = \<lparr>sc_Address = env_str env ''ADDRESS'' (flag_str fs ''a''),
                          sc_GRPCAddress = env_str env ''GRPC_ADDRESS'' (flag_str fs ''grpc-address''),
                          sc_GRPCTLSCert = env_str env ''GRPC_TLS_CERT'' (flag_str fs ''grpc-tls-cert''),
                          sc_GRPCTLSKey = env_str env ''GRPC_TLS_KEY'' (flag_str fs ''grpc-tls-key''),
                          sc_StoreInterval = store,
                          sc_FileStoragePath = fst (file_storage env fs), sc_FileStorageEnabled = snd (file_storage env fs),
                          sc_Restore = restore,
                          sc_DatabaseDSN = env_str env ''DATABASE_DSN'' (flag_str fs ''d''),
                          sc_Key = env_str env ''KEY'' (flag_str fs ''k''),
                          sc_CryptoKey = env_str env ''CRYPTO_KEY'' (flag_str fs ''crypto-key''),
                          sc_AuditFile = env_str env ''AUDIT_FILE'' (flag_str fs ''audit-file''),
                          sc_AuditURL = env_str env ''AUDIT_URL'' (flag_str fs ''audit-url''),
                          sc_TrustedSubnet = env_str env ''TRUSTED_SUBNET'' (flag_str fs ''t'')\<rparr>
               in if sint store < 0 then Inl (ErrorString ''store interval must be non-negative'')
                  else case validateSeconds ''StoreInterval'' store of
                    Some e \<Rightarrow> Inl e
                  | None \<Rightarrow>
                    if sc_GRPCAddress cfg \<noteq> [] \<and> (sc_GRPCTLSCert cfg = [] \<or> sc_GRPCTLSKey cfg = [])
                    then Inl (ErrorString ''gRPC requires GRPC_TLS_CERT and GRPC_TLS_KEY'')
                    else case validateGRPCSecurity (sc_GRPCAddress cfg) (sc_Key cfg) (sc_CryptoKey cfg) of
                      Some e \<Rightarrow> Inl e
                    | None \<Rightarrow> Inr (cfg\<lparr>sc_Address := normalizeListenAddr (sc_Address cfg)\<rparr>)))))"

section \<open>Precedence\<close>

text \<open>Options of a configuration write to different flags.\<close>

lemma options_distinct:
  "distinct (map fo_flag agent_options)" "distinct (map fo_flag server_options)"
  by (simp_all add: agent_options_def server_options_def)

lemma flag_Set_other: "flag_Set name v fs = Inr fs' \<Longrightarrow> name \<noteq> f \<Longrightarrow> fl_val fs' f = fl_val fs f \<and> (f \<in> fl_set fs' \<longleftrightarrow> f \<in> fl_set fs)"
  by (auto simp: flag_Set_def split: option.splits fval.splits)

text \<open>What the loop does to one flag: nothing if it was given, its environment is set or the file is
  silent; otherwise it takes the value of the file.\<close>

definition keeps_flag :: "environ \<Rightarrow> json gomap \<Rightarrow> string set \<Rightarrow> fileOption \<Rightarrow> bool" where
  "keeps_flag env fds explicit opt \<longleftrightarrow>
     fds (fo_field opt) = None \<or> fo_flag opt \<in> explicit \<or> list_ex (\<lambda>name. env name \<noteq> None) (fo_env opt)"

lemma apply_options_step:
  assumes "apply_options pd env fds explicit (opt # opts) fs = Inr fs'"
  obtains (kept) "keeps_flag env fds explicit opt" "apply_options pd env fds explicit opts fs = Inr fs'"
    | (from_file) raw x fs1 where "\<not> keeps_flag env fds explicit opt" "fds (fo_field opt) = Some raw"
        "fileFlagValue pd fs raw opt = Inr x" "flag_Set (fo_flag opt) x fs = Inr fs1"
        "apply_options pd env fds explicit opts fs1 = Inr fs'"
proof (cases "keeps_flag env fds explicit opt")
  case True
  then show ?thesis using assms by (intro kept) (auto simp: keeps_flag_def split: option.splits if_splits sum.splits)
next
  case False
  then obtain raw where r: "fds (fo_field opt) = Some raw" by (auto simp: keeps_flag_def)
  with assms False show ?thesis by (auto simp: keeps_flag_def intro: from_file [OF False r] split: sum.splits if_splits)
qed

lemma apply_options_other:
  "apply_options pd env fds explicit opts fs = Inr fs' \<Longrightarrow> f \<notin> fo_flag ` set opts \<Longrightarrow>
   fl_val fs' f = fl_val fs f \<and> (f \<in> fl_set fs' \<longleftrightarrow> f \<in> fl_set fs)"
proof (induction opts arbitrary: fs)
  case (Cons opt opts)
  from Cons.prems(1) show ?case
  proof (cases rule: apply_options_step)
    case kept
    with Cons show ?thesis by simp
  next
    case (from_file raw x fs1)
    with flag_Set_other [OF from_file(4), of f] Cons.IH [OF from_file(5)] Cons.prems(2) show ?thesis by auto
  qed
qed simp

lemma fileFlagValue_cong: "fl_val fs (fo_flag opt) = fl_val fs1 (fo_flag opt) \<Longrightarrow> fileFlagValue pd fs raw opt = fileFlagValue pd fs1 raw opt"
  by (simp add: fileFlagValue_def)

lemma flag_Set_val:
  "fl_val fs name = fl_val fs1 name \<Longrightarrow> flag_Set name v fs = Inr fs' \<Longrightarrow>
   \<exists>fs1'. flag_Set name v fs1 = Inr fs1' \<and> fl_val fs1' name = fl_val fs' name \<and> name \<in> fl_set fs'"
  by (auto simp: flag_Set_def split: option.splits)

lemma apply_options_flag:
  assumes "apply_options pd env fds explicit opts fs = Inr fs'" "distinct (map fo_flag opts)" "opt \<in> set opts"
  shows "if keeps_flag env fds explicit opt then fl_val fs' (fo_flag opt) = fl_val fs (fo_flag opt)
     else \<exists>raw x fs1. fds (fo_field opt) = Some raw \<and> fileFlagValue pd fs raw opt = Inr x
       \<and> flag_Set (fo_flag opt) x fs = Inr fs1 \<and> fl_val fs' (fo_flag opt) = fl_val fs1 (fo_flag opt)"
  using assms
proof (induction opts arbitrary: fs)
  case (Cons o1 opts)
  from Cons.prems(1) show ?case
  proof (cases rule: apply_options_step)
    case kept
    show ?thesis
    proof (cases "opt = o1")
      case True
      with kept Cons.prems(2) apply_options_other [OF kept(2), of "fo_flag o1"] show ?thesis by simp
    next
      case False
      with Cons.IH [OF kept(2)] Cons.prems(2,3) show ?thesis by simp
    qed
  next
    case (from_file raw x fs1)
    show ?thesis
    proof (cases "opt = o1")
      case True
      with from_file Cons.prems(2) apply_options_other [OF from_file(5), of "fo_flag o1"] show ?thesis by simp
    next
      case False
      with Cons.prems(2,3) have "fo_flag o1 \<noteq> fo_flag opt" by (auto simp: image_iff)
      with flag_Set_other [OF from_file(4)] have same: "fl_val fs1 (fo_flag opt) = fl_val fs (fo_flag opt)" by simp
      have ih: "if keeps_flag env fds explicit opt then fl_val fs' (fo_flag opt) = fl_val fs1 (fo_flag opt)
         else \<exists>raw y fs2. fds (fo_field opt) = Some raw \<and> fileFlagValue pd fs1 raw opt = Inr y
           \<and> flag_Set (fo_flag opt) y fs1 = Inr fs2 \<and> fl_val fs' (fo_flag opt) = fl_val fs2 (fo_flag opt)"
        using Cons.IH [OF from_file(5)] Cons.prems(2,3) False by simp
      show ?thesis
      proof (cases "keeps_flag env fds explicit opt")
        case True
        with ih same show ?thesis by simp
      next
        case False
        with ih obtain raw y fs2 where y: "fds (fo_field opt) = Some raw" "fileFlagValue pd fs1 raw opt = Inr y"
          "flag_Set (fo_flag opt) y fs1 = Inr fs2" "fl_val fs' (fo_flag opt) = fl_val fs2 (fo_flag opt)" by auto
        from flag_Set_val [OF same y(3)] y fileFlagValue_cong [OF same] False show ?thesis by auto
      qed
    qed
  qed
qed simp

text \<open>The flags of both programs after \<open>flag.Parse\<close> keep their types.\<close>

definition str_flags :: "string list \<Rightarrow> flagset \<Rightarrow> bool" where
  "str_flags names fs \<longleftrightarrow> list_all (\<lambda>n. \<exists>s. fl_val fs n = Some (FStr s)) names"

text \<open>The value a string setting ends with: environment over flag over file over default.\<close>

definition effective_str :: "environ \<Rightarrow> json gomap \<Rightarrow> flagset \<Rightarrow> string \<Rightarrow> string \<Rightarrow> string \<Rightarrow> string" where
  "effective_str env fds flags var flag field =
     (case env var of
        Some v \<Rightarrow> v
      | None \<Rightarrow> if flag \<in> fl_set flags then flag_str flags flag
                else case fds field of Some (JStr v) \<Rightarrow> v | _ \<Rightarrow> flag_str flags flag)"

lemma str_option_value:
  assumes "apply_options pd env fds (fl_set flags) opts flags = Inr fs'" "distinct (map fo_flag opts)"
    and "\<lparr>fo_field = field, fo_flag = flag, fo_env = [var], fo_duration = False\<rparr> \<in> set opts"
    and "fl_val flags flag = Some (FStr s0)"
  shows "env_str env var (flag_str fs' flag) = effective_str env fds flags var flag field"
proof (cases "env var")
  case (Some v)
  then show ?thesis by (simp add: env_str_def effective_str_def)
next
  case None
  let ?opt = "\<lparr>fo_field = field, fo_flag = flag, fo_env = [var], fo_duration = False\<rparr>"
  note f = apply_options_flag [OF assms(1,2,3)]
  show ?thesis
  proof (cases "keeps_flag env fds (fl_set flags) ?opt")
    case True
    with f None show ?thesis
      by (auto simp: env_str_def effective_str_def keeps_flag_def flag_str_def split: option.split)
  next
    case False
    with f obtain raw y fs1 where y: "fds field = Some raw" "fileFlagValue pd flags raw ?opt = Inr y"
      "flag_Set flag y flags = Inr fs1" "fl_val fs' flag = fl_val fs1 flag" by auto
    have "raw = JStr y" using y(2) assms(4) by (auto simp: fileFlagValue_def split: if_splits json.splits)
    moreover have "fl_val fs1 flag = Some (FStr y)" using y(3) assms(4) by (auto simp: flag_Set_def)
    ultimately show ?thesis
      using False None y(1,4) by (simp add: env_str_def effective_str_def keeps_flag_def flag_str_def)
  qed
qed

text \<open>The fields of the file that is read, if any.\<close>

definition config_fields :: "environ \<Rightarrow> (string \<Rightarrow> goerror + bytes) \<Rightarrow> string \<Rightarrow> json gomap" where
  "config_fields env read_file path0 =
     (let path = (case env ''CONFIG'' of Some v \<Rightarrow> v | None \<Rightarrow> path0) in
      if path = [] then Map.empty
      else case read_file path of
        Inr data \<Rightarrow> (case json_read data of Some (JObj kvs) \<Rightarrow> map_of (rev kvs) | _ \<Rightarrow> Map.empty)
      | Inl _ \<Rightarrow> Map.empty)"

lemma apply_options_nothing: "apply_options pd env Map.empty explicit opts fs = Inr fs"
  by (induction opts) auto

lemma applyFile_options:
  assumes "applyFile pd env read_file path opts flags = Inr fs"
  shows "apply_options pd env (config_fields env read_file path) (fl_set flags) opts flags = Inr fs"
  using assms
  by (auto simp: applyFile_def config_fields_def Let_def json_fields_def apply_options_nothing
      split: option.splits if_splits sum.splits json.splits)


definition demo_flags :: flagset where
  "demo_flags = \<lparr>fl_val = [''k'' \<mapsto> FStr ''flagkey'', ''d'' \<mapsto> FStr [], ''crypto-key'' \<mapsto> FStr [], ''audit-file'' \<mapsto> FStr [],
      ''audit-url'' \<mapsto> FStr [], ''t'' \<mapsto> FStr [], ''grpc-address'' \<mapsto> FStr [], ''grpc-tls-cert'' \<mapsto> FStr [],
      ''grpc-tls-key'' \<mapsto> FStr [], ''a'' \<mapsto> FStr ''localhost:8080'', ''i'' \<mapsto> FInt 300, ''f'' \<mapsto> FStr ''metrics-storage.json'',
      ''r'' \<mapsto> FBool True], fl_set = {''k''}\<rparr>"

definition demo_config_doc :: json where
  "demo_config_doc = JObj [(''key'', JStr ''filekey''), (''audit_file'', JStr ''audit.log'')]"

lemma demo_config_read: "json_read (json_print demo_config_doc) = Some demo_config_doc"
proof -
  have "sanitize_json demo_config_doc = demo_config_doc"
    by (simp add: demo_config_doc_def sanitize_ascii)
  then show ?thesis
    using json_read_print(1) [of demo_config_doc "[]"] by (simp add: demo_config_doc_def max_depth_Suc)
qed


section \<open>Intervals\<close>

text \<open>\<open>time.Duration(n) * time.Second\<close>.\<close>

definition seconds_duration :: "int64 \<Rightarrow> duration" where
  "seconds_duration n = n * time_Second"

lemma seconds_duration_exact:
  assumes "validateSeconds name n = None" "0 \<le> sint n"
  shows "sint (seconds_duration n) = sint n * 1000000000"
proof -
  have b: "sint n \<le> 9223372036" using assms(1) by (simp add: validateSeconds_def split: if_splits)
  have "sint (n * time_Second) = signed_take_bit 63 (sint n * sint time_Second)"
    by (simp add: sint_word_ariths(3))
  also have "\<dots> = sint n * 1000000000"
    using b assms(2) by (simp add: time_Second_def signed_take_bit_int_eq_self)
  finally show ?thesis by (simp add: seconds_duration_def)
qed

text \<open>
  C33. The intervals of an accepted configuration survive the conversion to nanoseconds: neither the
  agent's two intervals nor the server's store interval overflows, they keep their sign, and the agent
  configured from an accepted configuration is always constructed, with a positive worker count.
\<close>

theorem intervals_exact:
  "(case LoadAgentConfig pd env read_file path flags of
      Inl _ \<Rightarrow> True
    | Inr cfg \<Rightarrow>
        sint (seconds_duration (ac_PollInterval cfg)) = sint (ac_PollInterval cfg) * 1000000000
        \<and> sint (seconds_duration (ac_ReportInterval cfg)) = sint (ac_ReportInterval cfg) * 1000000000
        \<and> (case NewAgent client sleep (ac_Address cfg) (seconds_duration (ac_PollInterval cfg))
                  (seconds_duration (ac_ReportInterval cfg)) [Some (WithKey (ac_Key cfg)), Some (WithRateLimit (ac_RateLimit cfg))] of
             Inl _ \<Rightarrow> False
           | Inr a \<Rightarrow> 0 < sint (ag_rateLimit a) \<and> ag_key a = ac_Key cfg))
   \<and> (case LoadServerConfig pd env read_file path flags of
        Inl _ \<Rightarrow> True
      | Inr cfg \<Rightarrow> sint (seconds_duration (sc_StoreInterval cfg)) = sint (sc_StoreInterval cfg) * 1000000000)"
proof
  show "case LoadServerConfig pd env read_file path flags of
        Inl _ \<Rightarrow> True
      | Inr cfg \<Rightarrow> sint (seconds_duration (sc_StoreInterval cfg)) = sint (sc_StoreInterval cfg) * 1000000000"
  proof (cases "LoadServerConfig pd env read_file path flags")
    case (Inr cfg)
    then have "0 \<le> sint (sc_StoreInterval cfg)" "validateSeconds ''StoreInterval'' (sc_StoreInterval cfg) = None"
      by (auto simp: LoadServerConfig_def Let_def split: sum.splits if_splits option.splits)
    with seconds_duration_exact Inr show ?thesis by simp
  qed simp
next
  show "case LoadAgentConfig pd env read_file path flags of
      Inl _ \<Rightarrow> True
    | Inr cfg \<Rightarrow>
        sint (seconds_duration (ac_PollInterval cfg)) = sint (ac_PollInterval cfg) * 1000000000
        \<and> sint (seconds_duration (ac_ReportInterval cfg)) = sint (ac_ReportInterval cfg) * 1000000000
        \<and> (case NewAgent client sleep (ac_Address cfg) (seconds_duration (ac_PollInterval cfg))
                  (seconds_duration (ac_ReportInterval cfg)) [Some (WithKey (ac_Key cfg)), Some (WithRateLimit (ac_RateLimit cfg))] of
             Inl _ \<Rightarrow> False
           | Inr a \<Rightarrow> 0 < sint (ag_rateLimit a) \<and> ag_key a = ac_Key cfg)"
  proof (cases "LoadAgentConfig pd env read_file path flags")
    case (Inr cfg)
    then have c: "0 < sint (ac_PollInterval cfg)" "0 < sint (ac_ReportInterval cfg)" "0 < sint (ac_RateLimit cfg)"
      "validateSeconds ''PollInterval'' (ac_PollInterval cfg) = None"
      "validateSeconds ''ReportInterval'' (ac_ReportInterval cfg) = None" "ac_Address cfg \<noteq> []"
      by (auto simp: LoadAgentConfig_def Let_def normalizeServerURL_def HasPrefix_def split: sum.splits if_splits option.splits)
    have "sint (seconds_duration (ac_PollInterval cfg)) = sint (ac_PollInterval cfg) * 1000000000"
      "sint (seconds_duration (ac_ReportInterval cfg)) = sint (ac_ReportInterval cfg) * 1000000000"
      using seconds_duration_exact [OF c(4)] seconds_duration_exact [OF c(5)] c(1,2) by simp_all
    with c Inr show ?thesis by (simp add: NewAgent_def validate_def Let_def)
  qed simp
qed

end
