(* ===== verification/Key_Files.thy ===== *)
theory Key_Files
  imports Crypto
begin

text \<open>
  \<open>internal/encryption/keys.go\<close>: RSA keys from PEM files. Reading files, PEM and the DER formats are the
  standard library's and a parameter; a parser that succeeds yields a key of some algorithm, \<^const>\<open>None\<close>
  when it is not RSA.
\<close>

record keylib =
  os_ReadFile :: "string \<Rightarrow> goerror + bytes"
  pem_Decode :: "bytes \<Rightarrow> (string \<times> bytes) option"
  ParsePKIXPublicKey :: "bytes \<Rightarrow> goerror + PublicKey option"
  ParsePKCS1PublicKey :: "bytes \<Rightarrow> goerror + PublicKey"
  ParsePKCS8PrivateKey :: "bytes \<Rightarrow> goerror + PrivateKey option"
  ParsePKCS1PrivateKey :: "bytes \<Rightarrow> goerror + PrivateKey"
  rsa_Validate :: "PrivateKey \<Rightarrow> gerr"

definition readPEM :: "keylib \<Rightarrow> string \<Rightarrow> goerror + string \<times> bytes" where
  "readPEM kl path =
     (case os_ReadFile kl path of
        Inl e \<Rightarrow> Inl (WrapError ''read key file'' [e])
      | Inr data \<Rightarrow>
        (case pem_Decode kl data of
           None \<Rightarrow> Inl (ErrorString ''key file does not contain PEM data'')
         | Some block \<Rightarrow> Inr block))"

definition parse_public :: "keylib \<Rightarrow> string \<Rightarrow> bytes \<Rightarrow> goerror + PublicKey" where
  "parse_public kl ty der =
     (if ty = ''PUBLIC KEY'' then
        (case ParsePKIXPublicKey kl der of
           Inl e \<Rightarrow> Inl (WrapError ''parse public key'' [e])
         | Inr None \<Rightarrow> Inl (ErrorString ''public key must be RSA'')
         | Inr (Some key) \<Rightarrow> Inr key)
      else if ty = ''RSA PUBLIC KEY'' then
        (case ParsePKCS1PublicKey kl der of
           Inl e \<Rightarrow> Inl (WrapError ''parse RSA public key'' [e])
         | Inr key \<Rightarrow> Inr key)
      else Inl (ErrorString ''unsupported public key PEM type''))"

definition LoadPublicKey :: "keylib \<Rightarrow> string \<Rightarrow> goerror + PublicKey option" where
  "LoadPublicKey kl path =
     (if path = [] then Inr None
      else case readPEM kl path of
        Inl e \<Rightarrow> Inl e
      | Inr (ty, der) \<Rightarrow>
        (case parse_public kl ty der of
           Inl e \<Rightarrow> Inl e
         | Inr key \<Rightarrow> (case validatePublicKey (Some key) of Some e \<Rightarrow> Inl e | None \<Rightarrow> Inr (Some key))))"

definition parse_private :: "keylib \<Rightarrow> string \<Rightarrow> bytes \<Rightarrow> goerror + PrivateKey" where
  "parse_private kl ty der =
     (if ty = ''PRIVATE KEY'' then
        (case ParsePKCS8PrivateKey kl der of
           Inl e \<Rightarrow> Inl (WrapError ''parse private key'' [e])
         | Inr None \<Rightarrow> Inl (ErrorString ''private key must be RSA'')
         | Inr (Some key) \<Rightarrow> Inr key)
      else if ty = ''RSA PRIVATE KEY'' then
        (case ParsePKCS1PrivateKey kl der of
           Inl e \<Rightarrow> Inl (WrapError ''parse RSA private key'' [e])
         | Inr key \<Rightarrow> Inr key)
      else Inl (ErrorString ''unsupported private key PEM type''))"

text \<open>\<open>key.Precompute\<close> changes no field of the model.\<close>

definition LoadPrivateKey :: "keylib \<Rightarrow> string \<Rightarrow> goerror + PrivateKey option" where
  "LoadPrivateKey kl path =
     (if path = [] then Inr None
      else case readPEM kl path of
        Inl e \<Rightarrow> Inl e
      | Inr (ty, der) \<Rightarrow>
        (case parse_private kl ty der of
           Inl e \<Rightarrow> Inl e
         | Inr key \<Rightarrow>
           (case validatePublicKey (Some (sk_PublicKey key)) of
              Some e \<Rightarrow> Inl e
            | None \<Rightarrow> (case rsa_Validate kl key of
                         Some e \<Rightarrow> Inl (WrapError ''validate private key'' [e])
                       | None \<Rightarrow> Inr (Some key)))))"

section \<open>A loaded key is a usable key\<close>

lemma LoadPublicKey_valid:
  "LoadPublicKey kl path = Inr key \<Longrightarrow> (key = None \<longleftrightarrow> path = []) \<and> (key \<noteq> None \<longrightarrow> validatePublicKey key = None)"
  by (auto simp: LoadPublicKey_def split: if_splits sum.splits option.splits)

lemma LoadPrivateKey_valid:
  "LoadPrivateKey kl path = Inr key \<Longrightarrow>
     (key = None \<longleftrightarrow> path = []) \<and> (key \<noteq> None \<longrightarrow> validatePublicKey (map_option sk_PublicKey key) = None \<and> rsa_Validate kl (the key) = None)"
  by (auto simp: LoadPrivateKey_def split: if_splits sum.splits option.splits)

end
