(* ===== verification/Server_Main.thy ===== *)
theory Server_Main
  imports Lifecycle Grpc_Server Config Key_Files Mem_Server
begin

text \<open>
  \<open>cmd/server/main.go\<close>: how a server is put together from its configuration, and what a restart finds. The
  router is chi's and a parameter; \<open>goose\<close>, \<open>sql.Open\<close> and the loading of files are parameters as well.
\<close>

section \<open>Routes\<close>

text \<open>\<open>chi\<close> gets the registered methods and patterns and answers a request itself, or with a route and the URL parameters.\<close>

type_synonym chi = "(string \<times> string) list \<Rightarrow> http_request \<Rightarrow> http_response + nat \<times> (string \<Rightarrow> string)"

type_synonym 'w route = "string \<times> string \<times> ((string \<Rightarrow> string) \<Rightarrow> 'w serve)"

definition serve_ping :: "'w MetricsHandler \<Rightarrow> 'w serve" where
  "serve_ping h r w s = map_option (\<lambda>(resp, s'). (send_response resp w, s')) (Ping h r s)"

text \<open>\<open>ord\<close> gives the orders in which the maps of gauges and counters are visited.\<close>

definition routes :: "golib \<Rightarrow> http_env \<Rightarrow> ('w \<Rightarrow> string list \<times> string list) \<Rightarrow> 'w MetricsHandler \<Rightarrow> 'w route list" where
  "routes lib env ord h =
     [(''POST'', ''/update/{type}/{name}/{value}'',
        \<lambda>p. serve_handler (UpdateMetric lib env h (p ''type'') (p ''name'') (p ''value''))),
      (''POST'', ''/update'', \<lambda>p. serve_handler (UpdateMetricJSON lib env h)),
      (''POST'', ''/update/'', \<lambda>p. serve_handler (UpdateMetricJSON lib env h)),
      (''POST'', ''/updates'', \<lambda>p. serve_handler (UpdateMetricsJSON lib env h)),
      (''POST'', ''/updates/'', \<lambda>p. serve_handler (UpdateMetricsJSON lib env h)),
      (''GET'', ''/value/{type}/{name}'', \<lambda>p. serve_handler (GetValue env h (p ''type'') (p ''name''))),
      (''POST'', ''/value'', \<lambda>p. serve_handler (GetValueJSON lib h)),
      (''POST'', ''/value/'', \<lambda>p. serve_handler (GetValueJSON lib h)),
      (''GET'', ''/ping'', \<lambda>p. serve_ping h),
      (''GET'', ''/'', \<lambda>p. serve_handler (\<lambda>r w. ListMetrics env h (fst (ord w)) (snd (ord w)) r w))]"

definition router :: "chi \<Rightarrow> 'w route list \<Rightarrow> 'w serve" where
  "router chi rs r w s =
     (case chi (map (\<lambda>(m, p, _). (m, p)) rs) r of
        Inl resp \<Rightarrow> Some (send_response resp w, s)
      | Inr (i, params) \<Rightarrow> if i < length rs then (snd (snd (rs ! i))) params r w s else Some (w, s))"

section \<open>What both storages share\<close>

record main_env =
  me_keys :: keylib
  me_LoadX509KeyPair :: "string \<Rightarrow> string \<Rightarrow> gerr"
  me_chi :: chi

text \<open>The checks before any storage is opened: trusted subnet, gRPC certificate, private key.\<close>

definition main_checks :: "main_env \<Rightarrow> ServerConfig \<Rightarrow> goerror + tls_Config option \<times> PrivateKey option" where
  "main_checks E cfg =
     (case (if sc_TrustedSubnet cfg \<noteq> [] then subnet_of ''parse trusted subnet'' (sc_TrustedSubnet cfg) else Inr None) of
        Inl e \<Rightarrow> Inl e
      | Inr _ \<Rightarrow>
        (case (if sc_GRPCAddress cfg \<noteq> []
               then (case LoadServerTLS (me_LoadX509KeyPair E) (sc_GRPCTLSCert cfg) (sc_GRPCTLSKey cfg) of
                       Inl e \<Rightarrow> Inl e | Inr tls \<Rightarrow> Inr (Some tls))
               else Inr None) of
           Inl e \<Rightarrow> Inl e
         | Inr grpcTLS \<Rightarrow>
           (case LoadPrivateKey (me_keys E) (sc_CryptoKey cfg) of
              Inl e \<Rightarrow> Inl e
            | Inr privateKey \<Rightarrow> Inr (grpcTLS, privateKey))))"

definition main_observers :: "(string \<Rightarrow> 'w observer) \<Rightarrow> (string \<Rightarrow> 'w observer) \<Rightarrow> ServerConfig \<Rightarrow> 'w observer list" where
  "main_observers file_ob http_ob cfg =
     (let n0 = NewNotifier [];
          n1 = (if sc_AuditFile cfg \<noteq> [] then Subscribe (Some (file_ob (sc_AuditFile cfg))) n0 else n0)
      in if sc_AuditURL cfg \<noteq> [] then Subscribe (Some (http_ob (sc_AuditURL cfg))) n1 else n1)"

text \<open>The transports over a service: the HTTP handler with its middleware, and the gRPC server if configured.\<close>

record 'w front =
  fr_handler :: "'w MetricsHandler"
  fr_http :: "http_env \<Rightarrow> goerror + 'w serve"
  fr_grpc :: "(tls_Config \<times> (int64 \<Rightarrow> nat option \<Rightarrow> 'w unary)) option"

definition main_front ::
  "golib \<Rightarrow> wirelib \<Rightarrow> main_env \<Rightarrow> ('w \<Rightarrow> string list \<times> string list) \<Rightarrow> ServerConfig \<Rightarrow> tls_Config option \<Rightarrow> PrivateKey option
     \<Rightarrow> 'w MetricsService \<Rightarrow> ('w \<Rightarrow> gerr \<times> 'w) option \<Rightarrow> 'w observer list \<Rightarrow> goerror + 'w front" where
  "main_front lib wl E ord cfg grpcTLS privateKey svc db observers =
     (let h = main_handler svc db observers;
          http = (\<lambda>env. server_stack lib wl (sc_Key cfg) privateKey (sc_TrustedSubnet cfg)
                          (router (me_chi E) (routes lib env ord h)))
      in if sc_GRPCAddress cfg = [] then Inr \<lparr>fr_handler = h, fr_http = http, fr_grpc = None\<rparr>
         else (case NewServer (Some (Svc_UpdateMetricsOnce lib svc)) (sc_TrustedSubnet cfg) (h_auditor h) grpcTLS of
                 Inl e \<Rightarrow> Inl e
               | Inr s \<Rightarrow> Inr \<lparr>fr_handler = h, fr_http = http, fr_grpc = Some s\<rparr>))"

section \<open>Storage in memory\<close>

text \<open>
  \<open>NewMetricsServiceWithPersistence\<close> and \<open>NewMetricsService\<close> with the persistence their \<open>Close\<close> works on; without
  one \<open>Close\<close> returns nil at once.
\<close>

definition mem_service :: "golib \<Rightarrow> ServerConfig \<Rightarrow> mem_world MetricsService" where
  "mem_service lib cfg =
     (if sc_FileStorageEnabled cfg \<and> seconds_duration (sc_StoreInterval cfg) = 0
      then synchronous_service lib (sc_FileStoragePath cfg) else NewMetricsService mem_repository)"

definition mem_flush :: "golib \<Rightarrow> ServerConfig \<Rightarrow> mem_world \<Rightarrow> gerr \<times> mem_world" where
  "mem_flush lib cfg = (if sc_FileStorageEnabled cfg then saveAndHandle lib (sc_FileStoragePath cfg) else (\<lambda>w. (None, w)))"

definition mem_storage :: "golib \<Rightarrow> gerr \<Rightarrow> ServerConfig \<Rightarrow> fs \<Rightarrow> goerror + MemStorage" where
  "mem_storage lib fault cfg fs =
     (if sc_FileStorageEnabled cfg then NewMemStorageWithRestore lib fault fs (sc_FileStoragePath cfg) (sc_Restore cfg)
      else Inr NewMemStorage)"

text \<open>
  \<open>main\<close> for a configuration without a database. \<open>fault\<close> is the result of reading the storage file, \<open>listen\<close>
  and \<open>rpcListen\<close> those of listening. The result is a fatal error before anything is served, the result of \<open>Run\<close>
  when an address could not be listened on, or a running server.
\<close>

definition mem_main ::
  "golib \<Rightarrow> wirelib \<Rightarrow> main_env \<Rightarrow> (mem_world \<Rightarrow> string list \<times> string list) \<Rightarrow> (string \<Rightarrow> mem_world observer) \<Rightarrow> (string \<Rightarrow> mem_world observer)
     \<Rightarrow> gerr \<Rightarrow> gerr \<Rightarrow> gerr \<Rightarrow> ServerConfig \<Rightarrow> mem_world
     \<Rightarrow> goerror + mem_world front \<times> ((gerr \<times> mem_world persistence) + mem_world lifecycle)" where
  "mem_main lib wl E ord file_ob http_ob fault listen rpcListen cfg w =
     (case main_checks E cfg of
        Inl e \<Rightarrow> Inl e
      | Inr (grpcTLS, privateKey) \<Rightarrow>
        (case mem_storage lib fault cfg (mw_fs w) of
           Inl e \<Rightarrow> Inl e
         | Inr storage \<Rightarrow>
           (let svc = mem_service lib cfg;
                interval = (if sc_FileStorageEnabled cfg then sint (seconds_duration (sc_StoreInterval cfg)) else 0)
            in case main_front lib wl E ord cfg grpcTLS privateKey svc None (main_observers file_ob http_ob cfg) of
                 Inl e \<Rightarrow> Inl e
               | Inr front \<Rightarrow>
                 Inr (front, RunWithGRPC (mem_flush lib cfg) listen (if sc_GRPCAddress cfg = [] then None else Some rpcListen)
                               (configurePersistence interval (w\<lparr>mw_store := storage\<rparr>))))))"

section \<open>Storage in a database\<close>

definition NewPostgresDB :: "(string \<Rightarrow> gerr) \<Rightarrow> string \<Rightarrow> goerror + bool" where
  "NewPostgresDB sql_Open dsn = (if dsn = [] then Inr False else case sql_Open dsn of Some e \<Rightarrow> Inl e | None \<Rightarrow> Inr True)"

definition MigratePostgres :: "gerr \<Rightarrow> (pgdb \<Rightarrow> gerr \<times> pgdb) \<Rightarrow> bool \<Rightarrow> pgdb \<Rightarrow> gerr \<times> pgdb" where
  "MigratePostgres set_dialect goose_Up db w =
     (if \<not> db then (None, w)
      else case set_dialect of
        Some e \<Rightarrow> (Some (WrapError ''set migration dialect'' [e]), w)
      | None \<Rightarrow> (case retryPostgres goose_Up w of
                   (Some e, w') \<Rightarrow> (Some (WrapError ''apply migrations'' [e]), w')
                 | (None, w') \<Rightarrow> (None, w')))"

definition pg_main ::
  "golib \<Rightarrow> wirelib \<Rightarrow> main_env \<Rightarrow> (pgdb \<Rightarrow> string list \<times> string list) \<Rightarrow> (string \<Rightarrow> pgdb observer) \<Rightarrow> (string \<Rightarrow> pgdb observer)
     \<Rightarrow> (string \<Rightarrow> gerr) \<Rightarrow> gerr \<Rightarrow> (pgdb \<Rightarrow> gerr \<times> pgdb) \<Rightarrow> (pgdb \<Rightarrow> gerr \<times> pgdb) \<Rightarrow> gerr \<Rightarrow> gerr \<Rightarrow> ServerConfig \<Rightarrow> pgdb
     \<Rightarrow> goerror + pgdb front \<times> ((gerr \<times> pgdb persistence) + pgdb lifecycle)" where
  "pg_main lib wl E ord file_ob http_ob sql_Open set_dialect goose_Up ping listen rpcListen cfg w =
     (case main_checks E cfg of
        Inl e \<Rightarrow> Inl e
      | Inr (grpcTLS, privateKey) \<Rightarrow>
        (case NewPostgresDB sql_Open (sc_DatabaseDSN cfg) of
           Inl e \<Rightarrow> Inl e
         | Inr db \<Rightarrow>
           (case MigratePostgres set_dialect goose_Up db w of
              (Some e, _) \<Rightarrow> Inl e
            | (None, w') \<Rightarrow>
              (case main_front lib wl E ord cfg grpcTLS privateKey (NewMetricsService pg_repository) (Some ping)
                      (main_observers file_ob http_ob cfg) of
                 Inl e \<Rightarrow> Inl e
               | Inr front \<Rightarrow>
                 Inr (front, RunWithGRPC (\<lambda>w. (None, w)) listen (if sc_GRPCAddress cfg = [] then None else Some rpcListen)
                               (configurePersistence 0 w'))))))"

section \<open>A server that starts\<close>

text \<open>Once the checks passed nothing but the storage can keep the server from starting, and its stack answers.\<close>

lemma subnet_of_Inr: "subnet_of what cidr = Inr n \<Longrightarrow> \<exists>n'. subnet_of what' cidr = Inr n'"
  by (cases "ParseCIDR cidr") (auto simp: subnet_of_def split: if_splits)

lemma main_front_started:
  assumes "main_checks E cfg = Inr (tls, key)"
  shows "\<exists>front. main_front lib wl E ord cfg tls key svc db observers = Inr front \<and> (\<forall>env. \<exists>serve. fr_http front env = Inr serve)"
proof -
  obtain n where n: "subnet_of ''parse trusted subnet'' (sc_TrustedSubnet cfg) = Inr n"
  proof (cases "sc_TrustedSubnet cfg = []")
    case True
    then show ?thesis using that by (simp add: subnet_of_def)
  next
    case False
    then show ?thesis using assms that by (auto simp: main_checks_def split: sum.splits)
  qed
  have stack: "\<exists>serve. server_stack lib wl (sc_Key cfg) key (sc_TrustedSubnet cfg) (handlers :: 'a serve) = Inr serve" for handlers
    using n by (auto simp: server_stack_def Http_TrustedSubnet_def Let_def)
  show ?thesis
  proof (cases "sc_GRPCAddress cfg = []")
    case True
    then show ?thesis using stack by (simp add: main_front_def Let_def)
  next
    case False
    then obtain t where t: "tls = Some t" "tls_Certificates t = 1"
      using assms by (auto simp: main_checks_def LoadServerTLS_def split: sum.splits option.splits)
    obtain n' where n': "subnet_of ''parse gRPC trusted subnet'' (sc_TrustedSubnet cfg) = Inr n'" using subnet_of_Inr [OF n] by blast
    have "\<exists>s. NewServer (Some (Svc_UpdateMetricsOnce lib svc)) (sc_TrustedSubnet cfg) (h_auditor (main_handler svc db observers)) tls = Inr s"
      by (cases "sc_TrustedSubnet cfg = []") (simp_all add: NewServer_def Grpc_TrustedSubnet_def t n')
    then show ?thesis using False stack by (auto simp: main_front_def Let_def)
  qed
qed

lemma RunWithGRPC_store:
  assumes "\<And>w. mw_store (snd (save w)) = mw_store w"
  shows "mw_store (case RunWithGRPC save listen rpc (configurePersistence i w) of
      Inl (_, p) \<Rightarrow> p_world p | Inr l \<Rightarrow> p_world (lc_saver l)) = mw_store w"
  using assms [of w]
  by (cases "save w") (auto simp: RunWithGRPC_def Run_http_def close_now_def pstep_defs lifecycle_start_def Let_def
      split: option.split)


section \<open>A concrete restart\<close>

text \<open>An HTTP server with synchronous saving that is cancelled without requests: it returns nil after its last save.\<close>

lemma quiet_shutdown:
  assumes "p_done p" "p_once p = NotStarted" "save (p_world p) = (None, w')"
  shows "\<exists>l. lrun save upd env (lifecycle_start False p) l \<and> lc_phase l = Returned None \<and> p_world (lc_saver l) = w'"
proof -
  let ?t = "new_transport False"
  define l0 where "l0 = lifecycle_start False p"
  define l1 where "l1 = l0\<lparr>lc_ctx := True\<rparr>"
  define l2 where "l2 = begin_shutdown l1"
  define l3 where "l3 = set_transport 0 (?t\<lparr>tr_closing := True, tr_ret := Some (Some ErrServerClosed)\<rparr>) l2"
  define l4 where "l4 = set_transport 0 (?t\<lparr>tr_closing := True, tr_ret := Some (Some ErrServerClosed), tr_down := True\<rparr>) (l3\<lparr>lc_shutdown := None\<rparr>)"
  define l5 where "l5 = l4\<lparr>lc_phase := Collecting\<rparr>"
  define l6 where "l6 = set_transport 0 (?t\<lparr>tr_closing := True, tr_ret := Some (Some ErrServerClosed), tr_down := True, tr_received := True\<rparr>)
    (l5\<lparr>lc_rest := lc_rest l5 @ [Some ErrServerClosed]\<rparr>)"
  define l7 where "l7 = l6\<lparr>lc_phase := Flushing, lc_saver := close_begin (lc_saver l6)\<rparr>"
  define q where "q = close_finish save (lc_saver l7)"
  define l8 where "l8 = l7\<lparr>lc_phase := Returned (lifecycle_result l7 (p_err q)), lc_saver := q\<rparr>"
  note d = l0_def l1_def l2_def l3_def l4_def l5_def l6_def l7_def q_def l8_def lifecycle_start_def begin_shutdown_def new_transport_def
    set_transport_def
  have "lstep save upd env l0 l1" unfolding l1_def by (rule lstep.cancel)
  moreover have "lstep save upd env l1 l2" unfolding l2_def by (rule lstep.wake_ctx) (simp_all add: d)
  moreover have "lstep save upd env l2 l3"
    using lstep.serve_ends [of 0 l2 "?t\<lparr>tr_closing := True\<rparr>" "Some ErrServerClosed"] by (simp add: d)
  moreover have "lstep save upd env l3 l4"
    using lstep.shutdown_returns [of l3 0 "?t\<lparr>tr_closing := True, tr_ret := Some (Some ErrServerClosed)\<rparr>" save upd env None]
    by (simp add: d)
  moreover have "lstep save upd env l4 l5" unfolding l5_def by (rule lstep.drained) (simp_all add: d)
  moreover have "lstep save upd env l5 l6"
    using lstep.collect [of l5 0 "?t\<lparr>tr_closing := True, tr_ret := Some (Some ErrServerClosed), tr_down := True\<rparr>" "Some ErrServerClosed"]
    by (simp add: d)
  moreover have "lstep save upd env l6 l7" unfolding l7_def by (rule lstep.flush_begin) (simp_all add: d assms(2))
  moreover have "lstep save upd env l7 l8"
    unfolding l8_def by (rule lstep.flush_end) (simp_all add: d close_begin_def assms(1))
  ultimately have "lrun save upd env l0 l8" by (meson lrun.start lrun.more)
  moreover have "lc_phase l8 = Returned None"
    using assms(3)
    by (simp add: d close_begin_def close_finish_def lifecycle_result_def single_result_def errors_Join_None_iff ErrServerClosed_def Let_def)
  moreover have "p_world (lc_saver l8) = w'" using assms(3) by (simp add: d close_begin_def close_finish_def)
  ultimately show ?thesis by (auto simp: l0_def)
qed

definition demo_cfg :: ServerConfig where
  "demo_cfg = \<lparr>sc_Address = '':8080'', sc_GRPCAddress = [], sc_GRPCTLSCert = [], sc_GRPCTLSKey = [], sc_StoreInterval = 0,
     sc_FileStoragePath = ''file'', sc_FileStorageEnabled = True, sc_Restore = True, sc_DatabaseDSN = [], sc_Key = [], sc_CryptoKey = [],
     sc_AuditFile = [], sc_AuditURL = [], sc_TrustedSubnet = []\<rparr>"

definition demo_main_env :: main_env where
  "demo_main_env =
     \<lparr>me_keys = \<lparr>os_ReadFile = (\<lambda>_. Inl (ErrorString ''file'')), pem_Decode = (\<lambda>_. None), ParsePKIXPublicKey = (\<lambda>_. Inr None),
        ParsePKCS1PublicKey = (\<lambda>_. Inl (ErrorString ''key'')), ParsePKCS8PrivateKey = (\<lambda>_. Inr None),
        ParsePKCS1PrivateKey = (\<lambda>_. Inl (ErrorString ''key'')), rsa_Validate = (\<lambda>_. None)\<rparr>,
      me_LoadX509KeyPair = (\<lambda>_ _. None), me_chi = (\<lambda>rs r. Inl no_response)\<rparr>"

definition demo_files :: fs where
  "demo_files = [''file'' \<mapsto> json_print demo_doc @ newline]"

definition demo_mem_main :: "mem_world \<Rightarrow> goerror + mem_world front \<times> ((gerr \<times> mem_world persistence) + mem_world lifecycle)" where
  "demo_mem_main = mem_main demo_lib demo_wire demo_main_env (\<lambda>_. ([], [])) (\<lambda>_ _ w. (None, w)) (\<lambda>_ _ w. (None, w)) None None None demo_cfg"

lemma demo_checks: "main_checks demo_main_env demo_cfg = Inr (None, None)"
  by (simp add: main_checks_def demo_cfg_def LoadPrivateKey_def)

lemma demo_restored: "NewMemStorageWithRestore demo_lib None demo_files ''file'' True = Inr demo_storage"
  using saved_restores [OF demo_lib_float demo_utf8 demo_orders_of good_io_fresh demo_SaveToFile [OF demo_doc_records]]
  by (simp add: demo_files_def)

lemma demo_save_again: "SaveToFile demo_lib good_io demo_orders ''file'' demo_storage demo_files = (None, demo_files)"
  by (simp add: SaveToFile_def save_body_def encode_to_def good_io_def Let_def fun_eq_iff demo_doc_records demo_files_def)


end
