(* ===== verification/Agent_Main.thy ===== *)
theory Agent_Main
  imports Grpc_Server Config Key_Files
begin

text \<open>
  \<open>cmd/agent/main.go\<close>: the agent that is built from a configuration. Loading files, dialling and closing are
  parameters; \<open>sender\<close> is the gRPC client over a connection with the given TLS settings.
\<close>

record 'n agent_env =
  ae_keys :: keylib
  ae_certs :: "bytes \<Rightarrow> string list"
  ae_dial :: gerr
  ae_close :: gerr
  ae_sender :: "tls_Config \<Rightarrow> 'n batch_sender"
  ae_client :: "'n http_client"
  ae_sleep :: "duration \<Rightarrow> 'n \<Rightarrow> 'n"

definition agent_sender :: "'n agent_env \<Rightarrow> AgentConfig \<Rightarrow> goerror + 'n batch_sender option" where
  "agent_sender E cfg =
     (if ac_GRPCAddress cfg = [] then Inr None
      else case LoadClientTLS (os_ReadFile (ae_keys E)) (ae_certs E) (ac_GRPCTLSCA cfg) of
        Inl e \<Rightarrow> Inl e
      | Inr tls \<Rightarrow> (case NewClient (Some tls) (ae_dial E) of Inl e \<Rightarrow> Inl e | Inr tls' \<Rightarrow> Inr (Some (ae_sender E tls'))))"

text \<open>A client that was dialled is closed when the agent cannot be built.\<close>

definition close_on_error :: "'n agent_env \<Rightarrow> 'n batch_sender option \<Rightarrow> goerror + 'n Agent \<Rightarrow> goerror + 'n Agent" where
  "close_on_error E sender built =
     (case built of
        Inr a \<Rightarrow> Inr a
      | Inl e \<Rightarrow> (case (if sender = None then Some e else errors_Join [Some e, ae_close E]) of Some e' \<Rightarrow> Inl e' | None \<Rightarrow> Inl e))"

definition agent_main :: "'n agent_env \<Rightarrow> AgentConfig \<Rightarrow> goerror + 'n Agent" where
  "agent_main E cfg =
     (case LoadPublicKey (ae_keys E) (ac_CryptoKey cfg) of
        Inl e \<Rightarrow> Inl e
      | Inr publicKey \<Rightarrow>
        (case agent_sender E cfg of
           Inl e \<Rightarrow> Inl e
         | Inr sender \<Rightarrow>
             close_on_error E sender (NewAgent (ae_client E) (ae_sleep E) (ac_Address cfg) (seconds_duration (ac_PollInterval cfg))
               (seconds_duration (ac_ReportInterval cfg))
               [Some (WithStore (Some NewStore)), Some (WithBatchSender sender), Some (WithKey (ac_Key cfg)),
                Some (WithPublicKey publicKey), Some (WithRateLimit (ac_RateLimit cfg))])))"

text \<open>What \<open>main\<close> does with the result of \<open>Run\<close>: the connection is closed and both errors are fatal.\<close>

definition agent_exit :: "'n agent_env \<Rightarrow> AgentConfig \<Rightarrow> gerr \<Rightarrow> gerr" where
  "agent_exit E cfg err = (if ac_GRPCAddress cfg = [] then err else errors_Join [err, ae_close E])"

lemma agent_exit_clean: "agent_exit E cfg err = None \<Longrightarrow> err = None"
  by (auto simp: agent_exit_def errors_Join_None_iff split: if_splits)

text \<open>The settings of an accepted configuration that construction depends on.\<close>

lemma LoadAgentConfig_ok:
  assumes "LoadAgentConfig pd env read_file path flags = Inr cfg"
  shows "ac_Address cfg \<noteq> []" "0 < sint (seconds_duration (ac_PollInterval cfg))"
    "0 < sint (seconds_duration (ac_ReportInterval cfg))" "0 < sint (ac_RateLimit cfg)"
proof -
  from assms have c: "0 < sint (ac_PollInterval cfg)" "0 < sint (ac_ReportInterval cfg)" "0 < sint (ac_RateLimit cfg)"
    "validateSeconds ''PollInterval'' (ac_PollInterval cfg) = None"
    "validateSeconds ''ReportInterval'' (ac_ReportInterval cfg) = None" "ac_Address cfg \<noteq> []"
    by (auto simp: LoadAgentConfig_def Let_def normalizeServerURL_def HasPrefix_def split: sum.splits if_splits option.splits)
  then show "ac_Address cfg \<noteq> []" "0 < sint (ac_RateLimit cfg)" by simp_all
  show "0 < sint (seconds_duration (ac_PollInterval cfg))" "0 < sint (seconds_duration (ac_ReportInterval cfg))"
    using seconds_duration_exact [OF c(4)] seconds_duration_exact [OF c(5)] c(1,2) by simp_all
qed

text \<open>
  From an accepted configuration only a key, a certificate or the connection can keep the agent from being
  built. It encrypts exactly when a key is configured, with a key \<open>Encrypt\<close> does not refuse, and its gRPC
  connection verifies the server with TLS 1.2 or newer.
\<close>

lemma agent_main_started:
  assumes "LoadAgentConfig pd env read_file path flags = Inr cfg"
  shows "case agent_main E cfg of
      Inl e \<Rightarrow> LoadPublicKey (ae_keys E) (ac_CryptoKey cfg) = Inl e \<or> agent_sender E cfg = Inl e
    | Inr a \<Rightarrow> (ag_publicKey a = None \<longleftrightarrow> ac_CryptoKey cfg = [])
        \<and> (ag_publicKey a \<noteq> None \<longrightarrow> validatePublicKey (ag_publicKey a) = None)
        \<and> (ag_sender a = None \<longleftrightarrow> ac_GRPCAddress cfg = [])
        \<and> (\<forall>s. ag_sender a = Some s \<longrightarrow> (\<exists>tls. s = ae_sender E tls \<and> \<not> tls_InsecureSkipVerify tls \<and> VersionTLS12 \<le> tls_MinVersion tls))
        \<and> ag_key a = ac_Key cfg \<and> ag_store a = NewStore"
proof (cases "LoadPublicKey (ae_keys E) (ac_CryptoKey cfg)")
  case (Inr publicKey)
  note key = LoadPublicKey_valid [OF Inr] and ok = LoadAgentConfig_ok [OF assms]
  show ?thesis
  proof (cases "agent_sender E cfg")
    case s: (Inr sender)
    have "sender = None \<longleftrightarrow> ac_GRPCAddress cfg = []"
      "\<forall>x. sender = Some x \<longrightarrow> (\<exists>tls. x = ae_sender E tls \<and> \<not> tls_InsecureSkipVerify tls \<and> VersionTLS12 \<le> tls_MinVersion tls)"
      using s by (auto simp: agent_sender_def LoadClientTLS_def NewClient_def at_least_TLS12_def Let_def
          split: if_splits sum.splits option.splits)
    moreover have "publicKey = None \<longleftrightarrow> ac_CryptoKey cfg = []" "ac_CryptoKey cfg \<noteq> [] \<longrightarrow> validatePublicKey publicKey = None"
      using key by auto
    ultimately show ?thesis using ok Inr s by (simp add: agent_main_def close_on_error_def NewAgent_def validate_def Let_def)
  qed (simp add: agent_main_def Inr)
qed (simp add: agent_main_def)

end
