(* ===== verification/Linter.thy ===== *)
theory Linter
  imports Go_Prelude "HOL-Library.Sublist"
begin

text \<open>
  \<open>cmd/linter/analyzer.go\<close>: the analyzer \<open>noexit\<close> on syntax trees. The nodes the analyzer looks at are
  constructors, every other node of \<open>go/ast\<close> is a \<open>Node\<close> with its children in the order of \<open>ast.Walk\<close>. An
  identifier is a number and \<open>Uses\<close> what the type checker recorded for it.
\<close>

datatype ast =
    Ident nat
  | ParenExpr ast
  | SelectorExpr ast nat
  | CallExpr nat ast "ast list"
  | FuncLit "ast list"
  | FuncDecl string bool "ast list"
  | Node "ast list"

text \<open>An object of \<open>go/types\<close>: a builtin, a function with the path of its package and whether it is a method, or another.\<close>

datatype object = Builtin string | Func "string option" string bool | OtherObject

record pass =
  pass_pkg :: string
  pass_Uses :: "nat \<Rightarrow> object option"

fun children :: "ast \<Rightarrow> ast list" where
  "children (Ident i) = []"
| "children (ParenExpr e) = [e]"
| "children (SelectorExpr e sel) = [e, Ident sel]"
| "children (CallExpr pos f args) = f # args"
| "children (FuncLit parts) = parts"
| "children (FuncDecl name recv parts) = parts"
| "children (Node parts) = parts"

fun Unparen :: "ast \<Rightarrow> ast" where
  "Unparen (ParenExpr e) = Unparen e"
| "Unparen e = e"

section \<open>The analyzer\<close>

definition callee :: "pass \<Rightarrow> ast \<Rightarrow> object option" where
  "callee P f =
     (case Unparen f of
        Ident i \<Rightarrow> pass_Uses P i
      | SelectorExpr _ sel \<Rightarrow> pass_Uses P sel
      | _ \<Rightarrow> None)"

type_synonym report = "nat \<times> string"

text \<open>The state of a \<open>visitor\<close> is its \<open>inMain\<close>; \<open>Visit\<close> returns that of the visitor for the children, and its reports.\<close>

definition Visit :: "pass \<Rightarrow> bool \<Rightarrow> ast \<Rightarrow> bool \<times> report list" where
  "Visit P inMain n =
     (case n of
        FuncDecl name recv _ \<Rightarrow> (pass_pkg P = ''main'' \<and> name = ''main'' \<and> \<not> recv, [])
      | FuncLit _ \<Rightarrow> (False, [])
      | CallExpr pos f _ \<Rightarrow>
          (inMain,
           (case callee P f of
              Some (Builtin name) \<Rightarrow> if name = ''panic'' then [(pos, ''builtin panic is forbidden'')] else []
            | Some (Func pkg name recv) \<Rightarrow>
                (case pkg of
                   None \<Rightarrow> []
                 | Some path \<Rightarrow>
                     if inMain then []
                     else if recv then []
                     else if path = ''os'' \<and> name = ''Exit''
                          \<or> path = ''log'' \<and> (name = ''Fatal'' \<or> name = ''Fatalf'' \<or> name = ''Fatalln'')
                     then [(pos, path @ ''.'' @ name @ '' is forbidden outside main.main'')] else [])
            | _ \<Rightarrow> []))
      | _ \<Rightarrow> (inMain, []))"

lemma children_smaller: "c \<in> set (children n) \<Longrightarrow> size c < size n"
  by (cases n) (auto dest: size_list_estimation' [where f = size, OF _ order.refl])

text \<open>\<open>ast.Walk\<close>: visit a node, then walk its children with the returned visitor.\<close>

function walk :: "pass \<Rightarrow> bool \<Rightarrow> ast \<Rightarrow> report list" where
  "walk P inMain n =
     (case Visit P inMain n of (inMain', reports) \<Rightarrow> reports @ concat (map (\<lambda>c. walk P inMain' c) (children n)))"
  by pat_completeness auto
termination walk
  by (relation "measure (\<lambda>(P, inMain, n). size n)") (auto dest: children_smaller)

declare walk.simps [simp del]

definition run :: "pass \<Rightarrow> ast list \<Rightarrow> report list" where
  "run P files = concat (map (walk P False) files)"

section \<open>What is reported\<close>

text \<open>
  \<open>occurs e n e' m\<close>: \<open>m\<close> is a node of the tree \<open>n\<close> and \<open>e'\<close> the innermost function around it, when \<open>e\<close> is
  the one around \<open>n\<close>.
\<close>

definition innermost :: "ast option \<Rightarrow> ast \<Rightarrow> ast option" where
  "innermost e n = (case n of FuncDecl _ _ _ \<Rightarrow> Some n | FuncLit _ \<Rightarrow> Some n | _ \<Rightarrow> e)"

inductive occurs :: "ast option \<Rightarrow> ast \<Rightarrow> ast option \<Rightarrow> ast \<Rightarrow> bool" where
  here: "occurs e n e n"
| below: "c \<in> set (children n) \<Longrightarrow> occurs (innermost e n) c e' m \<Longrightarrow> occurs e n e' m"

definition is_main :: "pass \<Rightarrow> ast option \<Rightarrow> bool" where
  "is_main P e \<longleftrightarrow> pass_pkg P = ''main'' \<and> (\<exists>parts. e = Some (FuncDecl ''main'' False parts))"

definition exits :: "string \<Rightarrow> string \<Rightarrow> bool" where
  "exits path name \<longleftrightarrow> (path, name) \<in> {(''os'', ''Exit''), (''log'', ''Fatal''), (''log'', ''Fatalf''), (''log'', ''Fatalln'')}"

text \<open>A call that must be reported, when it stands in the function \<open>e\<close>, and with which message.\<close>

definition offends :: "pass \<Rightarrow> ast option \<Rightarrow> ast \<Rightarrow> string \<Rightarrow> bool" where
  "offends P e f msg \<longleftrightarrow>
     callee P f = Some (Builtin ''panic'') \<and> msg = ''builtin panic is forbidden''
   \<or> (\<exists>path name. callee P f = Some (Func (Some path) name False) \<and> exits path name \<and> \<not> is_main P e
        \<and> msg = path @ ''.'' @ name @ '' is forbidden outside main.main'')"

lemma Visit_main: "is_main P e = inMain \<Longrightarrow> fst (Visit P inMain n) = is_main P (innermost e n)"
  by (cases n) (auto simp: Visit_def innermost_def is_main_def)

lemma Visit_reports:
  "is_main P e = inMain \<Longrightarrow>
   r \<in> set (snd (Visit P inMain n)) \<longleftrightarrow> (\<exists>f args. n = CallExpr (fst r) f args \<and> offends P e f (snd r))"
proof (cases "\<exists>pos f args. n = CallExpr pos f args")
  case True
  assume m: "is_main P e = inMain"
  from True obtain pos f args where n: "n = CallExpr pos f args" by blast
  show ?thesis
  proof (cases "callee P f")
    case None
    then show ?thesis by (simp add: n Visit_def offends_def)
  next
    case (Some obj)
    show ?thesis
    proof (cases obj)
      case (Func pkg name recv)
      with m Some show ?thesis by (cases r; cases pkg) (auto simp: n Visit_def offends_def exits_def)
    qed (use Some in \<open>cases r; auto simp: n Visit_def offends_def\<close>)+
  qed
qed (cases n; auto simp: Visit_def)

lemma Visit_once: "length (snd (Visit P inMain n)) \<le> 1"
  by (auto simp: Visit_def split: ast.splits option.splits object.splits)

inductive_simps occurs_iff: "occurs e n e' m"

lemma walk_reports:
  "is_main P e = inMain \<Longrightarrow>
   r \<in> set (walk P inMain n) \<longleftrightarrow> (\<exists>e' f args. occurs e n e' (CallExpr (fst r) f args) \<and> offends P e' f (snd r))"
proof (induction "size n" arbitrary: n e inMain rule: less_induct)
  case less
  obtain inMain' rs where v: "Visit P inMain n = (inMain', rs)" by fastforce
  have m: "is_main P (innermost e n) = inMain'" using Visit_main [OF less.prems, of n] v by simp
  have "r \<in> set (walk P inMain n) \<longleftrightarrow> r \<in> set rs \<or> (\<exists>c \<in> set (children n). r \<in> set (walk P inMain' c))"
    by (simp add: walk.simps [of P inMain n] v)
  also have "\<dots> \<longleftrightarrow> (\<exists>f args. n = CallExpr (fst r) f args \<and> offends P e f (snd r))
      \<or> (\<exists>c \<in> set (children n). \<exists>e' f args. occurs (innermost e n) c e' (CallExpr (fst r) f args) \<and> offends P e' f (snd r))"
    using Visit_reports [OF less.prems, of r n] v less.hyps [OF children_smaller m] by simp
  also have "\<dots> \<longleftrightarrow> (\<exists>e' f args. occurs e n e' (CallExpr (fst r) f args) \<and> offends P e' f (snd r))"
    by (subst (2) occurs_iff) blast
  finally show ?case .
qed

text \<open>The calls of a tree in the order of the source.\<close>

function call_positions :: "ast \<Rightarrow> nat list" where
  "call_positions n = (case n of CallExpr pos _ _ \<Rightarrow> [pos] | _ \<Rightarrow> []) @ concat (map call_positions (children n))"
  by pat_completeness auto
termination call_positions
  by (relation "measure size") (auto dest: children_smaller)

declare call_positions.simps [simp del]

lemma subseq_concat: "(\<And>x. x \<in> set xs \<Longrightarrow> subseq (f x) (g x)) \<Longrightarrow> subseq (concat (map f xs)) (concat (map g xs))"
  by (induction xs) (auto intro: list_emb_append_mono)

lemma Visit_positions:
  "subseq (map fst (snd (Visit P inMain n))) (case n of CallExpr pos _ _ \<Rightarrow> [pos] | _ \<Rightarrow> [])"
  by (auto simp: Visit_def split: ast.split option.split object.split)

lemma walk_positions: "subseq (map fst (walk P inMain n)) (call_positions n)"
proof (induction "size n" arbitrary: n inMain rule: less_induct)
  case less
  obtain inMain' rs where v: "Visit P inMain n = (inMain', rs)" by fastforce
  have "subseq (concat (map (\<lambda>c. map fst (walk P inMain' c)) (children n))) (concat (map call_positions (children n)))"
    by (rule subseq_concat) (rule less [OF children_smaller])
  with Visit_positions [of P inMain n] show ?case
    by (auto simp: walk.simps [of P inMain n] call_positions.simps [of n] v map_concat comp_def intro: list_emb_append_mono)
qed


text \<open>The fixture \<open>testdata/src/entry/main.go\<close> with the diagnostics its comments ask for; calls are numbered in source order.\<close>

definition entry_pass :: pass where
  "entry_pass =
     \<lparr>pass_pkg = ''main'',
      pass_Uses = (\<lambda>i. [Some (Func (Some ''log'') ''Fatal'' False), Some (Func (Some ''log'') ''Fatalf'' False),
        Some (Func (Some ''log'') ''Fatalln'' False), Some (Func (Some ''os'') ''Exit'' False), Some (Builtin ''panic''),
        Some OtherObject, None] ! i)\<rparr>"

definition entry_file :: "ast list" where
  "entry_file =
     (let sel = (\<lambda>pos f. CallExpr pos (SelectorExpr (Ident 5) f) []); ident = (\<lambda>pos f. CallExpr pos (Ident f) []) in
      [Node
        [FuncDecl ''main'' False
           [Ident 6, sel 1 0, sel 2 1, sel 3 2, sel 4 3, ident 5 4, CallExpr 6 (FuncLit [sel 7 3, sel 8 0]) [], sel 9 3],
         FuncDecl ''helper'' False [Ident 6, sel 10 3, sel 11 0, ident 12 4],
         FuncDecl ''init'' False [Ident 6, sel 13 3],
         Node [Ident 6],
         FuncDecl ''main'' True [Node [Ident 5], Ident 6, sel 14 3]]])"

lemma entry_fixture:
  "run entry_pass entry_file =
     (let exit = ''os.Exit is forbidden outside main.main''; fatal = ''log.Fatal is forbidden outside main.main'';
          panic = ''builtin panic is forbidden''
      in [(5, panic), (7, exit), (8, fatal), (10, exit), (11, fatal), (12, panic), (13, exit), (14, exit)])"
  by code_simp

end
