(* ===== verification/Reset_Gen.thy ===== *)
theory Reset_Gen
  imports Go_Strings "HOL-Library.AList" "HOL-Library.Sublist"
begin

text \<open>
  \<open>cmd/reset/main.go\<close> and \<open>reset.tmpl\<close>, the generator of \<open>Reset\<close> methods: from the type of a field to the
  operations that clear it. Expressions and type names, which the code builds as strings, are trees here and
  \<open>expr_text\<close>, \<open>type_text\<close> give the strings.
\<close>

section \<open>Types\<close>

text \<open>
  Types of \<open>go/types\<close>. A basic type has its name; interfaces, functions, channels and type parameters are
  \<open>TOther\<close> with the types they mention. A named type has the path of its package, its name and its type
  arguments; the argument \<open>td\<close> of the model gives its underlying type.
\<close>

datatype basic = Boolean | StringBasic | UnsafePointer | Numeric

datatype gotype =
    TBasic basic string
  | TPointer gotype
  | TSlice gotype
  | TMap gotype gotype
  | TStruct "(string \<times> gotype) list"
  | TArray nat gotype
  | TOther string "gotype list"
  | TNamed string string "gotype list"

type_synonym tenv = "gotype \<Rightarrow> gotype"

fun Underlying :: "tenv \<Rightarrow> gotype \<Rightarrow> gotype" where
  "Underlying td (TNamed pkg name args) = td (TNamed pkg name args)"
| "Underlying td t = t"

section \<open>The generator\<close>

datatype lexpr = Field string | Deref lexpr | Index lexpr string

fun expr_text :: "lexpr \<Rightarrow> string" where
  "expr_text (Field f) = ''rs.'' @ f"
| "expr_text (Deref e) = ''(*'' @ expr_text e @ '')''"
| "expr_text (Index e i) = expr_text e @ ''['' @ i @ '']''"

text \<open>A type as it is written in the generated file: the package of a named type is its alias, or empty.\<close>

datatype resetOperation =
  Operation (op_Kind: string) (op_Expr: lexpr) (op_Value: string) (op_Type: "gotype option") (op_Index: string)
    (op_Children: "resetOperation list")

record resetMethod =
  rm_Name :: string
  rm_Receiver :: string
  rm_Operations :: "resetOperation list"

record generator =
  g_pkg :: string
  g_methods :: "resetMethod list"
  g_imports :: "(string \<times> string) list"
  g_index :: nat

text \<open>The qualifier of \<open>typeName\<close>: aliases are numbered in the order in which packages are met.\<close>

definition qualifier :: "string \<Rightarrow> (string \<times> string) list \<Rightarrow> string \<Rightarrow> string \<times> (string \<times> string) list" where
  "qualifier own imports pkg =
     (if pkg = own then ([], imports)
      else case map_of imports pkg of
        Some alias \<Rightarrow> (alias, imports)
      | None \<Rightarrow> (let alias = ''resetpkg'' @ format_nat (length imports) in (alias, imports @ [(pkg, alias)])))"

text \<open>\<open>types.TypeString\<close> calls the qualifier for every named type it writes, from left to right.\<close>

fun thread :: "('a \<Rightarrow> 's \<Rightarrow> 'b \<times> 's) \<Rightarrow> 'a list \<Rightarrow> 's \<Rightarrow> 'b list \<times> 's" where
  "thread f [] s = ([], s)"
| "thread f (x # xs) s = (case f x s of (y, s1) \<Rightarrow> case thread f xs s1 of (ys, s2) \<Rightarrow> (y # ys, s2))"

lemma thread_cong [fundef_cong]:
  "xs = ys \<Longrightarrow> s = s' \<Longrightarrow> (\<And>x s. x \<in> set ys \<Longrightarrow> f x s = g x s) \<Longrightarrow> thread f xs s = thread g ys s'"
  by (induction xs arbitrary: ys s s') (auto split: prod.split)

fun TypeString :: "string \<Rightarrow> gotype \<Rightarrow> (string \<times> string) list \<Rightarrow> gotype \<times> (string \<times> string) list" where
  "TypeString own (TBasic b name) im = (TBasic b name, im)"
| "TypeString own (TPointer t) im = apfst TPointer (TypeString own t im)"
| "TypeString own (TSlice t) im = apfst TSlice (TypeString own t im)"
| "TypeString own (TMap k t) im =
     (case TypeString own k im of (k', im1) \<Rightarrow> apfst (TMap k') (TypeString own t im1))"
| "TypeString own (TStruct fs) im = apfst TStruct (thread (\<lambda>(f, t) im1. apfst (Pair f) (TypeString own t im1)) fs im)"
| "TypeString own (TArray n t) im = apfst (TArray n) (TypeString own t im)"
| "TypeString own (TOther s ts) im = apfst (TOther s) (thread (\<lambda>t im1. TypeString own t im1) ts im)"
| "TypeString own (TNamed pkg name args) im =
     (case qualifier own im pkg of
        (al, im1) \<Rightarrow> apfst (TNamed al name) (thread (\<lambda>t im2. TypeString own t im2) args im1))"

definition typeName :: "gotype \<Rightarrow> generator \<Rightarrow> gotype \<times> generator" where
  "typeName t g = (let (name, im) = TypeString (g_pkg g) t (g_imports g) in (name, g\<lparr>g_imports := im\<rparr>))"

definition basic_value :: "basic \<Rightarrow> string" where
  "basic_value b =
     (case b of Boolean \<Rightarrow> ''false'' | StringBasic \<Rightarrow> [char_of (34 :: nat), char_of (34 :: nat)] | UnsafePointer \<Rightarrow> ''nil'' | Numeric \<Rightarrow> ''0'')"

text \<open>\<open>reset\<close> follows pointers and arrays to their element types; \<^const>\<open>None\<close> when that never ends.\<close>

partial_function (option) reset :: "tenv \<Rightarrow> lexpr \<Rightarrow> gotype \<Rightarrow> generator \<Rightarrow> (resetOperation \<times> generator) option" where
  "reset td e t g =
     (case Underlying td t of
        TBasic b name \<Rightarrow> Some (Operation ''basic'' e (basic_value b) None [] [], g)
      | TPointer elem \<Rightarrow>
          Option.bind (reset td (Deref e) elem g) (\<lambda>(child, g1). Some (Operation ''pointer'' e [] None [] [child], g1))
      | TSlice elem \<Rightarrow> Some (Operation ''slice'' e [] None [] [], g)
      | TMap k elem \<Rightarrow> Some (Operation ''map'' e [] None [] [], g)
      | TStruct fs \<Rightarrow> (let (name, g1) = typeName t g in Some (Operation ''struct'' e [] (Some name) [] [], g1))
      | TArray n elem \<Rightarrow>
          (let i = CHR ''i'' # format_nat (g_index g) in
           Option.bind (reset td (Index e i) elem (g\<lparr>g_index := g_index g + 1\<rparr>)) (\<lambda>(child, g1).
             Some (Operation ''array'' e [] None i [child], g1)))
      | _ \<Rightarrow> (let (name, g1) = typeName t g in Some (Operation ''zero'' e [] (Some name) [] [], g1)))"

fun reset_fields :: "tenv \<Rightarrow> (string \<times> gotype) list \<Rightarrow> generator \<Rightarrow> (resetOperation list \<times> generator) option" where
  "reset_fields td [] g = Some ([], g)"
| "reset_fields td ((name, t) # fs) g =
     (if name = ''_'' then reset_fields td fs g
      else Option.bind (reset td (Field name) t g) (\<lambda>(op, g1).
        Option.bind (reset_fields td fs g1) (\<lambda>(ops, g2). Some (op # ops, g2))))"

fun join_comma :: "string list \<Rightarrow> string" where
  "join_comma [] = []"
| "join_comma [s] = s"
| "join_comma (s # ss) = s @ '', '' @ join_comma ss"

text \<open>\<open>method\<close> for a defined struct with its type parameters and fields.\<close>

definition gen_method :: "tenv \<Rightarrow> string \<Rightarrow> string list \<Rightarrow> (string \<times> gotype) list \<Rightarrow> generator \<Rightarrow> generator option" where
  "gen_method td name params fs g =
     (let receiver = name @ (if params \<noteq> [] then ''['' @ join_comma params @ '']'' else []) in
      Option.bind (reset_fields td fs g) (\<lambda>(ops, g1).
        Some (g1\<lparr>g_methods := g_methods g1 @ [\<lparr>rm_Name = name, rm_Receiver = receiver, rm_Operations = ops\<rparr>]\<rparr>)))"

section \<open>The generator comes to an end\<close>

text \<open>Types whose pointers and arrays lead to another kind of type.\<close>

inductive settles :: "tenv \<Rightarrow> gotype \<Rightarrow> bool" for td :: tenv where
  pointer: "Underlying td t = TPointer elem \<Longrightarrow> settles td elem \<Longrightarrow> settles td t"
| array: "Underlying td t = TArray n elem \<Longrightarrow> settles td elem \<Longrightarrow> settles td t"
| other: "(\<And>elem. Underlying td t \<noteq> TPointer elem) \<Longrightarrow> (\<And>n elem. Underlying td t \<noteq> TArray n elem) \<Longrightarrow> settles td t"

lemma settles_direct:
  "settles td u \<Longrightarrow> settles td (TPointer u)" "settles td u \<Longrightarrow> settles td (TArray n u)"
  "settles td (TBasic b name)" "Underlying td t = TStruct fs \<Longrightarrow> settles td t"
  by (auto intro: settles.pointer settles.array settles.other)

lemma reset_returns: "settles td t \<Longrightarrow> \<exists>op g'. reset td e t g = Some (op, g')"
proof (induction arbitrary: e g rule: settles.induct)
  case (pointer t elem)
  from pointer.IH [of "Deref e" g] show ?case by (subst reset.simps) (auto simp: pointer.hyps(1))
next
  case (array t n elem)
  from array.IH [of "Index e (CHR ''i'' # format_nat (g_index g))" "g\<lparr>g_index := g_index g + 1\<rparr>"]
  show ?case by (subst reset.simps) (auto simp: array.hyps(1) Let_def)
next
  case (other t)
  then show ?case by (subst reset.simps) (auto split: gotype.split prod.split)
qed

lemma reset_settles: "reset td e t g = Some r \<Longrightarrow> settles td t"
  by (erule reset.raw_induct [rotated])
    (auto split: gotype.splits prod.splits simp: Let_def bind_eq_Some_conv intro: settles.intros)

lemma reset_fields_returns_iff:
  "reset_fields td fs g \<noteq> None \<longleftrightarrow> (\<forall>(name, t) \<in> set fs. name = ''_'' \<or> settles td t)"
proof (induction fs arbitrary: g)
  case (Cons p fs)
  obtain name t where p: "p = (name, t)" by fastforce
  show ?case
  proof (cases "name = ''_'' \<or> \<not> settles td t")
    case True
    with Cons p reset_settles [of td "Field name" t g] show ?thesis by (cases "reset td (Field name) t g") auto
  next
    case False
    with reset_returns obtain op g1 where "reset td (Field name) t g = Some (op, g1)" by blast
    with False Cons [of g1] p show ?thesis by (cases "reset_fields td fs g1") auto
  qed
qed simp

section \<open>Package aliases\<close>

text \<open>The aliases of a file are numbered; the type names in it can be read back, however many imports follow.\<close>

definition imports_ok :: "string \<Rightarrow> (string \<times> string) list \<Rightarrow> bool" where
  "imports_ok own im \<longleftrightarrow>
     own \<notin> fst ` set im \<and> distinct (map fst im) \<and> map snd im = map (\<lambda>j. ''resetpkg'' @ format_nat j) [0..<length im]"

fun unqualify :: "string \<Rightarrow> (string \<times> string) list \<Rightarrow> gotype \<Rightarrow> gotype" where
  "unqualify own im (TBasic b name) = TBasic b name"
| "unqualify own im (TPointer t) = TPointer (unqualify own im t)"
| "unqualify own im (TSlice t) = TSlice (unqualify own im t)"
| "unqualify own im (TMap k t) = TMap (unqualify own im k) (unqualify own im t)"
| "unqualify own im (TStruct fs) = TStruct (map (\<lambda>(f, t). (f, unqualify own im t)) fs)"
| "unqualify own im (TArray n t) = TArray n (unqualify own im t)"
| "unqualify own im (TOther s ts) = TOther s (map (unqualify own im) ts)"
| "unqualify own im (TNamed alias name args) =
     TNamed (if alias = [] then own else case map_of (map prod.swap im) alias of Some pkg \<Rightarrow> pkg | None \<Rightarrow> alias) name (map (unqualify own im) args)"

lemma format_nat_inj: "format_nat m = format_nat n \<Longrightarrow> m = n"
  by (metis option.inject parse_format_nat)

lemma imports_ok_alias:
  assumes "imports_ok own im" "map_of im pkg = Some al"
  shows "al \<noteq> []" "map_of (map prod.swap im) al = Some pkg"
proof -
  have m: "map snd im = map (\<lambda>j. ''resetpkg'' @ format_nat j) [0..<length im]" using assms(1) by (simp add: imports_ok_def)
  have "distinct (map snd im)"
    unfolding m by (auto simp: distinct_map inj_on_def dest: format_nat_inj)
  then have "distinct (map fst (map prod.swap im))" by (simp add: comp_def)
  moreover have p: "(pkg, al) \<in> set im" using assms(2) by (rule map_of_SomeD)
  then have "(al, pkg) \<in> set (map prod.swap im)" by (force simp: image_iff)
  ultimately show "map_of (map prod.swap im) al = Some pkg" by (rule map_of_is_SomeI)
  have "al \<in> set (map snd im)" using p by force
  then show "al \<noteq> []" unfolding m by auto
qed

lemma prefix_map_of: "prefix im im' \<Longrightarrow> map_of im k = Some v \<Longrightarrow> map_of im' k = Some v"
  by (auto simp: prefix_def map_add_def)

text \<open>From \<open>im\<close> to \<open>im1\<close> imports were only appended, and \<open>Q\<close> holds with whatever is appended later.\<close>

definition settled :: "string \<Rightarrow> (string \<times> string) list \<Rightarrow> (string \<times> string) list \<Rightarrow> ((string \<times> string) list \<Rightarrow> bool) \<Rightarrow> bool" where
  "settled own im im1 Q \<longleftrightarrow>
     imports_ok own im1 \<and> prefix im im1 \<and> (\<forall>im2. imports_ok own im2 \<longrightarrow> prefix im1 im2 \<longrightarrow> Q im2)"

lemma settledD: "settled own im im1 Q \<Longrightarrow> imports_ok own im1"
  by (simp add: settled_def)

lemma settled_refl: "imports_ok own im \<Longrightarrow> (\<And>x. Q x) \<Longrightarrow> settled own im im Q"
  by (simp add: settled_def)

lemma settled_mono: "settled own im im1 Q \<Longrightarrow> (\<And>x. Q x \<Longrightarrow> R x) \<Longrightarrow> settled own im im1 R"
  by (simp add: settled_def)

lemma settled_then:
  "settled own im im1 Q \<Longrightarrow> settled own im1 im2 Q' \<Longrightarrow> (\<And>x. Q x \<Longrightarrow> Q' x \<Longrightarrow> R x) \<Longrightarrow> settled own im im2 R"
  unfolding settled_def by (meson prefix_order.trans)

lemma qualifier_ok:
  assumes "imports_ok own im" "qualifier own im pkg = (al, im1)"
  shows "settled own im im1 (\<lambda>im2. (if al = [] then own else case map_of (map prod.swap im2) al of Some pkg \<Rightarrow> pkg | None \<Rightarrow> al) = pkg)"
proof (cases "pkg = own")
  case True
  with assms show ?thesis by (auto simp: qualifier_def intro: settled_refl)
next
  case own: False
  have "imports_ok own im1 \<and> prefix im im1 \<and> map_of im1 pkg = Some al"
  proof (cases "map_of im pkg")
    case None
    then have im1: "im1 = im @ [(pkg, al)]" "al = ''resetpkg'' @ format_nat (length im)"
      using assms(2) own by (auto simp: qualifier_def Let_def)
    from None have "pkg \<notin> fst ` set im" by (simp add: map_of_eq_None_iff)
    with assms(1) own None show ?thesis by (auto simp: im1(1) imports_ok_def map_add_def) (simp add: im1(2))
  next
    case (Some a)
    with assms own show ?thesis by (auto simp: qualifier_def)
  qed
  then have f: "imports_ok own im1" "prefix im im1" "map_of im1 pkg = Some al" by simp_all
  have "al \<noteq> [] \<and> map_of (map prod.swap x) al = Some pkg" if "imports_ok own x" "prefix im1 x" for x
    using imports_ok_alias [OF that(1) prefix_map_of [OF that(2) f(3)]] by simp
  with f show ?thesis by (simp add: settled_def)
qed

lemma thread_ok:
  assumes "\<And>x im y im1. x \<in> set xs \<Longrightarrow> imports_ok own im \<Longrightarrow> f x im = (y, im1) \<Longrightarrow> settled own im im1 (\<lambda>im2. back im2 y = x)"
    and "imports_ok own im" "thread f xs im = (ys, im1)"
  shows "settled own im im1 (\<lambda>im2. map (back im2) ys = xs)"
  using assms
proof (induction xs arbitrary: im ys)
  case (Cons x xs)
  obtain y ima ys1 where r: "f x im = (y, ima)" "thread f xs ima = (ys1, im1)" "ys = y # ys1"
    using Cons.prems(3) by (auto split: prod.splits)
  note a = Cons.prems(1) [OF _ Cons.prems(2) r(1), simplified]
  have "settled own ima im1 (\<lambda>im2. map (back im2) ys1 = xs)"
    by (rule Cons.IH [OF _ settledD [OF a] r(2)]) (auto intro: Cons.prems(1))
  from settled_then [OF a this] r(3) show ?case by auto
qed (auto intro: settled_refl)

lemma apfst_eqD: "apfst f p = (x, y) \<Longrightarrow> \<exists>z. p = (z, y) \<and> x = f z"
  by (cases p) auto

lemma TypeString_ok:
  "imports_ok own im \<Longrightarrow> TypeString own t im = (t', im1) \<Longrightarrow> settled own im im1 (\<lambda>im2. unqualify own im2 t' = t)"
proof (induction own t im arbitrary: t' im1 rule: TypeString.induct)
  case (1 own b name im)
  then show ?case by (auto intro: settled_refl)
next
  case (2 own t im)
  from 2(3) obtain u where u: "TypeString own t im = (u, im1)" "t' = TPointer u" by (auto dest: apfst_eqD)
  show ?case by (rule settled_mono [OF 2(1) [OF 2(2) u(1)]]) (simp add: u(2))
next
  case (3 own t im)
  from 3(3) obtain u where u: "TypeString own t im = (u, im1)" "t' = TSlice u" by (auto dest: apfst_eqD)
  show ?case by (rule settled_mono [OF 3(1) [OF 3(2) u(1)]]) (simp add: u(2))
next
  case (4 own k t im)
  obtain k' ima where k: "TypeString own k im = (k', ima)" by fastforce
  with 4(4) obtain u where u: "TypeString own t ima = (u, im1)" "t' = TMap k' u" by (auto dest: apfst_eqD)
  note a = 4(1) [OF 4(3) k]
  show ?case by (rule settled_then [OF a 4(2) [OF k [symmetric] settledD [OF a] u(1)]]) (simp add: u(2))
next
  case (5 own fs im)
  from 5(3) obtain us where u: "thread (\<lambda>(f, t) im1. apfst (Pair f) (TypeString own t im1)) fs im = (us, im1)" "t' = TStruct us"
    by (auto dest: apfst_eqD)
  have "settled own im im1 (\<lambda>im2. map (\<lambda>(f, t). (f, unqualify own im2 t)) us = fs)"
  proof (rule thread_ok [OF _ 5(2) u(1)])
    fix x im0 y im2
    assume x: "x \<in> set fs" "imports_ok own im0" "(case x of (f, t) \<Rightarrow> \<lambda>im1. apfst (Pair f) (TypeString own t im1)) im0 = (y, im2)"
    obtain f t where ft: "x = (f, t)" by fastforce
    with x(3) obtain w where w: "TypeString own t im0 = (w, im2)" "y = (f, w)" by (auto dest: apfst_eqD)
    show "settled own im0 im2 (\<lambda>im2. (case y of (f, t) \<Rightarrow> (f, unqualify own im2 t)) = x)"
      by (rule settled_mono [OF 5(1) [OF x(1) ft [symmetric] x(2) w(1)]]) (simp add: w ft)
  qed
  then show ?case by (rule settled_mono) (simp add: u(2))
next
  case (6 own n t im)
  from 6(3) obtain u where u: "TypeString own t im = (u, im1)" "t' = TArray n u" by (auto dest: apfst_eqD)
  show ?case by (rule settled_mono [OF 6(1) [OF 6(2) u(1)]]) (simp add: u(2))
next
  case (7 own s ts im)
  from 7(3) obtain us where u: "thread (\<lambda>t im1. TypeString own t im1) ts im = (us, im1)" "t' = TOther s us"
    by (auto dest: apfst_eqD)
  show ?case by (rule settled_mono [OF thread_ok [OF 7(1) 7(2) u(1)]]) (simp_all add: u(2))
next
  case (8 own pkg name args im)
  obtain al ima where q: "qualifier own im pkg = (al, ima)" by fastforce
  with 8(3) obtain us where u: "thread (\<lambda>t im1. TypeString own t im1) args ima = (us, im1)" "t' = TNamed al name us"
    by (auto dest: apfst_eqD)
  note a = qualifier_ok [OF 8(2) q]
  show ?case
    by (rule settled_then [OF a thread_ok [OF 8(1) [OF q [symmetric]] settledD [OF a] u(1)]]) (simp_all add: u(2))
qed

end
