(* ===== verification/Reset_Code.thy ===== *)
theory Reset_Code
  imports Reset_Gen
begin

text \<open>
  What the generated \<open>Reset\<close> methods do. Values are trees: a pointer holds what it points to, so two pointers
  never share. Operations run on the receiver as the Go code that \<open>reset.tmpl\<close> writes for them.
\<close>

section \<open>Values\<close>

text \<open>
  A slice has its array from the first element to the capacity, and its length. A map lists its entries.
  \<open>VOther\<close> is an interface, function, channel or value of a type parameter.
\<close>

datatype val =
    VBool bool
  | VNum int
  | VString string
  | VUnsafe "nat option"
  | VPtr "val option"
  | VSlice "(val list \<times> nat) option"
  | VMap "(val \<times> val) list option"
  | VStruct "(string \<times> val) list"
  | VArray "val list"
  | VOther "nat option"

datatype step = PField string | PDeref | PIdx nat

text \<open>Reading and changing the variable a selector path leads to; \<^const>\<open>None\<close> is a nil dereference or an index out of range.\<close>

fun get :: "step list \<Rightarrow> val \<Rightarrow> val option" where
  "get [] v = Some v"
| "get (PField n # p) (VStruct fs) = Option.bind (map_of fs n) (get p)"
| "get (PDeref # p) (VPtr (Some v)) = get p v"
| "get (PIdx k # p) (VArray vs) = (if k < length vs then get p (vs ! k) else None)"
| "get _ _ = None"

fun upd :: "step list \<Rightarrow> (val \<Rightarrow> val option) \<Rightarrow> val \<Rightarrow> val option" where
  "upd [] f v = f v"
| "upd (PField n # p) f (VStruct fs) =
     Option.bind (map_of fs n) (\<lambda>v. map_option (\<lambda>v'. VStruct (AList.update n v' fs)) (upd p f v))"
| "upd (PDeref # p) f (VPtr (Some v)) = map_option (\<lambda>v'. VPtr (Some v')) (upd p f v)"
| "upd (PIdx k # p) f (VArray vs) =
     (if k < length vs then map_option (\<lambda>v'. VArray (vs[k := v'])) (upd p f (vs ! k)) else None)"
| "upd _ _ _ = None"

abbreviation put :: "step list \<Rightarrow> val \<Rightarrow> val \<Rightarrow> val option" where
  "put p w \<equiv> upd p (\<lambda>_. Some w)"

section \<open>The generated code\<close>

text \<open>The path an expression selects; loop variables have their values from \<open>iv\<close>.\<close>

fun lpath :: "(string \<Rightarrow> nat) \<Rightarrow> lexpr \<Rightarrow> step list" where
  "lpath iv (Field f) = [PField f]"
| "lpath iv (Deref e) = lpath iv e @ [PDeref]"
| "lpath iv (Index e i) = lpath iv e @ [PIdx (iv i)]"

definition literal :: "string \<Rightarrow> val option" where
  "literal s =
     (if s = ''false'' then Some (VBool False)
      else if s = ''0'' then Some (VNum 0)
      else if s = ''nil'' then Some (VUnsafe None)
      else if s = [char_of (34 :: nat), char_of (34 :: nat)] then Some (VString [])
      else None)"

fun reslice :: "val \<Rightarrow> val option" where
  "reslice (VSlice s) = Some (VSlice (map_option (\<lambda>(xs, n). (xs, 0)) s))"
| "reslice v = None"

fun clear_map :: "val \<Rightarrow> val option" where
  "clear_map (VMap m) = Some (VMap (map_option (\<lambda>_. []) m))"
| "clear_map v = None"

fun loop :: "(nat \<Rightarrow> val \<Rightarrow> val option) \<Rightarrow> nat list \<Rightarrow> val \<Rightarrow> val option" where
  "loop body [] v = Some v"
| "loop body (k # ks) v = Option.bind (body k v) (loop body ks)"

text \<open>
  The operations of \<open>reset.tmpl\<close>. \<open>methods t\<close> is the method \<open>Reset\<close> of \<open>*t\<close>, if there is one, and \<open>zeros t\<close> the
  zero value of \<open>t\<close>; \<open>names\<close> is the type a type name of the file stands for.
\<close>

record program =
  methods :: "gotype \<Rightarrow> (val \<Rightarrow> val) option"
  zeros :: "gotype \<Rightarrow> val"

fun exec :: "program \<Rightarrow> (gotype \<Rightarrow> gotype) \<Rightarrow> (string \<Rightarrow> nat) \<Rightarrow> resetOperation \<Rightarrow> val \<Rightarrow> val option"
  and exec_list :: "program \<Rightarrow> (gotype \<Rightarrow> gotype) \<Rightarrow> (string \<Rightarrow> nat) \<Rightarrow> resetOperation list \<Rightarrow> val \<Rightarrow> val option"
where
  "exec P names iv (Operation kind e v ty i children) root =
     (if kind = ''basic'' then upd (lpath iv e) (\<lambda>_. literal v) root
      else if kind = ''pointer'' then
        (case get (lpath iv e) root of
           Some (VPtr None) \<Rightarrow> Some root
         | Some (VPtr (Some _)) \<Rightarrow> exec_list P names iv children root
         | _ \<Rightarrow> None)
      else if kind = ''slice'' then upd (lpath iv e) reslice root
      else if kind = ''map'' then upd (lpath iv e) clear_map root
      else if kind = ''struct'' then
        upd (lpath iv e) (\<lambda>w. Some (case methods P (names (the ty)) of Some m \<Rightarrow> m w | None \<Rightarrow> zeros P (names (the ty)))) root
      else if kind = ''array'' then
        (case get (lpath iv e) root of
           Some (VArray vs) \<Rightarrow> loop (\<lambda>k. exec_list P names (iv(i := k)) children) [0..<length vs] root
         | _ \<Rightarrow> None)
      else upd (lpath iv e) (\<lambda>_. Some (zeros P (names (the ty)))) root)"
| "exec_list P names iv [] root = Some root"
| "exec_list P names iv (op # ops) root = Option.bind (exec P names iv op root) (exec_list P names iv ops)"

section \<open>What \<open>Reset\<close> is to do\<close>

definition elem_type :: "tenv \<Rightarrow> gotype \<Rightarrow> gotype" where
  "elem_type td t = (case Underlying td t of TPointer u \<Rightarrow> u | TArray n u \<Rightarrow> u | _ \<Rightarrow> t)"

text \<open>
  The cleared value: pointers, slices and maps that are not nil stay so and keep what was allocated, with length 0 or
  no entries; structs are reset by their own method or zeroed, everything else is zeroed.
\<close>

fun cleared :: "tenv \<Rightarrow> program \<Rightarrow> gotype \<Rightarrow> val \<Rightarrow> val" where
  "cleared td P t (VBool b) = VBool False"
| "cleared td P t (VNum n) = VNum 0"
| "cleared td P t (VString s) = VString []"
| "cleared td P t (VUnsafe p) = VUnsafe None"
| "cleared td P t (VPtr p) = VPtr (map_option (cleared td P (elem_type td t)) p)"
| "cleared td P t (VSlice s) = VSlice (map_option (\<lambda>(xs, n). (xs, 0)) s)"
| "cleared td P t (VMap m) = VMap (map_option (\<lambda>_. []) m)"
| "cleared td P t (VStruct fs) = (case methods P t of Some m \<Rightarrow> m (VStruct fs) | None \<Rightarrow> zeros P t)"
| "cleared td P t (VArray vs) = VArray (map (cleared td P (elem_type td t)) vs)"
| "cleared td P t (VOther x) = zeros P t"

fun has_type :: "tenv \<Rightarrow> gotype \<Rightarrow> val \<Rightarrow> bool" where
  "has_type td t (VBool b) = (case Underlying td t of TBasic Boolean _ \<Rightarrow> True | _ \<Rightarrow> False)"
| "has_type td t (VNum n) = (case Underlying td t of TBasic Numeric _ \<Rightarrow> True | _ \<Rightarrow> False)"
| "has_type td t (VString s) = (case Underlying td t of TBasic StringBasic _ \<Rightarrow> True | _ \<Rightarrow> False)"
| "has_type td t (VUnsafe p) = (case Underlying td t of TBasic UnsafePointer _ \<Rightarrow> True | _ \<Rightarrow> False)"
| "has_type td t (VPtr p) =
     (case Underlying td t of TPointer u \<Rightarrow> (case p of None \<Rightarrow> True | Some v \<Rightarrow> has_type td u v) | _ \<Rightarrow> False)"
| "has_type td t (VSlice s) = (case Underlying td t of TSlice u \<Rightarrow> True | _ \<Rightarrow> False)"
| "has_type td t (VMap m) = (case Underlying td t of TMap k u \<Rightarrow> True | _ \<Rightarrow> False)"
| "has_type td t (VStruct fs) = (case Underlying td t of TStruct ts \<Rightarrow> map fst ts = map fst fs | _ \<Rightarrow> False)"
| "has_type td t (VArray vs) =
     (case Underlying td t of TArray n u \<Rightarrow> length vs = n \<and> list_all (\<lambda>v. has_type td u v) vs | _ \<Rightarrow> False)"
| "has_type td t (VOther x) = (case Underlying td t of TOther s ts \<Rightarrow> True | _ \<Rightarrow> False)"

section \<open>Paths\<close>

lemma get_append: "get (p @ q) v = Option.bind (get p v) (get q)"
  by (induction p v rule: get.induct) (auto simp: bind_eq_None_conv split: bind_splits)

lemma upd_append: "upd (p @ q) f v = upd p (upd q f) v"
  by (induction p f v rule: upd.induct) (auto split: bind_splits)

lemma upd_cong_get: "get p v = Some w \<Longrightarrow> f w = g w \<Longrightarrow> upd p f v = upd p g v"
  by (induction p f v rule: upd.induct) (auto split: bind_splits)

lemma update_update: "AList.update k x (AList.update k y al) = AList.update k x al"
  by (induction al) auto

lemma update_same: "map_of al k = Some v \<Longrightarrow> AList.update k v al = al"
  by (induction al) auto

lemma put_get: "get p v = Some w \<Longrightarrow> \<exists>v'. put p x v = Some v' \<and> get p v' = Some x"
  by (induction p "\<lambda>_ :: val. Some x" v rule: upd.induct) (auto simp: update_conv split: bind_splits if_splits)

lemma put_put: "put p x v = Some v' \<Longrightarrow> put p y v' = put p y v"
  by (induction p "\<lambda>_ :: val. Some x" v arbitrary: v' rule: upd.induct)
    (auto simp: update_conv update_update split: bind_splits if_splits)

lemma put_same: "get p v = Some w \<Longrightarrow> put p w v = Some v"
  by (induction p "\<lambda>_ :: val. Some w" v rule: upd.induct) (auto simp: update_same split: bind_splits if_splits)

section \<open>The generated operations clear\<close>

fun loop_vars :: "lexpr \<Rightarrow> string set" where
  "loop_vars (Field f) = {}"
| "loop_vars (Deref e) = loop_vars e"
| "loop_vars (Index e i) = insert i (loop_vars e)"

definition fresh_from :: "nat \<Rightarrow> lexpr \<Rightarrow> bool" where
  "fresh_from k e \<longleftrightarrow> loop_vars e \<subseteq> (\<lambda>j. CHR ''i'' # format_nat j) ` {..<k}"

lemma lpath_other: "i \<notin> loop_vars e \<Longrightarrow> lpath (iv(i := k)) e = lpath iv e"
  by (induction e) auto

lemma fresh_from_next:
  "fresh_from k e \<Longrightarrow> CHR ''i'' # format_nat k \<notin> loop_vars e"
  "fresh_from k e \<Longrightarrow> fresh_from (Suc k) (Index e (CHR ''i'' # format_nat k))"
  "fresh_from k (Deref e) \<longleftrightarrow> fresh_from k e" "fresh_from k (Field f)"
  by (auto simp: fresh_from_def lessThan_Suc dest: format_nat_inj)

text \<open>What one call of \<open>reset\<close> does to the generator: imports are only appended and indices go up.\<close>

definition extends :: "generator \<Rightarrow> generator \<Rightarrow> bool" where
  "extends g g' \<longleftrightarrow> g_pkg g' = g_pkg g \<and> g_index g \<le> g_index g' \<and> g_methods g' = g_methods g
     \<and> imports_ok (g_pkg g) (g_imports g') \<and> prefix (g_imports g) (g_imports g')"

lemma extends_trans: "extends g g1 \<Longrightarrow> extends g1 g2 \<Longrightarrow> extends g g2"
  by (auto simp: extends_def dest: prefix_order.trans)

lemma typeName_ok:
  assumes "imports_ok (g_pkg g) (g_imports g)" "typeName t g = (name, g1)"
  shows "extends g g1" "imports_ok (g_pkg g) im \<Longrightarrow> prefix (g_imports g1) im \<Longrightarrow> unqualify (g_pkg g) im name = t"
proof -
  from assms(2) obtain im1 where "TypeString (g_pkg g) t (g_imports g) = (name, im1)" "g1 = g\<lparr>g_imports := im1\<rparr>"
    by (auto simp: typeName_def split: prod.splits)
  with TypeString_ok [OF assms(1)] show "extends g g1"
    "imports_ok (g_pkg g) im \<Longrightarrow> prefix (g_imports g1) im \<Longrightarrow> unqualify (g_pkg g) im name = t"
    by (auto simp: settled_def extends_def)
qed

lemma loop_put:
  assumes "get p root = Some (VArray vs)"
    and "\<And>k root' us. k < length vs \<Longrightarrow> get p root' = Some (VArray us) \<Longrightarrow> length us = length vs \<Longrightarrow> us ! k = vs ! k \<Longrightarrow>
           body k root' = put (p @ [PIdx k]) (h (vs ! k)) root'"
  shows "m \<le> length vs \<Longrightarrow> loop body [0..<m] root = put p (VArray (map h (take m vs) @ drop m vs)) root"
proof (induction m)
  case 0
  show ?case using put_same [OF assms(1)] by simp
next
  case (Suc m)
  let ?us = "map h (take m vs) @ drop m vs"
  have m: "m < length vs" using Suc.prems by simp
  obtain r where r: "put p (VArray ?us) root = Some r" "get p r = Some (VArray ?us)"
    using put_get [OF assms(1)] by blast
  have split: "loop body (ks @ [k]) v = Option.bind (loop body ks v) (body k)" for ks k v
    by (induction ks arbitrary: v) (auto split: bind_splits)
  have "?us ! m = vs ! m" using m by (simp add: nth_append)
  then have "body m r = put (p @ [PIdx m]) (h (vs ! m)) r" using assms(2) [OF m r(2)] m by simp
  also have "\<dots> = upd p (upd [PIdx m] (\<lambda>_. Some (h (vs ! m)))) r" by (rule upd_append)
  also have "\<dots> = put p (VArray (?us[m := h (vs ! m)])) r" by (rule upd_cong_get [OF r(2)]) (use m in simp)
  also have "?us[m := h (vs ! m)] = map h (take (Suc m) vs) @ drop (Suc m) vs"
    using m by (simp add: list_update_append take_Suc_conv_app_nth Cons_nth_drop_Suc [symmetric] del: Cons_nth_drop_Suc)
  also have "put p (VArray (map h (take (Suc m) vs) @ drop (Suc m) vs)) r = put p (VArray (map h (take (Suc m) vs) @ drop (Suc m) vs)) root"
    by (rule put_put [OF r(1)])
  finally show ?case using Suc m r(1) by (simp add: split)
qed

lemma loop_array:
  assumes "get p root = Some (VArray vs)"
    and "\<And>k root' us. k < length vs \<Longrightarrow> get p root' = Some (VArray us) \<Longrightarrow> length us = length vs \<Longrightarrow> us ! k = vs ! k \<Longrightarrow>
           body k root' = put (p @ [PIdx k]) (h (vs ! k)) root'"
  shows "loop body [0..<length vs] root = put p (VArray (map h vs)) root"
  using loop_put [OF assms(1), where h = h and body = body, OF assms(2) order.refl] by simp

lemma exec_list_Nil [simp]: "exec_list P names iv [] = Some"
  by (rule ext) simp

lemma exec_struct:
  "exec P names iv (Operation ''struct'' e v ty i cs) root =
     upd (lpath iv e) (\<lambda>w. Some (case methods P (names (the ty)) of Some m \<Rightarrow> m w | None \<Rightarrow> zeros P (names (the ty)))) root"
  by simp

lemma reset_exec:
  assumes "settles td t" "reset td e t g = Some (op, g')" "imports_ok (g_pkg g) (g_imports g)" "fresh_from (g_index g) e"
  shows "extends g g'
    \<and> (\<forall>im iv root v. imports_ok (g_pkg g) im \<longrightarrow> prefix (g_imports g') im \<longrightarrow>
          get (lpath iv e) root = Some v \<longrightarrow> has_type td t v \<longrightarrow>
          exec P (unqualify (g_pkg g) im) iv op root = put (lpath iv e) (cleared td P t v) root)"
  using assms
proof (induction arbitrary: e g op g' rule: settles.induct)
  case (pointer t elem)
  from pointer.prems(1) obtain child where c: "reset td (Deref e) elem g = Some (child, g')"
    "op = Operation ''pointer'' e [] None [] [child]"
    by (subst (asm) reset.simps) (auto simp: pointer.hyps(1) bind_eq_Some_conv)
  have "fresh_from (g_index g) (Deref e)" using pointer.prems(3) by (simp add: fresh_from_next)
  note IH = pointer.IH [OF c(1) pointer.prems(2) this]
  have el: "elem_type td t = elem" by (simp add: elem_type_def pointer.hyps(1))
  have "exec P (unqualify (g_pkg g) im) iv op root = put (lpath iv e) (cleared td P t v) root"
    if p: "imports_ok (g_pkg g) im" "prefix (g_imports g') im" "get (lpath iv e) root = Some v" "has_type td t v"
    for im iv root v
  proof -
    from p(4) obtain q where q: "v = VPtr q" by (cases v) (auto simp: pointer.hyps(1) split: basic.splits)
    show ?thesis
    proof (cases q)
      case None
      with p(3) put_same [OF p(3)] show ?thesis by (simp add: c(2) q)
    next
      case (Some w)
      with p(3,4) have w: "get (lpath iv (Deref e)) root = Some w" "has_type td elem w"
        by (simp_all add: q get_append pointer.hyps(1))
      have "exec P (unqualify (g_pkg g) im) iv op root = put (lpath iv (Deref e)) (cleared td P elem w) root"
        using IH p(1,2) w p(3) by (simp add: c(2) q Some)
      also have "\<dots> = put (lpath iv e) (cleared td P t v) root"
        by (simp add: upd_append) (rule upd_cong_get [OF p(3)], simp add: q Some el)
      finally show ?thesis .
    qed
  qed
  with IH show ?case by simp
next
  case (array t n elem)
  let ?i = "CHR ''i'' # format_nat (g_index g)"
  let ?g = "g\<lparr>g_index := g_index g + 1\<rparr>"
  from array.prems(1) obtain child where c: "reset td (Index e ?i) elem ?g = Some (child, g')"
    "op = Operation ''array'' e [] None ?i [child]"
    by (subst (asm) reset.simps) (auto simp: array.hyps(1) bind_eq_Some_conv Let_def)
  have f: "fresh_from (g_index ?g) (Index e ?i)" "?i \<notin> loop_vars e"
    using fresh_from_next(1,2) [OF array.prems(3)] by simp_all
  have "imports_ok (g_pkg ?g) (g_imports ?g)" using array.prems(2) by simp
  note IH = array.IH [OF c(1) this f(1)]
  have el: "elem_type td t = elem" by (simp add: elem_type_def array.hyps(1))
  have "exec P (unqualify (g_pkg g) im) iv op root = put (lpath iv e) (cleared td P t v) root"
    if p: "imports_ok (g_pkg g) im" "prefix (g_imports g') im" "get (lpath iv e) root = Some v" "has_type td t v"
    for im iv root v
  proof -
    from p(4) obtain vs where vs: "v = VArray vs" "list_all (has_type td elem) vs"
      by (cases v) (auto simp: array.hyps(1) split: basic.splits)
    have body: "exec_list P (unqualify (g_pkg g) im) (iv(?i := k)) [child] root'
        = put (lpath iv e @ [PIdx k]) (cleared td P elem (vs ! k)) root'"
      if k: "k < length vs" "get (lpath iv e) root' = Some (VArray us)" "length us = length vs" "us ! k = vs ! k" for k root' us
    proof -
      have "get (lpath iv e @ [PIdx k]) root' = Some (vs ! k)" using k by (simp add: get_append)
      moreover have "has_type td elem (vs ! k)" using vs(2) k(1) by (simp add: list_all_length)
      ultimately have "exec P (unqualify (g_pkg g) im) (iv(?i := k)) child root'
          = put (lpath iv e @ [PIdx k]) (cleared td P elem (vs ! k)) root'"
        using IH [THEN conjunct2, rule_format, of im "iv(?i := k)" root' "vs ! k"] p(1,2) lpath_other [OF f(2), of iv k] by simp
      then show ?thesis by simp
    qed
    have "loop (\<lambda>k. exec_list P (unqualify (g_pkg g) im) (iv(?i := k)) [child]) [0..<length vs] root
        = put (lpath iv e) (VArray (map (cleared td P elem) vs)) root"
      by (rule loop_array [OF p(3) [unfolded vs(1)] body])
    then show ?thesis by (simp add: c(2) vs(1) el p(3) [unfolded vs(1)])
  qed
  moreover have "extends g g'" using IH by (auto simp: extends_def)
  ultimately show ?case by simp
next
  case (other t)
  have b: "has_type td t v \<Longrightarrow> Underlying td t = TBasic b name \<Longrightarrow> literal (basic_value b) = Some (cleared td P t v)" for v b name
    by (cases v; cases b) (auto simp: basic_value_def literal_def)
  show ?case
  proof (cases "Underlying td t")
    case (TBasic b name)
    with other.prems(1) have op: "op = Operation ''basic'' e (basic_value b) None [] []" "g' = g"
      by (subst (asm) reset.simps, simp)+
    from b [OF _ TBasic] other.prems(2) show ?thesis by (auto simp: op extends_def)
  next
    case (TSlice u)
    with other.prems(1) have op: "op = Operation ''slice'' e [] None [] []" "g' = g" by (subst (asm) reset.simps, simp)+
    have "has_type td t v \<Longrightarrow> reslice v = Some (cleared td P t v)" for v
      by (cases v) (auto simp: TSlice split: basic.splits)
    then show ?thesis using other.prems(2) by (auto simp: op extends_def intro: upd_cong_get)
  next
    case (TMap k u)
    with other.prems(1) have op: "op = Operation ''map'' e [] None [] []" "g' = g" by (subst (asm) reset.simps, simp)+
    have "has_type td t v \<Longrightarrow> clear_map v = Some (cleared td P t v)" for v
      by (cases v) (auto simp: TMap split: basic.splits)
    then show ?thesis using other.prems(2) by (auto simp: op extends_def intro: upd_cong_get)
  next
    case (TStruct fs)
    obtain name g1 where n: "typeName t g = (name, g1)" by fastforce
    with TStruct other.prems(1) have op: "op = Operation ''struct'' e [] (Some name) [] []" "g' = g1"
      by (subst (asm) reset.simps, simp)+
    have st: "has_type td t v \<Longrightarrow> (case methods P t of Some m \<Rightarrow> m v | None \<Rightarrow> zeros P t) = cleared td P t v" for v
      by (cases v) (auto simp: TStruct split: basic.splits)
    have cl: "upd p (\<lambda>w. Some (case methods P t of Some m \<Rightarrow> m w | None \<Rightarrow> zeros P t)) root = put p (cleared td P t v) root"
      if "get p root = Some v" "has_type td t v" for p root v
      by (rule upd_cong_get [OF that(1)]) (simp add: st [OF that(2)])
    note ok = typeName_ok [OF other.prems(2) n]
    show ?thesis
    proof (intro conjI allI impI)
      show "extends g g'" using ok(1) op(2) by simp
      fix im iv root v
      assume p: "imports_ok (g_pkg g) im" "prefix (g_imports g') im" "get (lpath iv e) root = Some v" "has_type td t v"
      have "unqualify (g_pkg g) im (the (Some name)) = t" using ok(2) [OF p(1)] p(2) op(2) by simp
      then have "exec P (unqualify (g_pkg g) im) iv op root
        = upd (lpath iv e) (\<lambda>w. Some (case methods P t of Some m \<Rightarrow> m w | None \<Rightarrow> zeros P t)) root"
        by (simp only: op(1) exec_struct)
      then show "exec P (unqualify (g_pkg g) im) iv op root = put (lpath iv e) (cleared td P t v) root"
        by (simp only: cl [OF p(3,4)])
    qed
  next
    case (TOther s ts)
    obtain name g1 where n: "typeName t g = (name, g1)" by fastforce
    with TOther other.prems(1) have op: "op = Operation ''zero'' e [] (Some name) [] []" "g' = g1"
      by (subst (asm) reset.simps, simp)+
    have "has_type td t v \<Longrightarrow> zeros P t = cleared td P t v" for v
      by (cases v) (auto simp: TOther split: basic.splits)
    then show ?thesis using typeName_ok [OF other.prems(2) n] by (auto simp: op)
  next
    case (TNamed pkg nm args)
    obtain name g1 where n: "typeName t g = (name, g1)" by fastforce
    with TNamed other.prems(1) have op: "g' = g1" by (subst (asm) reset.simps, simp)
    have "\<not> has_type td t v" for v by (cases v) (auto simp: TNamed)
    then show ?thesis using typeName_ok [OF other.prems(2) n] by (auto simp: op)
  qed (use other.hyps in auto)
qed

section \<open>The generated method\<close>

text \<open>Fields named \<open>_\<close> cannot be selected and are left alone.\<close>

definition fields_typed :: "tenv \<Rightarrow> (string \<times> gotype) list \<Rightarrow> (string \<times> val) list \<Rightarrow> bool" where
  "fields_typed td = list_all2 (\<lambda>(n, t) (n', v). n' = n \<and> (n \<noteq> ''_'' \<longrightarrow> has_type td t v))"

definition cleared_fields :: "tenv \<Rightarrow> program \<Rightarrow> (string \<times> gotype) list \<Rightarrow> (string \<times> val) list \<Rightarrow> (string \<times> val) list" where
  "cleared_fields td P = map2 (\<lambda>(n, t) (n', v). (n', if n = ''_'' then v else cleared td P t v))"

definition selectable :: "(string \<times> gotype) list \<Rightarrow> string list" where
  "selectable fs = filter (\<lambda>n. n \<noteq> ''_'') (map fst fs)"

lemma update_append: "k \<notin> fst ` set xs \<Longrightarrow> AList.update k v (xs @ ys) = xs @ AList.update k v ys"
  by (induction xs) auto

lemma map_of_append_new: "k \<notin> fst ` set xs \<Longrightarrow> map_of (xs @ ys) k = map_of ys k"
  by (induction xs) auto

lemma reset_fields_exec:
  assumes "reset_fields td fs g = Some (ops, g')" "imports_ok (g_pkg g) (g_imports g)" "distinct (selectable fs)"
  shows "extends g g'
    \<and> (\<forall>im iv vs front. imports_ok (g_pkg g) im \<longrightarrow> prefix (g_imports g') im \<longrightarrow> fields_typed td fs vs \<longrightarrow>
         set (selectable fs) \<inter> fst ` set front = {} \<longrightarrow>
         exec_list P (unqualify (g_pkg g) im) iv ops (VStruct (front @ vs)) = Some (VStruct (front @ cleared_fields td P fs vs)))"
  using assms
proof (induction fs arbitrary: g ops)
  case Nil
  then show ?case by (auto simp: extends_def fields_typed_def cleared_fields_def)
next
  case (Cons p fs)
  obtain n t where p: "p = (n, t)" by fastforce
  show ?case
  proof (cases "n = ''_''")
    case True
    with Cons.prems p have "reset_fields td fs g = Some (ops, g')" "distinct (selectable fs)" by (simp_all add: selectable_def)
    note IH = Cons.IH [OF this(1) Cons.prems(2) this(2)]
    have "exec_list P (unqualify (g_pkg g) im) iv ops (VStruct (front @ vs)) = Some (VStruct (front @ cleared_fields td P (p # fs) vs))"
      if q: "imports_ok (g_pkg g) im" "prefix (g_imports g') im" "fields_typed td (p # fs) vs"
        "set (selectable (p # fs)) \<inter> fst ` set front = {}" for im iv vs front
    proof -
      from q(3) obtain v vs' where vs: "vs = (n, v) # vs'" "fields_typed td fs vs'"
        by (auto simp: fields_typed_def list_all2_Cons1 p)
      have "set (selectable fs) \<inter> fst ` set (front @ [(n, v)]) = {}" using q(4) True by (auto simp: selectable_def p)
      with IH q(1,2) vs(2) have "exec_list P (unqualify (g_pkg g) im) iv ops (VStruct ((front @ [(n, v)]) @ vs'))
          = Some (VStruct ((front @ [(n, v)]) @ cleared_fields td P fs vs'))" by blast
      then show ?thesis by (simp add: vs(1) cleared_fields_def p True)
    qed
    with IH show ?thesis by simp
  next
    case False
    with Cons.prems(1) p obtain op g1 ops1 where r: "reset td (Field n) t g = Some (op, g1)"
      "reset_fields td fs g1 = Some (ops1, g')" "ops = op # ops1"
      by (auto simp: bind_eq_Some_conv)
    note E = reset_exec [OF reset_settles [OF r(1)] r(1) Cons.prems(2) fresh_from_next(4), of P]
    have g1: "g_pkg g1 = g_pkg g" "imports_ok (g_pkg g1) (g_imports g1)" using E by (auto simp: extends_def)
    have d: "distinct (selectable fs)" "n \<notin> set (selectable fs)" using Cons.prems(3) False by (auto simp: selectable_def p)
    note IH = Cons.IH [OF r(2) g1(2) d(1)]
    have "exec_list P (unqualify (g_pkg g) im) iv ops (VStruct (front @ vs)) = Some (VStruct (front @ cleared_fields td P (p # fs) vs))"
      if q: "imports_ok (g_pkg g) im" "prefix (g_imports g') im" "fields_typed td (p # fs) vs"
        "set (selectable (p # fs)) \<inter> fst ` set front = {}" for im iv vs front
    proof -
      from q(3) obtain v vs' where vs: "vs = (n, v) # vs'" "has_type td t v" "fields_typed td fs vs'"
        using False by (auto simp: fields_typed_def list_all2_Cons1 p)
      have nf: "n \<notin> fst ` set front" using q(4) False by (auto simp: selectable_def p)
      let ?v = "cleared td P t v"
      have im1: "prefix (g_imports g1) im" using IH q(2) by (auto simp: extends_def dest: prefix_order.trans)
      have "get [PField n] (VStruct (front @ vs)) = Some v" by (simp add: map_of_append_new [OF nf] vs(1) del: map_of_append)
      with E q(1) im1 vs(2) have "exec P (unqualify (g_pkg g) im) iv op (VStruct (front @ vs)) = put [PField n] ?v (VStruct (front @ vs))"
        by simp
      also have "\<dots> = Some (VStruct ((front @ [(n, ?v)]) @ vs'))"
        by (simp add: map_of_append_new [OF nf] update_append [OF nf] vs(1) del: map_of_append)
      finally have op: "exec P (unqualify (g_pkg g) im) iv op (VStruct (front @ vs)) = \<dots>" .
      have "set (selectable fs) \<inter> fst ` set (front @ [(n, ?v)]) = {}" using q(4) d(2) by (auto simp: selectable_def p split: if_splits)
      with IH q(1,2) vs(3) g1(1) have "exec_list P (unqualify (g_pkg g) im) iv ops1 (VStruct ((front @ [(n, ?v)]) @ vs'))
          = Some (VStruct ((front @ [(n, ?v)]) @ cleared_fields td P fs vs'))" by metis
      then show ?thesis by (simp add: r(3) op [unfolded vs(1)] False p vs(1) cleared_fields_def)
    qed
    with E IH show ?thesis using extends_trans by auto
  qed
qed


text \<open>A struct with a nested array and a pointer to \<open>time.Time\<close>, and one with a field of type \<open>T\<close> where \<open>type T *T\<close>.\<close>

definition demo_types :: tenv where
  "demo_types t = (if t = TNamed ''main'' ''T'' [] then TPointer t else TStruct [])"

definition demo_fields :: "(string \<times> gotype) list" where
  "demo_fields = [(''A'', TArray 2 (TArray 2 (TBasic Numeric ''int''))), (''At'', TPointer (TNamed ''time'' ''Time'' []))]"

definition new_generator :: "string \<Rightarrow> generator" where
  "new_generator pkg = \<lparr>g_pkg = pkg, g_methods = [], g_imports = [], g_index = 0\<rparr>"


end
