(* ===== verification/Reset_Files.thy ===== *)
theory Reset_Files
  imports Reset_Code Models "HOL-Library.List_Lexorder" "HOL-Library.Char_ord"
begin

text \<open>
  \<open>cmd/reset/main.go\<close>: from the loaded packages to the files \<open>reset.gen.go\<close>. \<open>packages.Load\<close> and \<open>go/format\<close> are
  parameters; the template is written out. \<open>moduleRoot\<close> searches upwards for the nearest \<open>go.mod\<close>.
\<close>

section \<open>The template\<close>

definition nl :: string where
  "nl = [char_of (10 :: nat)]"

definition quoted :: "string \<Rightarrow> string" where
  "quoted s = [char_of (34 :: nat)] @ s @ [char_of (34 :: nat)]"

text \<open>\<open>fmt_type\<close> writes what \<open>types.TypeString\<close> wrote: the text of a type with its aliases.\<close>

record formatter =
  fmt_type :: "gotype \<Rightarrow> string"
  fmt_Source :: "string \<Rightarrow> goerror + string"

definition zero_text :: "formatter \<Rightarrow> gotype option \<Rightarrow> string \<Rightarrow> string" where
  "zero_text lib ty e =
     ''{ var zero '' @ (case ty of None \<Rightarrow> [] | Some t \<Rightarrow> fmt_type lib t) @ ''; '' @ e @ '' = zero }''"

fun operation_text :: "formatter \<Rightarrow> resetOperation \<Rightarrow> string"
  and operations_text :: "formatter \<Rightarrow> resetOperation list \<Rightarrow> string"
where
  "operation_text lib (Operation kind e v ty i children) =
     (let x = expr_text e in
      if kind = ''basic'' then x @ '' = '' @ v @ nl
      else if kind = ''pointer'' then ''if '' @ x @ '' != nil {'' @ nl @ '' '' @ operations_text lib children @ ''}'' @ nl
      else if kind = ''slice'' then x @ '' = '' @ x @ ''[:0]'' @ nl
      else if kind = ''map'' then ''clear('' @ x @ '')'' @ nl
      else if kind = ''struct'' then
        ''if resetter, ok := any(&'' @ x @ '').(interface{ Reset() }); ok {'' @ nl @ '' resetter.Reset()'' @ nl
        @ ''} else {'' @ nl @ '' '' @ zero_text lib ty x @ nl @ ''}'' @ nl
      else if kind = ''array'' then ''for '' @ i @ '' := range '' @ x @ '' {'' @ nl @ '' '' @ operations_text lib children @ ''}'' @ nl
      else zero_text lib ty x @ nl)"
| "operations_text lib [] = []"
| "operations_text lib (op # ops) = operation_text lib op @ operations_text lib ops"

definition method_text :: "formatter \<Rightarrow> resetMethod \<Rightarrow> string" where
  "method_text lib m =
     nl @ ''// Reset clears '' @ rm_Name m @ '' while retaining slice, map and pointer allocations.'' @ nl
     @ ''func (rs *'' @ rm_Receiver m @ '') Reset() {'' @ nl @ '' if rs == nil {'' @ nl @ ''  return'' @ nl @ '' }'' @ nl
     @ '' '' @ operations_text lib (rm_Operations m) @ ''}'' @ nl"

definition generatedHeader :: string where
  "generatedHeader = ''// Code generated by cmd/reset; DO NOT EDIT.'' @ nl"

text \<open>\<open>source\<close>: the imports are sorted by path.\<close>

definition source :: "formatter \<Rightarrow> string \<Rightarrow> generator \<Rightarrow> goerror + string" where
  "source lib name g =
     (let paths = sort (map fst (g_imports g));
          imports = map (\<lambda>path. (the (map_of (g_imports g) path), path)) paths
      in fmt_Source lib
           (generatedHeader @ nl @ ''package '' @ name @ nl
            @ concat (map (\<lambda>(al, path). nl @ ''import '' @ al @ '' '' @ quoted path @ nl) imports) @ nl
            @ concat (map (method_text lib) (g_methods g)) @ nl @ nl @ nl))"

section \<open>Packages\<close>

text \<open>
  A type declaration of a group: its comment, whether it is a defined struct, the methods of the type with the
  base names of the files they stand in, its type parameters and fields. Other declarations are \<open>OtherDecl\<close>.
\<close>

record type_spec =
  ts_Name :: string
  ts_Doc :: "string list option"
  ts_struct :: bool
  ts_methods :: "(string \<times> string) list"
  ts_params :: "string list"
  ts_fields :: "(string \<times> gotype) list"

datatype decl = TypeGroup "string list option" "type_spec list" | OtherDecl

record package =
  pkg_Name :: string
  pkg_Path :: string
  pkg_Dir :: string
  pkg_Syntax :: "decl list list"
  pkg_Types :: tenv

fun marked_list :: "string list \<Rightarrow> bool" where
  "marked_list [] = False"
| "marked_list (c # cs) = (if TrimSpace (TrimPrefix c ''//'') = ''generate:reset'' then True else marked_list cs)"

definition marked :: "string list option \<Rightarrow> bool" where
  "marked comment_group = (case comment_group of None \<Rightarrow> False | Some comments \<Rightarrow> marked_list comments)"

definition own_reset :: "type_spec \<Rightarrow> bool" where
  "own_reset ts = list_ex (\<lambda>(name, base). name = ''Reset'' \<and> base \<noteq> ''reset.gen.go'') (ts_methods ts)"

text \<open>A computation that ends with an error or a value; \<^const>\<open>None\<close> when it does not end.\<close>

type_synonym 'a result = "(goerror + 'a) option"

fun each :: "('x \<Rightarrow> 'a \<Rightarrow> 'a result) \<Rightarrow> 'x list \<Rightarrow> 'a \<Rightarrow> 'a result" where
  "each f [] a = Some (Inr a)"
| "each f (x # xs) a =
     (case f x a of
        None \<Rightarrow> None
      | Some (Inl e) \<Rightarrow> Some (Inl e)
      | Some (Inr a') \<Rightarrow> each f xs a')"

definition generate_spec :: "tenv \<Rightarrow> string list option \<Rightarrow> bool \<Rightarrow> type_spec \<Rightarrow> generator \<Rightarrow> generator result" where
  "generate_spec td groupDoc single ts g =
     (if \<not> marked (ts_Doc ts) \<and> \<not> (single \<and> marked groupDoc) then Some (Inr g)
      else if \<not> ts_struct ts then Some (Inl (ErrorString ''generate:reset requires a defined struct''))
      else if own_reset ts then Some (Inl (ErrorString (ts_Name ts @ '' already has a Reset method'')))
      else map_option Inr (gen_method td (ts_Name ts) (ts_params ts) (ts_fields ts) g))"

definition generate_decl :: "tenv \<Rightarrow> decl \<Rightarrow> generator \<Rightarrow> generator result" where
  "generate_decl td d g =
     (case d of
        OtherDecl \<Rightarrow> Some (Inr g)
      | TypeGroup doc specs \<Rightarrow> each (generate_spec td doc (length specs = 1)) specs g)"

definition generate_package :: "package \<Rightarrow> generator result" where
  "generate_package pkg =
     each (\<lambda>decls. each (generate_decl (pkg_Types pkg)) decls) (pkg_Syntax pkg) (new_generator (pkg_Path pkg))"

section \<open>Files\<close>

text \<open>A file can fail to be read for other reasons than that it does not exist; a write can fail and leave anything.\<close>

record file_io =
  fio_read :: "string \<Rightarrow> gerr"
  fio_write :: "string \<Rightarrow> (goerror \<times> string option) option"

definition output_path :: "package \<Rightarrow> string" where
  "output_path pkg = pkg_Dir pkg @ ''/reset.gen.go''"

definition may_write :: "file_io \<Rightarrow> (string \<rightharpoonup> string) \<Rightarrow> string \<Rightarrow> gerr" where
  "may_write io fs path =
     (case fio_read io path of
        Some e \<Rightarrow> Some (WrapError ''read'' [e])
      | None \<Rightarrow>
        (case fs path of
           None \<Rightarrow> None
         | Some data \<Rightarrow> if \<not> HasPrefix data generatedHeader
                        then Some (ErrorString (''refusing to overwrite non-generated file '' @ path)) else None))"

definition prepare_package ::
  "formatter \<Rightarrow> file_io \<Rightarrow> (string \<rightharpoonup> string) \<Rightarrow> package \<Rightarrow> (string \<rightharpoonup> string) \<Rightarrow> (string \<rightharpoonup> string) result" where
  "prepare_package lib io fs pkg outputs =
     (case generate_package pkg of
        None \<Rightarrow> None
      | Some (Inl e) \<Rightarrow> Some (Inl e)
      | Some (Inr g) \<Rightarrow>
          if g_methods g = [] then Some (Inr outputs)
          else (case may_write io fs (output_path pkg) of
                  Some e \<Rightarrow> Some (Inl e)
                | None \<Rightarrow>
                  (case source lib (pkg_Name pkg) g of
                     Inl e \<Rightarrow> Some (Inl (WrapError ''format'' [e]))
                   | Inr data \<Rightarrow> Some (Inr (outputs(output_path pkg \<mapsto> data))))))"

fun write_outputs :: "file_io \<Rightarrow> (string \<rightharpoonup> string) \<Rightarrow> string list \<Rightarrow> (string \<rightharpoonup> string) \<Rightarrow> gerr \<times> (string \<rightharpoonup> string)" where
  "write_outputs io outputs [] fs = (None, fs)"
| "write_outputs io outputs (path # paths) fs =
     (case fio_write io path of
        Some (e, left) \<Rightarrow> (Some (WrapError ''write'' [e]), fs(path := left))
      | None \<Rightarrow> write_outputs io outputs paths (fs(path := outputs path)))"

text \<open>\<open>generate\<close>; \<open>load\<close> is the result of loading the packages and \<open>order\<close> that in which the map \<open>outputs\<close> is visited.\<close>

definition generate ::
  "formatter \<Rightarrow> file_io \<Rightarrow> ((string \<rightharpoonup> string) \<Rightarrow> string list) \<Rightarrow> goerror + package list \<Rightarrow> (string \<rightharpoonup> string)
     \<Rightarrow> (gerr \<times> (string \<rightharpoonup> string)) option" where
  "generate lib io order load fs =
     (case load of
        Inl e \<Rightarrow> Some (Some e, fs)
      | Inr pkgs \<Rightarrow>
        (case each (prepare_package lib io fs) pkgs Map.empty of
           None \<Rightarrow> None
         | Some (Inl e) \<Rightarrow> Some (Some e, fs)
         | Some (Inr outputs) \<Rightarrow> Some (write_outputs io outputs (order outputs) fs)))"

section \<open>The module root and main\<close>

text \<open>\<open>filepath.Dir\<close> and \<open>filepath.Join(dir, "go.mod")\<close> on clean paths, as \<open>os.Getwd\<close> returns them.\<close>

definition path_Dir :: "string \<Rightarrow> string" where
  "path_Dir s =
     (case dropWhile (\<lambda>c. c \<noteq> CHR ''/'') (rev s) of
        [] \<Rightarrow> ''.''
      | _ # before \<Rightarrow> if before = [] then ''/'' else rev before)"

definition go_mod :: "string \<Rightarrow> string" where
  "go_mod dir = (if dir = ''/'' then ''/go.mod'' else dir @ ''/go.mod'')"

definition depth_of :: "string \<Rightarrow> nat" where
  "depth_of s = (if CHR ''/'' \<in> set s then length s + 2 else if s = ''.'' then 0 else 1)"

lemma path_Dir_shorter: "path_Dir s \<noteq> s \<Longrightarrow> depth_of (path_Dir s) < depth_of s"
proof (cases "dropWhile (\<lambda>c. c \<noteq> CHR ''/'') (rev s)")
  case Nil
  then have "CHR ''/'' \<notin> set s" by (auto simp: dropWhile_eq_Nil_conv)
  moreover have "path_Dir s = ''.''" unfolding path_Dir_def Nil by simp
  moreover assume "path_Dir s \<noteq> s"
  ultimately show ?thesis by (simp add: depth_of_def)
next
  case (Cons c before)
  have len: "Suc (length before) \<le> length s" using length_dropWhile_le [of "\<lambda>c. c \<noteq> CHR ''/''" "rev s"] Cons by simp
  have "c = CHR ''/''" using hd_dropWhile [of "\<lambda>c. c \<noteq> CHR ''/''" "rev s"] Cons by simp
  then have slash: "CHR ''/'' \<in> set s" using set_dropWhileD [of c "\<lambda>c. c \<noteq> CHR ''/''" "rev s"] Cons by auto
  assume ne: "path_Dir s \<noteq> s"
  show ?thesis
  proof (cases "before = []")
    case True
    then have d: "path_Dir s = ''/''" unfolding path_Dir_def Cons by simp
    have "length s \<noteq> 1"
    proof
      assume "length s = 1"
      then obtain x where "s = [x]" by (cases s) auto
      with slash d ne show False by simp
    qed
    with len d slash show ?thesis by (simp add: depth_of_def)
  next
    case False
    then have "path_Dir s = rev before" unfolding path_Dir_def Cons by simp
    then show ?thesis using len slash by (simp add: depth_of_def)
  qed
qed

text \<open>The loop of \<open>moduleRoot\<close>; \<open>stat\<close> is the error of \<open>os.Stat\<close>.\<close>

function find_root :: "(string \<Rightarrow> gerr) \<Rightarrow> string \<Rightarrow> goerror + string" where
  "find_root stat dir =
     (case stat (go_mod dir) of
        None \<Rightarrow> Inr dir
      | Some e \<Rightarrow>
        if \<not> errors_Is e ''file does not exist'' then Inl (WrapError ''find go.mod'' [e])
        else if path_Dir dir = dir then Inl (ErrorString ''go.mod not found'')
        else find_root stat (path_Dir dir))"
  by pat_completeness auto
termination find_root
  by (relation "measure (\<lambda>(stat, dir). depth_of dir)") (auto intro: path_Dir_shorter)

declare find_root.simps [simp del]

definition moduleRoot :: "goerror + string \<Rightarrow> (string \<Rightarrow> gerr) \<Rightarrow> goerror + string" where
  "moduleRoot wd stat =
     (case wd of Inl e \<Rightarrow> Inl (WrapError ''get working directory'' [e]) | Inr dir \<Rightarrow> find_root stat dir)"

text \<open>\<open>main\<close> ends with \<open>log.Fatal\<close> on the error; \<open>load\<close> is \<open>packages.Load\<close> in the root.\<close>

definition reset_main ::
  "formatter \<Rightarrow> file_io \<Rightarrow> ((string \<rightharpoonup> string) \<Rightarrow> string list) \<Rightarrow> goerror + string \<Rightarrow> (string \<Rightarrow> gerr)
     \<Rightarrow> (string \<Rightarrow> goerror + package list) \<Rightarrow> (string \<rightharpoonup> string) \<Rightarrow> (gerr \<times> (string \<rightharpoonup> string)) option" where
  "reset_main lib io order wd stat load fs =
     (case moduleRoot wd stat of
        Inl e \<Rightarrow> Some (Some e, fs)
      | Inr root \<Rightarrow> generate lib io order (load root) fs)"

text \<open>The root is the nearest directory upwards with a \<open>go.mod\<close>; the search always ends.\<close>

lemma find_root_nearest:
  assumes "find_root stat dir = Inr root"
  shows "\<exists>k. root = (path_Dir ^^ k) dir \<and> stat (go_mod root) = None
     \<and> (\<forall>i < k. \<exists>e. stat (go_mod ((path_Dir ^^ i) dir)) = Some e \<and> errors_Is e ''file does not exist'')"
  using assms
proof (induction stat dir rule: find_root.induct)
  case (1 stat dir)
  show ?case
  proof (cases "stat (go_mod dir)")
    case None
    with 1(2) show ?thesis by (intro exI [of _ 0]) (simp add: find_root.simps [of stat dir])
  next
    case (Some e)
    with 1(2) have e: "errors_Is e ''file does not exist''" "path_Dir dir \<noteq> dir" "find_root stat (path_Dir dir) = Inr root"
      by (auto simp: find_root.simps [of stat dir] split: if_splits)
    with 1(1) [OF Some] obtain k where k: "root = (path_Dir ^^ k) (path_Dir dir)" "stat (go_mod root) = None"
      "\<forall>i < k. \<exists>e. stat (go_mod ((path_Dir ^^ i) (path_Dir dir))) = Some e \<and> errors_Is e ''file does not exist''" by blast
    have "\<exists>e. stat (go_mod ((path_Dir ^^ i) dir)) = Some e \<and> errors_Is e ''file does not exist''" if "i < Suc k" for i
      using that k(3) Some e(1) by (cases i) (auto simp: funpow_swap1)
    with k(1,2) show ?thesis by (intro exI [of _ "Suc k"]) (simp add: funpow_swap1)
  qed
qed

section \<open>All or nothing\<close>

text \<open>What is prepared comes from a package with marked structs, and may be written.\<close>

definition prepared :: "formatter \<Rightarrow> file_io \<Rightarrow> (string \<rightharpoonup> string) \<Rightarrow> package list \<Rightarrow> (string \<rightharpoonup> string) \<Rightarrow> bool" where
  "prepared lib io fs pkgs outputs \<longleftrightarrow>
     finite (dom outputs) \<and>
     (\<forall>path data. outputs path = Some data \<longrightarrow> may_write io fs path = None \<and>
        (\<exists>pkg \<in> set pkgs. \<exists>g. path = output_path pkg \<and> generate_package pkg = Some (Inr g) \<and> g_methods g \<noteq> []
           \<and> source lib (pkg_Name pkg) g = Inr data))
   \<and> (\<forall>pkg \<in> set pkgs. \<exists>g. generate_package pkg = Some (Inr g) \<and> (g_methods g \<noteq> [] \<longrightarrow> outputs (output_path pkg) \<noteq> None))"

lemma each_snoc:
  "each f (xs @ [x]) a = (case each f xs a of None \<Rightarrow> None | Some (Inl e) \<Rightarrow> Some (Inl e) | Some (Inr a') \<Rightarrow> f x a')"
  by (induction xs arbitrary: a) (auto split: option.split sum.split)

lemma prepare_ok: "each (prepare_package lib io fs) pkgs Map.empty = Some (Inr outputs) \<Longrightarrow> prepared lib io fs pkgs outputs"
proof (induction pkgs arbitrary: outputs rule: rev_induct)
  case Nil
  then show ?case by (auto simp: prepared_def)
next
  case (snoc pkg pkgs)
  then obtain out g where o: "prepared lib io fs pkgs out" "generate_package pkg = Some (Inr g)"
    "prepare_package lib io fs pkg out = Some (Inr outputs)"
    by (auto simp: each_snoc prepare_package_def split: option.splits sum.splits)
  show ?case
  proof (cases "g_methods g = []")
    case True
    with o show ?thesis by (fastforce simp: prepared_def prepare_package_def)
  next
    case False
    with o(2,3) obtain data where d: "may_write io fs (output_path pkg) = None" "source lib (pkg_Name pkg) g = Inr data"
      "outputs = out(output_path pkg \<mapsto> data)"
      by (auto simp: prepare_package_def split: option.splits sum.splits)
    with o(1,2) False show ?thesis unfolding prepared_def by (auto split: if_splits) (metis+)?
  qed
qed

lemma write_outputs_frame: "write_outputs io outputs paths fs = (err, fs') \<Longrightarrow> fs' path \<noteq> fs path \<Longrightarrow> path \<in> set paths"
proof (induction paths arbitrary: fs)
  case (Cons p paths)
  then show ?case by (cases "path = p") (auto split: option.splits prod.splits)
qed simp

lemma write_outputs_all:
  "write_outputs io outputs paths fs = (None, fs') \<Longrightarrow> path \<in> set paths \<Longrightarrow> fs' path = outputs path"
proof (induction paths arbitrary: fs)
  case (Cons p paths)
  show ?case
  proof (cases "path \<in> set paths")
    case True
    with Cons show ?thesis by (auto split: option.splits prod.splits)
  next
    case False
    with Cons.prems have "path = p" "write_outputs io outputs paths (fs(p := outputs p)) = (None, fs')"
      by (auto split: option.splits prod.splits)
    with write_outputs_frame [OF this(2), of path] False show ?thesis by auto
  qed
qed simp


text \<open>The package \<open>model\<close> of this repository, whose generated file is \<open>internal/model/reset.gen.go\<close> (without the lines of the comment in between).\<close>

definition model_package :: package where
  "model_package =
     \<lparr>pkg_Name = ''models'', pkg_Path = ''model'', pkg_Dir = ''internal/model'',
      pkg_Syntax = [[OtherDecl, TypeGroup (Some [''// Metrics is the JSON representation used by the metrics API.'', ''//'', ''// generate:reset''])
        [\<lparr>ts_Name = ''Metrics'', ts_Doc = None, ts_struct = True, ts_methods = [(''Reset'', ''reset.gen.go'')], ts_params = [],
          ts_fields = [(''ID'', TBasic StringBasic ''string''), (''MType'', TBasic StringBasic ''string''),
            (''Delta'', TPointer (TBasic Numeric ''int64'')), (''Value'', TPointer (TBasic Numeric ''float64'')),
            (''Hash'', TBasic StringBasic ''string'')]\<rparr>]]],
      pkg_Types = (\<lambda>t. TStruct [])\<rparr>"

definition model_operations :: "resetOperation list" where
  "model_operations =
     (let empty = quoted []; basic = (\<lambda>e v. Operation ''basic'' e v None [] []) in
      [basic (Field ''ID'') empty, basic (Field ''MType'') empty,
       Operation ''pointer'' (Field ''Delta'') [] None [] [basic (Deref (Field ''Delta'')) ''0''],
       Operation ''pointer'' (Field ''Value'') [] None [] [basic (Deref (Field ''Value'')) ''0''],
       basic (Field ''Hash'') empty])"

lemma model_generated:
  "generate_package model_package =
     Some (Inr ((new_generator ''model'')\<lparr>g_methods := [\<lparr>rm_Name = ''Metrics'', rm_Receiver = ''Metrics'', rm_Operations = model_operations\<rparr>]\<rparr>))"
proof -
  have m: "marked (Some [''// Metrics is the JSON representation used by the metrics API.'', ''//'', ''// generate:reset''])" by code_simp
  have b: "reset td e (TBasic k name) g = Some (Operation ''basic'' e (basic_value k) None [] [], g)"
    "reset td e (TPointer (TBasic k name)) g
       = Some (Operation ''pointer'' e [] None [] [Operation ''basic'' (Deref e) (basic_value k) None [] []], g)" for td e k name g
    by (subst reset.simps, simp)+
  show ?thesis
    by (simp add: generate_package_def model_package_def generate_decl_def generate_spec_def m own_reset_def gen_method_def b
        model_operations_def Let_def basic_value_def quoted_def new_generator_def marked_def [of None])
qed

text \<open>So the \<open>Reset\<close> of the model's \<open>Metrics\<close> is what the generator produces for it.\<close>

definition val_of_Metrics :: "Metrics \<Rightarrow> val" where
  "val_of_Metrics m =
     VStruct [(''ID'', VString (ID m)), (''MType'', VString (MType m)), (''Delta'', VPtr (map_option (\<lambda>d. VNum (sint d)) (Delta m))),
       (''Value'', VPtr (map_option (\<lambda>v. VNum (uint v)) (Value m))), (''Hash'', VString (Hash m))]"

lemma generated_Reset:
  "exec_list P names iv model_operations (val_of_Metrics m) = map_option val_of_Metrics (Reset (Some m))"
  by (cases "Delta m"; cases "Value m")
    (simp_all add: model_operations_def Let_def val_of_Metrics_def Reset_def literal_def quoted_def)

definition demo_formatter :: formatter where
  "demo_formatter = \<lparr>fmt_type = (\<lambda>t. ''T''), fmt_Source = Inr\<rparr>"


end
