(* ===== verification/Spec2Isabelle.thy ===== *)
theory Spec2Isabelle
  imports Mem_Http Pg_Http Audit_Once Server_Main Agent_Main Linter Reset_Files
begin

text \<open>
  Verification of metrics-service (Go): an agent that collects runtime metrics and reports them in batches,
  and a server that stores them in memory with a file, or in PostgreSQL.

  How the parts interact. The agent's collectors fill a \<open>Store\<close> (\<open>internal/agent/store.go\<close>). Its report
  loop turns the store into batches with a random identifier (\<open>internal/delivery\<close>) and its workers send
  them over HTTP or gRPC with retries (\<open>internal/retry\<close>). The server's endpoints (\<open>internal/handler\<close>,
  \<open>internal/grpcapi\<close>) check a batch and pass it with its identifier as key to the service
  (\<open>internal/service\<close>), which asks the storage (\<open>internal/repository\<close>) to apply it once per key and then
  saves the storage to its file, at once or periodically.

  Theories, in dependency order.

  \<^item> \<open>Go_Prelude\<close>: int64 and float64 as 64-bit words, errors and their wrapping, maps and iteration orders.
  \<^item> \<open>Go_Strings\<close>: decimal integers, prefixes, separators, hexadecimal.
  \<^item> \<open>Retry\<close>: \<open>retry.Do\<close> and \<open>DoWithSleeper\<close>; the locales \<open>retried\<close> and \<open>retried_atomic\<close> say what a caller may
    conclude from what one attempt guarantees.
  \<^item> \<open>Models\<close>: \<open>model.Metrics\<close>, its generated \<open>Reset\<close>, and \<open>pool.Pool\<close> with the locale \<open>resettable\<close>.
  \<^item> \<open>Json_Text\<close>, \<open>Json_Document\<close>: the text of \<open>encoding/json\<close>: UTF-8, strings with their escapes, numbers, the
    compact form of documents, and the scanner as a machine with a stack.
  \<^item> \<open>Metrics_Json\<close>: the mapping between Go structs and JSON documents that the struct tags define.
  \<^item> \<open>Delivery\<close>: batches, keys, fingerprints.
  \<^item> \<open>Repository\<close>: the two storage contracts as locales, \<open>metrics_repository\<close> for plain updates and
    \<open>idempotent_repository\<close> for keyed batches, and the notion \<open>exactly_once\<close>.
  \<^item> \<open>Mem_Storage\<close>, \<open>Mem_File\<close>: \<open>repository.MemStorage\<close>, its updates and reads, \<open>SaveToFile\<close> and the restore.
  \<^item> \<open>Pg_Storage\<close>, \<open>Pg_Views\<close>: \<open>repository.PostgresStorage\<close> over two tables and a list of call outcomes; its
    agreement with, and its differences from, the in-memory storage.
  \<^item> \<open>Service\<close>: \<open>service.MetricsService\<close> over any record of repository methods.
  \<^item> \<open>Persistence\<close>: the background saver and \<open>Close\<close> as a step relation (locale \<open>saver\<close>).
  \<^item> \<open>Durability\<close>: keyed deliveries, failing saves, crashes and restarts of a synchronously saving server.
  \<^item> \<open>Agent_Store\<close>, \<open>Agent\<close>, \<open>Agent_Loop\<close>: the collectors with the conversion of integers to float64, one
    send and one report, and the concurrent loops as a step relation.
  \<^item> \<open>Crypto\<close>, \<open>Http\<close>: signatures, the encrypted body, and the part of \<open>net/http\<close> the program uses.
  \<^item> \<open>Audit_Log\<close>: audit events, notifier and observers.
  \<^item> \<open>Grpc_Api\<close>: client and server method of the gRPC transport.
  \<^item> \<open>Html_Page\<close>: the page of \<open>ListMetrics\<close>, its template with the escaping of \<open>html/template\<close>, and how it reads.
  \<^item> \<open>Handler\<close>, \<open>Handler_Store\<close>: the HTTP handlers, and the handlers over the in-memory storage.
  \<^item> \<open>Net_Ip\<close>, \<open>Middleware\<close>, \<open>Server_Stack\<close>: addresses and networks of package \<open>net\<close>, the middleware of
    \<open>internal/middleware\<close> with its response writers, and the stack of \<open>cmd/server/main.go\<close> built from them.
  \<^item> \<open>Grpc_Server\<close>: TLS settings, the trusted-subnet interceptor and the order of the server's interceptors.
  \<^item> \<open>Lifecycle\<close>: \<open>server.Run\<close> and \<open>RunWithGRPC\<close> with the service's \<open>Close\<close> as a step relation.
  \<^item> \<open>Key_Files\<close>, \<open>Server_Main\<close>, \<open>Agent_Main\<close>: \<open>internal/encryption/keys.go\<close> and how the two programs under \<open>cmd/\<close>
    are put together from their configuration; what a restarted server finds.
  \<^item> \<open>Linter\<close>: the analyzer of \<open>cmd/linter\<close> on syntax trees.
  \<^item> \<open>Reset_Gen\<close>, \<open>Reset_Code\<close>, \<open>Reset_Files\<close>: the generator of \<open>cmd/reset\<close>, the meaning of the code it
    generates, the search for \<open>go.mod\<close> and the files it writes.
  \<^item> \<open>Config\<close>: settings of both programs.
  \<^item> \<open>Agent_Server\<close>, \<open>Grpc_Link\<close>, \<open>Http_Link\<close>: the interface \<open>metrics_server\<close> between an agent and whatever
    receives its batches, and the two transports as providers of it over any \<open>keyed_service\<close>.
  \<^item> \<open>Mem_Server\<close>, \<open>Mem_Http\<close>, \<open>Pg_Server\<close>, \<open>Pg_Http\<close>: the service with in-memory storage and with
    PostgreSQL behind each transport; for PostgreSQL the types of names are an invariant.
  \<^item> \<open>Audit_Once\<close>: keyed calls over both transports and the audit file.

  State and operations. A struct is a record, a mutex-protected method is one function on it; a method of an
  interface is a field of a record of functions. Failures of the outside world are data: PostgreSQL calls
  and network calls consume a list of outcomes (done, lost before, lost after the effect), a save takes the
  result of each of its system calls, \<open>range\<close> over a map takes the order of the keys. All of these are
  arbitrary in the theorems, or restricted by a named hypothesis (\<open>range_order\<close>, \<open>fresh_temp\<close>, \<open>acked\<close>).
  Goroutines are step relations: \<open>pstep\<close> for the saver, \<open>node_run\<close> for a server with restarts, \<open>astep\<close> for
  the agent, \<open>lstep\<close> for the life of a server. Loops are structurally recursive or have a measure, so no fuel is
  needed; that \<open>Close\<close>, \<open>Run\<close> and \<open>RunWithGRPC\<close> can come to an end is proved by bounded or measured runs. The
  generator's \<open>reset\<close>, which need not end, is a partial function, and the types for which it ends are characterised.

  What the lemmas show. Exactly-once application of keyed batches by each storage, through crashes, and
  from the agent's counters to the server's, for both
  transports and both storages (below); an audit file that agrees with the storage; atomic and lossless files; conservation and bounds in
  the agent; a shutdown that loses nothing and a restart that finds it all; agreement of the two storages;
  complete descriptions of the endpoints, of the page and the audit log, of the middleware stack, of configuration precedence and of conversions;
  a linter that reports exactly what it says and generated code that does what it is for; and, where the program does something it does not mean to do, the exact
  behaviour (NaN or a name that is not UTF-8 from a URL, a nil database behind an interface, a lost reply of an unkeyed update or of a
  commit, a failed save that loses an audit event, one name used as gauge and counter, a generator that recurses without end).

  Not modelled: the decimal text of floats, SHA-256, HMAC, RSA, AES-GCM, gzip and
  \<open>time.ParseDuration\<close> are parameters whose documented behaviour is a hypothesis where it is used; so are PEM and
  X.509 parsing, chi's matching of routes, \<open>go/packages\<close> and \<open>go/format\<close>. Generated protocol code, the test
  certificates of \<open>internal/testutil\<close>, build information and the text of log lines are not modelled; migrations appear only as the
  tables they create and the error they may return. Fingerprints, timestamps and identifiers are
  taken as the library returns them; freshness of random identifiers is a hypothesis.
\<close>

text \<open>
  C1. End to end over gRPC. An agent runs its loops against a server with synchronous saving and an
  audit file; requests and replies may be lost, sends are retried and requeued, workers run
  concurrently. When \<open>Agent.Run\<close> has stopped its loops and, after the final report, returns nil, then
  nothing is left to send and every counter of the server has grown by exactly what the agent counted,
  modulo \<open>2\<^sup>6\<^sup>4\<close>; for \<open>PollCount\<close> that is the number of polls.
\<close>

theorem agent_to_server_exact:
  assumes "arun (grpc_attempt (Svc_UpdateMetricsOnce lib (synchronous_service lib path)) (Some (Notifier_Notify [mem_file_observer io apath])))
             (loop_start rate NewStore n0) l"
    and "quiescent l"
    and "\<forall>b \<in> set (lp_made l). batch_ID b \<notin> mem_received (nt_server n0)"
    and "ag_pending a = lp_pending l" and "ag_store a = lp_store l"
    and "rand_text_form i" and "i \<notin> batch_ID ` set (lp_made l)" and "i \<notin> mem_received (nt_server n0)"
    and "snapshot_orders (lp_store l) gks cks"
    and "Run_finish (grpc_send (Svc_UpdateMetricsOnce lib (synchronous_service lib path))
             (Some (Notifier_Notify [mem_file_observer io apath])) now ctx) i gks cks l a = (None, a', n')"
  shows "ag_pending a' = []
       \<and> mem_counter (nt_server n') c = mem_counter (nt_server n0) c + (if c = ''PollCount'' then of_nat (lp_polls l) else 0)"
proof -
  let ?once = "Svc_UpdateMetricsOnce lib (synchronous_service lib path)"
  let ?aud = "Some (Notifier_Notify [mem_file_observer io apath])"
  have "sync_link.server.implements lib path io apath (grpc_send ?once ?aud now ctx)"
    unfolding sync_link.server.implements_def by (simp add: grpc_attempt_send)
  moreover have "sync_link.server.fresh_ids n0 (lp_made l)"
    unfolding sync_link.server.fresh_ids_def using assms(3) by simp
  ultimately show ?thesis
    using sync_link.server.run_delivers_all [OF TrueI assms(1,2) _ _ assms(4-8) _ typed_metrics_True Run_finish_None(1) [OF assms(10)], of c] assms(9)
    by (simp add: NewStore_def polled_def)
qed

lemma agent_to_server_exact_witness:
  "\<exists>gks a a' n'. ag_pending a = [] \<and> ag_store a = demo_polled
     \<and> Run_finish (grpc_send demo_once demo_aud 0 None) demo_id gks [''PollCount''] demo_loop a = (None, a', n')
     \<and> mem_counter (nt_server n') ''PollCount'' = 1"
proof -
  obtain gks ms st where s: "snapshot_orders demo_polled gks [''PollCount'']"
    "SnapshotMetrics gks [''PollCount''] demo_polled = (ms, st)" "ms \<noteq> []"
    "list_all (\<lambda>m. proper m \<and> encodable m) ms" by (rule demo_snapshot)
  obtain n' where n: "grpc_send demo_once demo_aud 0 None (New_Batch demo_id ms) demo_net = (None, n')"
    using demo_send [OF s(3,4)] by blast
  let ?a = "\<lparr>ag_sender = None, ag_pending = [], ag_pollInterval = 1, ag_reportInterval = 1, ag_serverURL = ''http'',
    ag_client = (\<lambda>_ n. (Inr 200, n)), ag_store = demo_polled, ag_key = [], ag_publicKey = None, ag_rateLimit = 1,
    ag_retrySleep = (\<lambda>_ n. n)\<rparr> :: mem_world net Agent"
  have l: "lp_net demo_loop = demo_net" "lp_made demo_loop = []" "lp_pending demo_loop = []" "lp_store demo_loop = demo_polled"
    "lp_polls demo_loop = 1" "quiescent demo_loop" "lp_err demo_loop = None"
    by (simp_all add: demo_loop_def loop_after_poll_simps)
  obtain a' where r0: "ReportOnce (grpc_send demo_once demo_aud 0 None) demo_id gks [''PollCount''] ?a demo_net = (None, a', n')"
    using s(2,3) n by (simp add: ReportOnce_def takePending_def)
  then have r: "Run_finish (grpc_send demo_once demo_aud 0 None) demo_id gks [''PollCount''] demo_loop ?a = (None, a', n')"
    by (simp add: Run_finish_def l errors_Join_None_iff)
  have e: "mem_received (nt_server demo_net) = {}" "mem_counter (nt_server demo_net) ''PollCount'' = 0"
    by (simp_all add: demo_net_def mem_received_def mem_counter_def NewMemStorage_def)
  from agent_to_server_exact [OF demo_loop_run l(6) _ _ _ demo_id_form _ _ s(1) [folded l(4)] r, of "''PollCount''"]
  have "mem_counter (nt_server n') ''PollCount'' = 1" by (simp add: l e)
  with r show ?thesis by (intro exI [of _ gks] exI [of _ ?a] exI [of _ a'] exI [of _ n']) simp
qed

end
